(* ===== verification/Prelude.thy ===== *)
theory Prelude
  imports Main "HOL-Library.State_Monad" "HOL-Library.AList" "HOL-Library.Word"
begin

text \<open>
  Shared vocabulary of the development.

  \<^item> Result values: a Go function that returns \<^verbatim>\<open>(T, error)\<close> returns a value of the sum
    \<open>string + 'a\<close>; \<open>Inl msg\<close> is a non-nil error whose \<^verbatim>\<open>Error()\<close> text is \<open>msg\<close>, and
    \<^verbatim>\<open>fmt.Errorf("ctx: %w", err)\<close> is \<open>wrapf\<close>.
  \<^item> Effects: code that mutates state or calls the outside world is a program of the library's
    state monad. \<open>wp\<close> is its weakest precondition; the collection \<open>wp_simps\<close> computes it, so a
    contract of a handler is proved by rewriting along the handler's own control flow.
  \<^item> \<open>zoom\<close> runs a program of a component inside the state of the component that owns it.
  \<^item> Go maps with string keys are association lists (the library's \<open>AList\<close>), read by \<open>map_of\<close>.
\<close>

named_theorems wp_simps \<open>weakest preconditions of the program combinators\<close>
named_theorems code_defs \<open>definitions of the model's operations, for evaluation of closed terms\<close>

subsection \<open>Results\<close>

type_synonym 'a result = "string + 'a"

definition wrapf :: "string \<Rightarrow> string \<Rightarrow> string" where
  "wrapf ctx err = ctx @ '': '' @ err"

definition is_err :: "'a + 'b \<Rightarrow> bool" where
  "is_err r = (case r of Inl _ \<Rightarrow> True | Inr _ \<Rightarrow> False)"

lemma is_err_simps [simp]: "is_err (Inl e)" "\<not> is_err (Inr x)"
  by (simp_all add: is_err_def)

lemma not_is_errE: "\<not> is_err r \<Longrightarrow> (\<And>x. r = Inr x \<Longrightarrow> P) \<Longrightarrow> P"
  by (cases r) auto

subsection \<open>Programs\<close>

abbreviation ret :: "'a \<Rightarrow> ('s, 'a) state" where
  "ret \<equiv> State_Monad.return"

definition gets :: "('s \<Rightarrow> 'a) \<Rightarrow> ('s, 'a) state" where
  "gets f = State (\<lambda>s. (f s, s))"

definition modify :: "('s \<Rightarrow> 's) \<Rightarrow> ('s, unit) state" where
  "modify f = State (\<lambda>s. ((), f s))"

definition zoom :: "('s \<Rightarrow> 't) \<Rightarrow> ('t \<Rightarrow> 's \<Rightarrow> 's) \<Rightarrow> ('t, 'a) state \<Rightarrow> ('s, 'a) state" where
  "zoom g p m = State (\<lambda>s. case run_state m (g s) of (x, t) \<Rightarrow> (x, p t s))"

lemma run_gets [simp]: "run_state (gets f) s = (f s, s)"
  by (simp add: gets_def)

lemma run_modify [simp]: "run_state (modify f) s = ((), f s)"
  by (simp add: modify_def)

lemma run_zoom [simp]:
  "run_state (zoom g p m) s = (case run_state m (g s) of (x, t) \<Rightarrow> (x, p t s))"
  by (simp add: zoom_def)

subsection \<open>Weakest preconditions\<close>

definition wp :: "('s, 'a) state \<Rightarrow> ('a \<Rightarrow> 's \<Rightarrow> bool) \<Rightarrow> 's \<Rightarrow> bool" where
  "wp m Q s = (case run_state m s of (x, t) \<Rightarrow> Q x t)"

text \<open>The rules leave the final state unapplied, so that they also rewrite below a \<open>\<lambda>\<close>.\<close>

lemma wp_return [wp_simps]: "wp (ret x) Q = Q x"
  by (rule ext) (simp add: wp_def)

lemma wp_bind [wp_simps]: "wp (State_Monad.bind m f) Q = wp m (\<lambda>x. wp (f x) Q)"
  by (rule ext) (simp add: wp_def split: prod.splits)

lemma wp_gets [wp_simps]: "wp (gets f) Q = (\<lambda>s. Q (f s) s)"
  by (rule ext) (simp add: wp_def)

lemma wp_modify [wp_simps]: "wp (modify f) Q = (\<lambda>s. Q () (f s))"
  by (rule ext) (simp add: wp_def)

lemma wp_zoom [wp_simps]: "wp (zoom g p m) Q = (\<lambda>s. wp m (\<lambda>x t. Q x (p t s)) (g s))"
  by (rule ext) (simp add: wp_def split: prod.splits)

lemma wp_if [wp_simps]: "wp (if b then m else n) Q = (if b then wp m Q else wp n Q)"
  by simp

text \<open>A contract of a program is used at a call by monotonicity, and read off a run by \<open>wpD\<close>.\<close>

lemma wp_mono: "wp m P s \<Longrightarrow> (\<And>x t. P x t \<Longrightarrow> Q x t) \<Longrightarrow> wp m Q s"
  by (auto simp: wp_def split: prod.splits)

lemma wpD: "wp m Q s \<Longrightarrow> run_state m s = (x, t) \<Longrightarrow> Q x t"
  by (simp add: wp_def)

lemma wpI: "(\<And>x t. run_state m s = (x, t) \<Longrightarrow> Q x t) \<Longrightarrow> wp m Q s"
  by (auto simp: wp_def split: prod.splits)

lemma wp_any: "(\<And>x t. Q x t) \<Longrightarrow> wp m Q s"
  by (rule wpI)

lemma wp_conj: "wp m P s \<Longrightarrow> wp m Q s \<Longrightarrow> wp m (\<lambda>x t. P x t \<and> Q x t) s"
  by (auto simp: wp_def split: prod.splits)

lemma wp_True [simp]: "wp m (\<lambda>_ _. True) s"
  by (simp add: wp_def split: prod.splits)

subsection \<open>Go maps as association lists\<close>

lemma map_of_update [simp]: "map_of (AList.update k v m) = (map_of m)(k \<mapsto> v)"
  by (rule ext) (simp add: update_conv)

lemma map_of_delete [simp]: "map_of (AList.delete k m) = (map_of m)(k := None)"
  by (rule ext) (simp add: delete_conv)

lemma fst_set_update: "fst ` set (AList.update k v m) = insert k (fst ` set m)"
  by (simp add: dom_update)

lemma fst_set_delete: "fst ` set (AList.delete k m) = fst ` set m - {k}"
  by (auto simp: AList.delete_eq)

lemma length_update_fresh: "map_of m k = None \<Longrightarrow> length (AList.update k v m) = Suc (length m)"
  by (induction m) (auto split: if_splits)

end
