(* ===== verification/GoStrings.thy ===== *)
theory GoStrings
  imports Prelude "HOL-Library.Char_ord"
begin

text \<open>
  The text functions of the Go language and its standard library that the program uses, on
  \<open>string\<close> (a \<open>char\<close> is a byte, as in a Go string): \<^verbatim>\<open>%d\<close> and \<^verbatim>\<open>%02x\<close> of \<^verbatim>\<open>fmt\<close>,
  \<^verbatim>\<open>strings.Map\<close>, \<^verbatim>\<open>ToLower\<close>, \<^verbatim>\<open>TrimSpace\<close>, \<^verbatim>\<open>Fields\<close>, \<^verbatim>\<open>Contains\<close>, \<^verbatim>\<open>ReplaceAll\<close>, \<^verbatim>\<open>Join\<close>.
  A rune is a \<open>nat\<close>; ranging over a string decodes UTF-8, an invalid byte giving U+FFFD.
  White space is ASCII white space: the router outputs these functions read are ASCII.
  The lower case of a rune beyond ASCII is Unicode's table, an argument of \<open>ToLower\<close>.
\<close>

subsection \<open>Decimal and hexadecimal numbers\<close>

definition digit_char :: "nat \<Rightarrow> char" where
  "digit_char d = char_of (48 + d)"

fun nat_dec :: "nat \<Rightarrow> string" where
  "nat_dec n = (if n < 10 then [digit_char n] else nat_dec (n div 10) @ [digit_char (n mod 10)])"

declare nat_dec.simps [simp del]

definition fmt_d :: "int \<Rightarrow> string" where
  "fmt_d i = (if i < 0 then ''-'' @ nat_dec (nat (- i)) else nat_dec (nat i))"

definition hex_char :: "nat \<Rightarrow> char" where
  "hex_char d = (if d < 10 then char_of (48 + d) else char_of (87 + d))"

definition fmt_02x :: "8 word \<Rightarrow> string" where
  "fmt_02x b = [hex_char (unat b div 16), hex_char (unat b mod 16)]"

definition is_digit :: "char \<Rightarrow> bool" where
  "is_digit c \<longleftrightarrow> 48 \<le> (of_char c :: nat) \<and> (of_char c :: nat) \<le> 57"

definition digit_val :: "char \<Rightarrow> nat" where
  "digit_val c = of_char c - 48"

text \<open>Value of a hexadecimal digit, either case.\<close>

definition hex_val :: "char \<Rightarrow> nat option" where
  "hex_val c = (let n = (of_char c :: nat) in
     if 48 \<le> n \<and> n \<le> 57 then Some (n - 48)
     else if 97 \<le> n \<and> n \<le> 102 then Some (n - 87)
     else if 65 \<le> n \<and> n \<le> 70 then Some (n - 55)
     else None)"

lemma of_char_of_nat: "n < 256 \<Longrightarrow> (of_char (char_of n :: char) :: nat) = n"
  by simp

lemma is_digit_digit_char [simp]: "d < 10 \<Longrightarrow> is_digit (digit_char d)"
  by (simp add: is_digit_def digit_char_def)

lemma digit_val_digit_char [simp]: "d < 10 \<Longrightarrow> digit_val (digit_char d) = d"
  by (simp add: digit_val_def digit_char_def)

lemma hex_val_hex_char [simp]: "d < 16 \<Longrightarrow> hex_val (hex_char d) = Some d"
  by (auto simp: hex_val_def hex_char_def Let_def)

lemma nat_dec_small: "n < 10 \<Longrightarrow> nat_dec n = [digit_char n]"
  by (simp add: nat_dec.simps)

lemma nat_dec_step: "10 \<le> n \<Longrightarrow> nat_dec n = nat_dec (n div 10) @ [digit_char (n mod 10)]"
  by (subst nat_dec.simps) simp

lemma nat_dec_nonempty [simp]: "nat_dec n \<noteq> []"
  by (subst nat_dec.simps) simp

lemma nat_dec_digits: "c \<in> set (nat_dec n) \<Longrightarrow> is_digit c"
proof (induction n rule: nat_dec.induct)
  case (1 n)
  then show ?case by (cases "n < 10") (auto simp: nat_dec_small nat_dec_step)
qed

text \<open>An octet is printed with at most three digits, and without a leading zero.\<close>

lemma nat_dec_octet:
  assumes "n < 256"
  shows "nat_dec n =
    (if n < 10 then [digit_char n]
     else if n < 100 then [digit_char (n div 10), digit_char (n mod 10)]
     else [digit_char (n div 100), digit_char (n div 10 mod 10), digit_char (n mod 10)])"
proof -
  consider "n < 10" | "10 \<le> n" "n < 100" | "100 \<le> n" by linarith
  then show ?thesis
  proof cases
    case 1
    then show ?thesis by (simp add: nat_dec_small)
  next
    case 2
    then have "n div 10 < 10" by linarith
    with 2 show ?thesis by (simp add: nat_dec_step nat_dec_small)
  next
    case 3
    with assms have "10 \<le> n div 10" "n div 10 div 10 < 10" by linarith+
    then have "nat_dec (n div 10) = [digit_char (n div 100), digit_char (n div 10 mod 10)]"
      by (simp add: nat_dec_step [of "n div 10"] nat_dec_small div_mult2_eq [symmetric])
    with 3 show ?thesis by (simp add: nat_dec_step [of n])
  qed
qed

text \<open>The value of a text of decimal digits.\<close>

definition dec_val :: "string \<Rightarrow> nat" where
  "dec_val s = foldl (\<lambda>a c. 10 * a + digit_val c) 0 s"

lemma dec_val_nat_dec [simp]: "dec_val (nat_dec k) = k"
proof (induction k rule: nat_dec.induct)
  case (1 k)
  then show ?case by (cases "k < 10") (auto simp: dec_val_def nat_dec_small nat_dec_step)
qed

lemma nat_dec_inj: "nat_dec m = nat_dec n \<Longrightarrow> m = n"
  by (metis dec_val_nat_dec)

subsection \<open>Runes\<close>

definition rune_error :: nat where
  "rune_error = 65533"

definition cont_byte :: "nat \<Rightarrow> bool" where
  "cont_byte b \<longleftrightarrow> 128 \<le> b \<and> b < 192"

text \<open>\<^verbatim>\<open>utf8.DecodeRuneInString\<close>: the first rune of a non-empty byte sequence and its width.\<close>

definition decode_rune :: "nat list \<Rightarrow> nat \<times> nat" where
  "decode_rune bs = (case bs of
      [] \<Rightarrow> (rune_error, 0)
    | b0 # r0 \<Rightarrow>
       if b0 < 128 then (b0, 1)
       else (case r0 of
           [] \<Rightarrow> (rune_error, 1)
         | b1 # r1 \<Rightarrow>
           if 194 \<le> b0 \<and> b0 \<le> 223 then
             (if cont_byte b1 then ((b0 - 192) * 64 + (b1 - 128), 2) else (rune_error, 1))
           else if 224 \<le> b0 \<and> b0 \<le> 244
             \<and> cont_byte b1
             \<and> (b0 = 224 \<longrightarrow> 160 \<le> b1) \<and> (b0 = 237 \<longrightarrow> b1 \<le> 159)
             \<and> (b0 = 240 \<longrightarrow> 144 \<le> b1) \<and> (b0 = 244 \<longrightarrow> b1 \<le> 143) then
             (case r1 of
                [] \<Rightarrow> (rune_error, 1)
              | b2 # r2 \<Rightarrow>
                if \<not> cont_byte b2 then (rune_error, 1)
                else if b0 \<le> 239 then ((b0 - 224) * 4096 + (b1 - 128) * 64 + (b2 - 128), 3)
                else (case r2 of
                   [] \<Rightarrow> (rune_error, 1)
                 | b3 # r3 \<Rightarrow>
                   if cont_byte b3
                   then ((b0 - 240) * 262144 + (b1 - 128) * 4096 + (b2 - 128) * 64 + (b3 - 128), 4)
                   else (rune_error, 1)))
           else (rune_error, 1)))"

fun runes_fuel :: "nat \<Rightarrow> nat list \<Rightarrow> nat list" where
  "runes_fuel 0 bs = []"
| "runes_fuel (Suc k) bs = (if bs = [] then []
     else (case decode_rune bs of (r, w) \<Rightarrow> r # runes_fuel k (drop w bs)))"

text \<open>Every decoded rune consumes at least one byte, so the length of the string is enough fuel.\<close>

definition runes :: "string \<Rightarrow> nat list" where
  "runes s = runes_fuel (length s) (map of_char s)"

lemma runes_ascii:
  assumes "\<forall>c \<in> set s. (of_char c :: nat) < 128"
  shows "runes s = map of_char s"
proof -
  have "runes_fuel (length bs) bs = bs" if "\<forall>b \<in> set bs. b < 128" for bs
    using that by (induction bs) (auto simp: decode_rune_def)
  from this [of "map of_char s"] assms show ?thesis
    by (simp add: runes_def)
qed

lemma decode_rune_width: "bs \<noteq> [] \<Longrightarrow> 1 \<le> snd (decode_rune bs)"
  by (auto simp: decode_rune_def split: list.splits)

lemma runes_fuel_enough: "length bs \<le> k \<Longrightarrow> runes_fuel (Suc k) bs = runes_fuel k bs"
proof (induction k arbitrary: bs)
  case 0
  then show ?case by simp
next
  case (Suc k)
  show ?case
  proof (cases "bs = []")
    case True
    then show ?thesis by simp
  next
    case False
    obtain r w where d: "decode_rune bs = (r, w)" by fastforce
    with decode_rune_width [OF False] have "1 \<le> w" by simp
    with Suc.prems have "length (drop w bs) \<le> k" by simp
    then have "runes_fuel (Suc k) (drop w bs) = runes_fuel k (drop w bs)" by (rule Suc.IH)
    then show ?thesis by (simp only: runes_fuel.simps False d prod.case if_False)
  qed
qed

definition ascii_lower :: "nat \<Rightarrow> nat" where
  "ascii_lower r = (if 65 \<le> r \<and> r \<le> 90 then r + 32 else r)"

text \<open>\<^verbatim>\<open>strings.ToLower\<close>, on runes; \<open>ulower\<close> is Unicode's lower case beyond ASCII.\<close>

definition ToLower :: "(nat \<Rightarrow> nat) \<Rightarrow> nat list \<Rightarrow> nat list" where
  "ToLower ulower rs = map (\<lambda>r. if r < 128 then ascii_lower r else ulower r) rs"

subsection \<open>White space, fields and substrings\<close>

definition is_space :: "char \<Rightarrow> bool" where
  "is_space c \<longleftrightarrow> c \<in> {CHR '' '', CHR 0x09, CHR 0x0A, CHR 0x0B, CHR 0x0C, CHR 0x0D}"

definition TrimSpace :: "string \<Rightarrow> string" where
  "TrimSpace s = rev (dropWhile is_space (rev (dropWhile is_space s)))"

fun fields_from :: "string \<Rightarrow> string \<Rightarrow> string list" where
  "fields_from cur [] = (if cur = [] then [] else [cur])"
| "fields_from cur (c # cs) =
     (if is_space c then (if cur = [] then fields_from [] cs else cur # fields_from [] cs)
      else fields_from (cur @ [c]) cs)"

definition Fields :: "string \<Rightarrow> string list" where
  "Fields s = fields_from [] s"

fun has_prefix :: "string \<Rightarrow> string \<Rightarrow> bool" where
  "has_prefix [] s = True"
| "has_prefix (p # ps) [] = False"
| "has_prefix (p # ps) (c # cs) = (p = c \<and> has_prefix ps cs)"

fun Contains :: "string \<Rightarrow> string \<Rightarrow> bool" where
  "Contains [] sub = (sub = [])"
| "Contains (c # cs) sub = (has_prefix sub (c # cs) \<or> Contains cs sub)"

text \<open>\<^verbatim>\<open>strings.ReplaceAll\<close> for a one-byte pattern.\<close>

fun ReplaceAll :: "string \<Rightarrow> char \<Rightarrow> string \<Rightarrow> string" where
  "ReplaceAll [] old new = []"
| "ReplaceAll (c # cs) old new = (if c = old then new else [c]) @ ReplaceAll cs old new"

fun Join :: "string list \<Rightarrow> string \<Rightarrow> string" where
  "Join [] sep = []"
| "Join [x] sep = x"
| "Join (x # y # ys) sep = x @ sep @ Join (y # ys) sep"

definition field_ok :: "string \<Rightarrow> bool" where
  "field_ok f \<longleftrightarrow> f \<noteq> [] \<and> (\<forall>c \<in> set f. \<not> is_space c)"

lemma fields_from_ok: "cur = [] \<or> field_ok cur \<Longrightarrow> list_all field_ok (fields_from cur s)"
proof (induction s arbitrary: cur)
  case Nil
  then show ?case by auto
next
  case (Cons a s)
  have "\<not> is_space a \<Longrightarrow> field_ok (cur @ [a])"
    using Cons.prems by (auto simp: field_ok_def)
  with Cons.IH [of "[]"] Cons.IH [of "cur @ [a]"] Cons.prems show ?case by auto
qed

lemma Fields_ok: "list_all field_ok (Fields s)"
  unfolding Fields_def by (rule fields_from_ok) simp

end
