(* ===== verification/GoNet.thy ===== *)
theory GoNet
  imports GoStrings
begin

text \<open>
  Package \<^verbatim>\<open>net\<close> of the standard library, as far as the program uses it: \<^verbatim>\<open>net.IP\<close> (a byte slice;
  nil is the empty list), \<^verbatim>\<open>IP.To4\<close>, \<^verbatim>\<open>IP.String\<close>, \<^verbatim>\<open>IP.IsUnspecified\<close>, \<^verbatim>\<open>net.ParseIP\<close> (IPv4 and
  IPv6), \<^verbatim>\<open>net.HardwareAddr\<close>, its \<^verbatim>\<open>String\<close>, and \<^verbatim>\<open>net.ParseMAC\<close>.
  The round trips at the end are what the operator relies on: every dotted quad the agent prints
  passes \<^verbatim>\<open>net.ParseIP\<close>, and every printed 6-byte hardware address passes \<^verbatim>\<open>net.ParseMAC\<close>.
\<close>

type_synonym byte = "8 word"
type_synonym bytes = "byte list"
type_synonym ip = bytes
type_synonym mac = bytes

subsection \<open>IP addresses\<close>

definition v4_in_v6_prefix :: bytes where
  "v4_in_v6_prefix = [0,0,0,0,0,0,0,0,0,0,255,255]"

definition IPv4 :: "byte \<Rightarrow> byte \<Rightarrow> byte \<Rightarrow> byte \<Rightarrow> ip" where
  "IPv4 a b c d = v4_in_v6_prefix @ [a, b, c, d]"

definition To4 :: "ip \<Rightarrow> ip" where
  "To4 p = (if length p = 4 then p
            else if length p = 16 \<and> take 12 p = v4_in_v6_prefix then drop 12 p
            else [])"

definition ip_equal :: "ip \<Rightarrow> ip \<Rightarrow> bool" where
  "ip_equal p q =
     (if length p = length q then p = q
      else if length p = 4 \<and> length q = 16 then take 12 q = v4_in_v6_prefix \<and> p = drop 12 q
      else if length p = 16 \<and> length q = 4 then take 12 p = v4_in_v6_prefix \<and> drop 12 p = q
      else False)"

definition IsUnspecified :: "ip \<Rightarrow> bool" where
  "IsUnspecified p \<longleftrightarrow> ip_equal p (IPv4 0 0 0 0) \<or> ip_equal p (replicate 16 0)"

text \<open>\<^verbatim>\<open>net.CIDRMask(24, 32)\<close>.\<close>

definition CIDRMask_24 :: bytes where
  "CIDRMask_24 = [255, 255, 255, 0]"

definition dotted :: "ip \<Rightarrow> string" where
  "dotted p = Join (map (\<lambda>b. nat_dec (unat b)) p) ''.''"

text \<open>Hexadecimal without leading zeros, as IPv6 groups are printed.\<close>

fun nat_hex :: "nat \<Rightarrow> string" where
  "nat_hex n = (if n < 16 then [hex_char n] else nat_hex (n div 16) @ [hex_char (n mod 16)])"

declare nat_hex.simps [simp del]

definition groups16 :: "ip \<Rightarrow> nat list" where
  "groups16 p = map (\<lambda>i. unat (p ! (2 * i)) * 256 + unat (p ! (2 * i + 1))) [0..<8]"

text \<open>The first longest run of at least two zero groups: its start and end.\<close>

definition zero_run :: "nat list \<Rightarrow> nat \<times> nat" where
  "zero_run gs = foldl (\<lambda>(zs, ze) i.
      let j = i + length (takeWhile (\<lambda>g. g = 0) (drop i gs))
      in if 2 \<le> j - i \<and> ze - zs < j - i then (i, j) else (zs, ze)) (255, 255) [0..<length gs]"

definition string6 :: "ip \<Rightarrow> string" where
  "string6 p = (let gs = groups16 p; (zs, ze) = zero_run gs in
     if zs = 255 then Join (map nat_hex gs) '':''
     else Join (map nat_hex (take zs gs)) '':'' @ ''::'' @ Join (map nat_hex (drop ze gs)) '':'')"

definition IP_String :: "ip \<Rightarrow> string" where
  "IP_String p =
     (if p = [] then ''<nil>''
      else if length p \<noteq> 4 \<and> length p \<noteq> 16 then ''?'' @ concat (map fmt_02x p)
      else if To4 p \<noteq> [] then dotted (To4 p)
      else string6 p)"

subsection \<open>Parsing IP addresses\<close>

text \<open>
  \<^verbatim>\<open>netip.parseIPv4Fields\<close>: the loop over the bytes. \<open>acc\<close> holds the fields already closed,
  \<open>v\<close> and \<open>dl\<close> the value and the number of digits of the current one; a dot at the start, at the
  end or after another dot is refused because the current field has no digit.
\<close>

fun ipv4_fields :: "nat list \<Rightarrow> nat \<Rightarrow> nat \<Rightarrow> string \<Rightarrow> nat list option" where
  "ipv4_fields acc v dl [] =
     (if dl = 0 then None else if length acc < 3 then None else Some (acc @ [v]))"
| "ipv4_fields acc v dl (c # cs) =
     (if is_digit c then
        (if dl = 1 \<and> v = 0 then None
         else let v' = v * 10 + digit_val c in
           if 255 < v' then None else ipv4_fields acc v' (dl + 1) cs)
      else if c = CHR ''.'' then
        (if dl = 0 \<or> cs = [] then None
         else if length acc = 3 then None
         else ipv4_fields (acc @ [v]) 0 0 cs)
      else None)"

definition parseIPv4 :: "string \<Rightarrow> ip option" where
  "parseIPv4 s = map_option (\<lambda>fs. map of_nat fs) (ipv4_fields [] 0 0 s)"

text \<open>The hexadecimal digits of one IPv6 group: value, number of digits and the rest;
  a fifth digit fails.\<close>

fun hex_group :: "nat \<Rightarrow> nat \<Rightarrow> string \<Rightarrow> (nat \<times> nat \<times> string) option" where
  "hex_group acc off [] = Some (acc, off, [])"
| "hex_group acc off (c # cs) = (case hex_val c of
      None \<Rightarrow> Some (acc, off, c # cs)
    | Some d \<Rightarrow> if 3 < off then None else hex_group (acc * 16 + d) (off + 1) cs)"

text \<open>
  The loop of \<^verbatim>\<open>netip.parseIPv6\<close>: \<open>k\<close> is the number of 16-bit chunks that still fit, \<open>ip\<close> the
  bytes so far, \<open>ell\<close> the position of the ellipsis. The result is the bytes, the ellipsis and the
  unread rest.
\<close>

fun ipv6_loop :: "nat \<Rightarrow> bytes \<Rightarrow> nat option \<Rightarrow> string \<Rightarrow> (bytes \<times> nat option \<times> string) option" where
  "ipv6_loop 0 ip ell s = Some (ip, ell, s)"
| "ipv6_loop (Suc k) ip ell s = (case hex_group 0 0 s of
      None \<Rightarrow> None
    | Some (acc, off, r) \<Rightarrow>
        if off = 0 then None
        else if r \<noteq> [] \<and> hd r = CHR ''.'' then
          (if ell = None \<and> length ip \<noteq> 12 then None
           else if 16 < length ip + 4 then None
           else (case ipv4_fields [] 0 0 s of
                   None \<Rightarrow> None
                 | Some fs \<Rightarrow> Some (ip @ map of_nat fs, ell, [])))
        else
          let ip' = ip @ [of_nat (acc div 256), of_nat (acc mod 256)] in
          if r = [] then Some (ip', ell, [])
          else if hd r \<noteq> CHR '':'' then None
          else if tl r = [] then None
          else let s' = tl r in
            if hd s' = CHR '':'' then
              (if ell \<noteq> None then None
               else if tl s' = [] then Some (ip', Some (length ip'), [])
               else ipv6_loop k ip' (Some (length ip')) (tl s'))
            else ipv6_loop k ip' ell s')"

definition ipv6_finish :: "bytes \<times> nat option \<times> string \<Rightarrow> ip option" where
  "ipv6_finish r = (case r of (ip, ell, rest) \<Rightarrow>
     if rest \<noteq> [] then None
     else if length ip < 16 then
       (case ell of None \<Rightarrow> None
        | Some e \<Rightarrow> Some (take e ip @ replicate (16 - length ip) 0 @ drop e ip))
     else if ell \<noteq> None then None
     else Some ip)"

text \<open>An address with a zone is refused by \<^verbatim>\<open>net.ParseIP\<close>, so any \<^verbatim>\<open>%\<close> fails.\<close>

definition parseIPv6 :: "string \<Rightarrow> ip option" where
  "parseIPv6 s =
     (if CHR ''%'' \<in> set s then None
      else if take 2 s = ''::'' then
        (if drop 2 s = [] then Some (replicate 16 0)
         else Option.bind (ipv6_loop 8 [] (Some 0) (drop 2 s)) ipv6_finish)
      else Option.bind (ipv6_loop 8 [] None s) ipv6_finish)"

text \<open>\<^verbatim>\<open>net.ParseIP\<close>: the first dot, colon or percent sign decides the family; an IPv4 address
  comes back in its 16-byte form. \<open>None\<close> is the nil result.\<close>

definition ParseIP :: "string \<Rightarrow> ip option" where
  "ParseIP s = (case dropWhile (\<lambda>c. c \<notin> {CHR ''.'', CHR '':'', CHR ''%''}) s of
      [] \<Rightarrow> None
    | c # _ \<Rightarrow>
        if c = CHR ''.'' then map_option (\<lambda>p. v4_in_v6_prefix @ p) (parseIPv4 s)
        else if c = CHR '':'' then parseIPv6 s
        else None)"

subsection \<open>Hardware addresses\<close>

definition HardwareAddr_String :: "mac \<Rightarrow> string" where
  "HardwareAddr_String m = Join (map fmt_02x m) '':''"

text \<open>\<^verbatim>\<open>xtoi2(s, e)\<close>: two hexadecimal digits, followed by \<open>e\<close> where anything follows.\<close>

definition xtoi2 :: "string \<Rightarrow> char \<Rightarrow> byte option" where
  "xtoi2 s e = (if 2 < length s \<and> s ! 2 \<noteq> e then None
     else (case take 2 s of
        [a, b] \<Rightarrow> (case (hex_val a, hex_val b) of
            (Some x, Some y) \<Rightarrow> Some (of_nat (x * 16 + y))
          | _ \<Rightarrow> None)
      | _ \<Rightarrow> None))"

fun mac_pairs :: "nat \<Rightarrow> char \<Rightarrow> string \<Rightarrow> mac option" where
  "mac_pairs 0 e s = Some []"
| "mac_pairs (Suc n) e s = (case xtoi2 s e of
      None \<Rightarrow> None
    | Some b \<Rightarrow> map_option ((#) b) (mac_pairs n e (drop 3 s)))"

fun mac_quads :: "nat \<Rightarrow> char \<Rightarrow> string \<Rightarrow> mac option" where
  "mac_quads 0 e s = Some []"
| "mac_quads (Suc n) e s = (case xtoi2 (take 2 s) (CHR 0x00) of
      None \<Rightarrow> None
    | Some a \<Rightarrow> (case xtoi2 (drop 2 s) e of
          None \<Rightarrow> None
        | Some b \<Rightarrow> map_option (\<lambda>r. a # b # r) (mac_quads n e (drop 5 s))))"

definition ParseMAC :: "string \<Rightarrow> mac option" where
  "ParseMAC s =
     (if length s < 14 then None
      else if s ! 2 = CHR '':'' \<or> s ! 2 = CHR ''-'' then
        (if (length s + 1) mod 3 \<noteq> 0 then None
         else let n = (length s + 1) div 3 in
           if n \<notin> {6, 8, 20} then None else mac_pairs n (s ! 2) s)
      else if s ! 4 = CHR ''.'' then
        (if (length s + 1) mod 5 \<noteq> 0 then None
         else let n = 2 * (length s + 1) div 5 in
           if n \<notin> {6, 8, 20} then None else mac_quads (n div 2) (s ! 4) s)
      else None)"

subsection \<open>Round trips\<close>

lemma is_digit_dot [simp]: "\<not> is_digit (CHR ''.'')"
  by (simp add: is_digit_def)

text \<open>Reading the digits of an octet leaves its value in the current field.\<close>

lemma ipv4_fields_octet:
  assumes "n < 256"
  shows "\<exists>dl. 0 < dl \<and> ipv4_fields acc 0 0 (nat_dec n @ cs) = ipv4_fields acc n dl cs"
proof -
  consider "n < 10" | "10 \<le> n" "n < 100" | "100 \<le> n" by linarith
  then show ?thesis
  proof cases
    case 1
    then have "ipv4_fields acc 0 0 (nat_dec n @ cs) = ipv4_fields acc n 1 cs"
      by (simp add: nat_dec_small)
    then show ?thesis by (metis zero_less_one)
  next
    case 2
    then have "0 < n div 10" "n div 10 \<le> 255" by linarith+
    with 2 have "ipv4_fields acc 0 0 (nat_dec n @ cs) = ipv4_fields acc n (Suc (Suc 0)) cs"
      by (simp add: nat_dec_octet Let_def)
    then show ?thesis by (metis zero_less_Suc)
  next
    case 3
    have "n div 100 = n div 10 div 10" by (simp add: div_mult2_eq [symmetric])
    then have v: "(n div 100 * 10 + n div 10 mod 10) * 10 + n mod 10 = n" by simp
    have "n div 100 < 10" "n div 100 * 10 + n div 10 mod 10 \<le> 255" "0 < n div 100"
      using assms 3 by linarith+
    with 3 assms v have "ipv4_fields acc 0 0 (nat_dec n @ cs) = ipv4_fields acc n (Suc (Suc (Suc 0))) cs"
      by (simp add: nat_dec_octet Let_def)
    then show ?thesis by (metis zero_less_Suc)
  qed
qed

lemma ipv4_fields_octet_dot:
  assumes "n < 256" and "length acc < 3" and "cs \<noteq> []"
  shows "ipv4_fields acc 0 0 (nat_dec n @ CHR ''.'' # cs) = ipv4_fields (acc @ [n]) 0 0 cs"
proof -
  obtain dl where "0 < dl"
    and "ipv4_fields acc 0 0 (nat_dec n @ CHR ''.'' # cs) = ipv4_fields acc n dl (CHR ''.'' # cs)"
    using ipv4_fields_octet [OF assms(1)] by blast
  with assms show ?thesis by simp
qed

lemma ipv4_fields_last:
  assumes "n < 256" and "length acc = 3"
  shows "ipv4_fields acc 0 0 (nat_dec n) = Some (acc @ [n])"
proof -
  obtain dl where "0 < dl" and "ipv4_fields acc 0 0 (nat_dec n @ []) = ipv4_fields acc n dl []"
    using ipv4_fields_octet [OF assms(1)] by blast
  with assms show ?thesis by simp
qed

lemma dotted4: "dotted [a, b, c, d] = nat_dec (unat a) @ CHR ''.'' # nat_dec (unat b) @ CHR ''.'' #
   nat_dec (unat c) @ CHR ''.'' # nat_dec (unat d)"
  by (simp add: dotted_def)

lemma unat_byte_less [simp]: "unat (b :: byte) < 256"
  using unsigned_less [of b] by simp

lemma parseIPv4_dotted: "parseIPv4 (dotted [a, b, c, d]) = Some [a, b, c, d]"
  by (simp add: parseIPv4_def dotted4 ipv4_fields_octet_dot ipv4_fields_last)

lemma digit_not_sep: "is_digit c \<Longrightarrow> c \<notin> {CHR ''.'', CHR '':'', CHR ''%''}"
  by (auto simp: is_digit_def)

lemma ParseIP_dotted: "ParseIP (dotted [a, b, c, d]) = Some (IPv4 a b c d)"
proof -
  have "\<forall>x \<in> set (nat_dec (unat a)). x \<notin> {CHR ''.'', CHR '':'', CHR ''%''}"
    using nat_dec_digits digit_not_sep by blast
  then have "dropWhile (\<lambda>c. c \<notin> {CHR ''.'', CHR '':'', CHR ''%''}) (nat_dec (unat a) @ cs) =
    dropWhile (\<lambda>c. c \<notin> {CHR ''.'', CHR '':'', CHR ''%''}) cs" for cs
    by (intro dropWhile_append2) blast
  then have "dropWhile (\<lambda>c. c \<notin> {CHR ''.'', CHR '':'', CHR ''%''}) (dotted [a, b, c, d]) =
    CHR ''.'' # nat_dec (unat b) @ CHR ''.'' # nat_dec (unat c) @ CHR ''.'' # nat_dec (unat d)"
    by (simp add: dotted4)
  then show ?thesis
    by (simp only: ParseIP_def list.case refl if_True parseIPv4_dotted option.map IPv4_def)
qed

lemma length4E:
  assumes "length p = 4"
  obtains a b c d where "p = [a, b, c, d]"
  using assms by (auto simp: numeral_eq_Suc length_Suc_conv)

lemma To4_cases: "To4 p \<noteq> [] \<Longrightarrow> length (To4 p) = 4"
  by (auto simp: To4_def split: if_splits)

text \<open>Whatever four-byte address an \<^verbatim>\<open>IP.String\<close> prints, \<^verbatim>\<open>ParseIP\<close> reads back.\<close>

lemma IP_String_v4: "To4 p \<noteq> [] \<Longrightarrow> IP_String p = dotted (To4 p)"
  by (auto simp: IP_String_def To4_def split: if_splits)

lemma ParseIP_IP_String:
  assumes "To4 p \<noteq> []"
  shows "ParseIP (IP_String p) = Some (v4_in_v6_prefix @ To4 p)"
proof -
  obtain a b c d where "To4 p = [a, b, c, d]"
    using To4_cases [OF assms] by (rule length4E)
  then show ?thesis
    using assms by (simp add: IP_String_v4 ParseIP_dotted IPv4_def)
qed

lemma xtoi2_fmt_02x:
  "cs = [] \<or> hd cs = e \<Longrightarrow> xtoi2 (fmt_02x b @ cs) e = Some b"
proof -
  assume cs: "cs = [] \<or> hd cs = e"
  have "of_nat (unat b div 16 * 16 + unat b mod 16) = b" by simp
  moreover have "unat b div 16 < 16" by (simp add: less_mult_imp_div_less)
  ultimately show ?thesis
    using cs by (cases cs) (auto simp: xtoi2_def fmt_02x_def simp del: of_nat_add of_nat_mult)
qed

lemma ParseMAC_String6:
  "ParseMAC (HardwareAddr_String [a, b, c, d, e, f]) = Some [a, b, c, d, e, f]"
proof -
  have len: "length (fmt_02x x) = 2" for x by (simp add: fmt_02x_def)
  have dr: "drop 3 (fmt_02x x @ y # ys) = ys" for x y ys by (simp add: fmt_02x_def)
  have s: "HardwareAddr_String [a, b, c, d, e, f] =
    fmt_02x a @ CHR '':'' # fmt_02x b @ CHR '':'' # fmt_02x c @ CHR '':'' # fmt_02x d @ CHR '':'' #
    fmt_02x e @ CHR '':'' # fmt_02x f @ []"
    by (simp add: HardwareAddr_String_def)
  have six: "(6::nat) = Suc (Suc (Suc (Suc (Suc (Suc 0)))))" by simp
  have "mac_pairs 6 (CHR '':'') (HardwareAddr_String [a, b, c, d, e, f]) = Some [a, b, c, d, e, f]"
    unfolding s six mac_pairs.simps
    by (simp add: xtoi2_fmt_02x dr del: append_Nil2 drop_append)
  moreover have "length (HardwareAddr_String [a, b, c, d, e, f]) = 17"
    "HardwareAddr_String [a, b, c, d, e, f] ! 2 = CHR '':''"
    by (simp_all add: s len nth_append)
  ultimately show ?thesis by (simp add: ParseMAC_def)
qed

end
