(* ===== verification/Json.thy ===== *)
theory Json
  imports GoNet
begin

text \<open>
  \<^verbatim>\<open>encoding/json\<close> at the level of documents: the value a text denotes. Decoding into a struct goes
  through the members in order; a member sets the field whose tag it matches (Go compares names
  ignoring case), an unknown member is skipped, \<^verbatim>\<open>null\<close> leaves a scalar as it is and makes a slice
  nil, and a value of another type is an error. \<open>golib\<close> holds the texts of the standard library
  that are not spelled out (RFC 3339 times, base64, the wording of its errors).
\<close>

datatype json = JNull | JBool bool | JNum int | JStr string | JArr "json list"
  | JObj "(string \<times> json) list"

text \<open>What a file or a body holds: a document, or bytes that are none.\<close>

datatype content = Doc json | Torn

record golib =
  time_text :: "int \<Rightarrow> string"
  time_parse :: "string \<Rightarrow> int option"
  base64_text :: "bytes \<Rightarrow> string"
  base64_parse :: "string \<Rightarrow> bytes option"
  json_error :: "content \<Rightarrow> string"
  ip_text_error :: "ip \<Rightarrow> string"

definition lower_char :: "char \<Rightarrow> char" where
  "lower_char c = char_of (ascii_lower (of_char c))"

definition tag_matches :: "string \<Rightarrow> string \<Rightarrow> bool" where
  "tag_matches tag key \<longleftrightarrow> map lower_char key = map lower_char tag"

lemma tag_matches_refl [simp]: "tag_matches t t"
  by (simp add: tag_matches_def)

subsection \<open>Decoders of field values\<close>

definition dec_string :: "json \<Rightarrow> string \<Rightarrow> string option" where
  "dec_string v old = (case v of JNull \<Rightarrow> Some old | JStr s \<Rightarrow> Some s | _ \<Rightarrow> None)"

definition dec_int :: "json \<Rightarrow> int \<Rightarrow> int option" where
  "dec_int v old = (case v of JNull \<Rightarrow> Some old
     | JNum n \<Rightarrow> (if - (2 ^ 63) \<le> n \<and> n < 2 ^ 63 then Some n else None) | _ \<Rightarrow> None)"

definition dec_bool :: "json \<Rightarrow> bool \<Rightarrow> bool option" where
  "dec_bool v old = (case v of JNull \<Rightarrow> Some old | JBool b \<Rightarrow> Some b | _ \<Rightarrow> None)"

definition dec_time :: "golib \<Rightarrow> json \<Rightarrow> int \<Rightarrow> int option" where
  "dec_time G v old = (case v of JNull \<Rightarrow> Some old | JStr s \<Rightarrow> time_parse G s | _ \<Rightarrow> None)"

definition dec_byte :: "json \<Rightarrow> byte option" where
  "dec_byte v = (case v of JNull \<Rightarrow> Some 0
     | JNum n \<Rightarrow> (if 0 \<le> n \<and> n < 256 then Some (of_int n) else None) | _ \<Rightarrow> None)"

definition dec_bytes :: "golib \<Rightarrow> json \<Rightarrow> bytes option" where
  "dec_bytes G v = (case v of JNull \<Rightarrow> Some [] | JStr s \<Rightarrow> base64_parse G s
     | JArr vs \<Rightarrow> those (map dec_byte vs) | _ \<Rightarrow> None)"

text \<open>\<^verbatim>\<open>net.IP\<close> reads and writes itself as text: nil is the empty string, and every other length
  than 4 and 16 bytes is refused.\<close>

definition ip_marshal :: "golib \<Rightarrow> ip \<Rightarrow> json result" where
  "ip_marshal G p = (if p = [] then Inr (JStr [])
     else if length p \<noteq> 4 \<and> length p \<noteq> 16 then Inl (ip_text_error G p)
     else Inr (JStr (IP_String p)))"

definition dec_ip :: "json \<Rightarrow> ip option" where
  "dec_ip v = (case v of JNull \<Rightarrow> Some []
     | JStr s \<Rightarrow> (if s = [] then Some [] else ParseIP s) | _ \<Rightarrow> None)"

text \<open>A struct is decoded by folding its members; \<open>put\<close> decides what one member does.\<close>

fun dec_members :: "(string \<Rightarrow> json \<Rightarrow> 'r \<Rightarrow> 'r option) \<Rightarrow> (string \<times> json) list \<Rightarrow> 'r \<Rightarrow> 'r option" where
  "dec_members put [] r = Some r"
| "dec_members put ((k, v) # ms) r = Option.bind (put k v r) (dec_members put ms)"

definition dec_struct :: "(string \<Rightarrow> json \<Rightarrow> 'r \<Rightarrow> 'r option) \<Rightarrow> json \<Rightarrow> 'r \<Rightarrow> 'r option" where
  "dec_struct put v r = (case v of JNull \<Rightarrow> Some r | JObj ms \<Rightarrow> dec_members put ms r | _ \<Rightarrow> None)"

text \<open>An address in the form it has after a round trip: 16 bytes.\<close>

definition ip_norm :: "ip \<Rightarrow> ip" where
  "ip_norm p = (if To4 p \<noteq> [] then v4_in_v6_prefix @ To4 p else p)"

definition v4_or_nil :: "ip \<Rightarrow> bool" where
  "v4_or_nil p \<longleftrightarrow> p = [] \<or> To4 p \<noteq> []"

lemma To4_ip_norm [simp]: "To4 (ip_norm p) = To4 p"
  by (auto simp: ip_norm_def To4_def v4_in_v6_prefix_def)

lemma IP_String_nonempty [simp]: "To4 p \<noteq> [] \<Longrightarrow> IP_String p \<noteq> []"
proof
  assume "To4 p \<noteq> []" "IP_String p = []"
  moreover have "ParseIP [] = None" by (simp add: ParseIP_def)
  ultimately show False by (metis ParseIP_IP_String option.distinct(1))
qed

lemma ip_roundtrip:
  assumes "v4_or_nil p"
  shows "\<exists>j. ip_marshal G p = Inr j \<and> dec_ip j = Some (ip_norm p)"
proof (cases "p = []")
  case True
  then show ?thesis by (simp add: ip_marshal_def dec_ip_def ip_norm_def To4_def)
next
  case False
  with assms have "To4 p \<noteq> []" by (simp add: v4_or_nil_def)
  then show ?thesis
    by (auto simp: ip_marshal_def dec_ip_def ip_norm_def ParseIP_IP_String To4_def split: if_splits)
qed

text \<open>Concrete texts to run documents on: decimal instants, bytes as characters.\<close>

definition sim_G :: golib where
  "sim_G = \<lparr>time_text = fmt_d,
     time_parse = (\<lambda>s. Some (if take 1 s = ''-'' then - int (dec_val (drop 1 s)) else int (dec_val s))),
     base64_text = map (\<lambda>b. char_of (unat b)), base64_parse = (\<lambda>s. Some (map (\<lambda>c. of_nat (of_char c)) s)),
     json_error = (\<lambda>_. ''unexpected end of JSON input''), ip_text_error = (\<lambda>_. ''invalid IP address'')\<rparr>"

text \<open>The clock's texts can be read back.\<close>

definition times_roundtrip :: "golib \<Rightarrow> bool" where
  "times_roundtrip G \<longleftrightarrow> (\<forall>t. time_parse G (time_text G t) = Some t)"

lemma sim_times: "times_roundtrip sim_G"
proof -
  have "take 1 (nat_dec n) \<noteq> ''-''" for n
  proof
    assume "take 1 (nat_dec n) = ''-''"
    then have "CHR ''-'' \<in> set (nat_dec n)" by (metis in_set_takeD list.set_intros(1))
    then show False using nat_dec_digits [of "CHR ''-''" n] by (simp add: is_digit_def)
  qed
  then show ?thesis by (auto simp: times_roundtrip_def sim_G_def fmt_d_def)
qed

end
