(* ===== verification/KernelOps.thy ===== *)
theory KernelOps
  imports GoNet
begin

text \<open>
  What the router agent calls outside this repository to reach the kernel: \<^verbatim>\<open>net\<close> and \<^verbatim>\<open>syscall\<close>
  sockets, the \<^verbatim>\<open>vishvananda/netlink\<close> package and writes below \<^verbatim>\<open>/proc/sys\<close>. They are parameters
  of the model: the record \<open>kernel_ops\<close> holds one program per call, over an abstract world \<open>'w\<close>
  (the kernel's tables and its failures). \<open>netlink_spec\<close> names what the code relies on of the
  netlink calls, for the theorems that need it.
\<close>

text \<open>\<^verbatim>\<open>netlink.LinkNotFoundError\<close> against every other error of a link lookup.\<close>

datatype link_error = LinkNotFound string | LinkOther string

fun link_error_msg :: "link_error \<Rightarrow> string" where
  "link_error_msg (LinkNotFound m) = m"
| "link_error_msg (LinkOther m) = m"

text \<open>Errors that the code classifies with \<^verbatim>\<open>os.IsNotExist\<close>.\<close>

datatype os_error = NotExist string | OsOther string

fun os_error_msg :: "os_error \<Rightarrow> string" where
  "os_error_msg (NotExist m) = m"
| "os_error_msg (OsOther m) = m"

record link =
  link_name :: string
  link_index :: nat

record macvlan =
  mv_name :: string
  mv_parent :: nat
  mv_mac :: mac

record neigh =
  neigh_link :: nat
  neigh_ip :: ip

record sockaddr =
  sa_protocol :: "16 word"
  sa_ifindex :: nat

record 'w kernel_ops =
  InterfaceByName :: "string \<Rightarrow> ('w, nat result) state"
  Socket :: "16 word \<Rightarrow> ('w, nat result) state"
  Sendto :: "nat \<Rightarrow> bytes \<Rightarrow> sockaddr \<Rightarrow> ('w, unit result) state"
  CloseFd :: "nat \<Rightarrow> ('w, unit) state"
  Sleep_ms :: "nat \<Rightarrow> ('w, unit) state"
  LinkByName :: "string \<Rightarrow> ('w, link_error + link) state"
  LinkAdd :: "macvlan \<Rightarrow> ('w, unit result) state"
  LinkSetUp :: "string \<Rightarrow> ('w, unit result) state"
  LinkDel :: "string \<Rightarrow> ('w, unit result) state"
  NeighSet :: "neigh \<Rightarrow> ('w, unit result) state"
  NeighDel :: "neigh \<Rightarrow> ('w, os_error + unit) state"
  WriteSys :: "string \<Rightarrow> string \<Rightarrow> ('w, os_error + unit) state"

text \<open>
  A call that may only move the part of the world the observer \<open>f\<close> does not see.
\<close>

definition keeps :: "('w \<Rightarrow> 'o) \<Rightarrow> ('w, 'a) state \<Rightarrow> bool" where
  "keeps f m \<longleftrightarrow> (\<forall>w. wp m (\<lambda>_ w'. f w' = f w) w)"

lemma wp_keeps: "keeps f m \<Longrightarrow> (\<And>x w'. f w' = f w \<Longrightarrow> Q x w') \<Longrightarrow> wp m Q w"
  unfolding keeps_def by (erule allE, erule wp_mono) simp

lemma keeps_ret [simp]: "keeps f (ret x)"
  by (simp add: keeps_def wp_simps)

lemma keeps_bind: "keeps f m \<Longrightarrow> (\<And>x. keeps f (g x)) \<Longrightarrow> keeps f (State_Monad.bind m g)"
  unfolding keeps_def [of f "State_Monad.bind m g"] wp_bind
  by (auto intro!: wp_keeps)

lemma keeps_sum_case:
  "(\<And>e. keeps f (g e)) \<Longrightarrow> (\<And>x. keeps f (h x)) \<Longrightarrow> keeps f (case r of Inl e \<Rightarrow> g e | Inr x \<Rightarrow> h x)"
  by (simp split: sum.split)

lemma keeps_link_case:
  "(\<And>m. keeps f (g m)) \<Longrightarrow> (\<And>m. keeps f (h m)) \<Longrightarrow>
     keeps f (case e of LinkNotFound m \<Rightarrow> g m | LinkOther m \<Rightarrow> h m)"
  by (simp split: link_error.split)

lemma keeps_option_case:
  "keeps f m \<Longrightarrow> (\<And>x. keeps f (h x)) \<Longrightarrow> keeps f (case r of None \<Rightarrow> m | Some x \<Rightarrow> h x)"
  by (simp split: option.split)

lemma keeps_prod_case: "(\<And>x y. keeps f (h x y)) \<Longrightarrow> keeps f (case r of (x, y) \<Rightarrow> h x y)"
  by (simp split: prod.split)

lemma keeps_bool_case: "keeps f m \<Longrightarrow> keeps f n \<Longrightarrow> keeps f (case b of True \<Rightarrow> m | False \<Rightarrow> n)"
  by (simp split: bool.split)

lemma keeps_if: "keeps f m \<Longrightarrow> keeps f n \<Longrightarrow> keeps f (if b then m else n)"
  by simp

lemma keeps_let: "(\<And>x. keeps f (h x)) \<Longrightarrow> keeps f (let x = v in h x)"
  by simp

lemma keeps_gets [simp]: "keeps f (gets g)"
  by (simp add: keeps_def wp_simps)

lemma keeps_modify: "(\<And>s. f (g s) = f s) \<Longrightarrow> keeps f (modify g)"
  by (simp add: keeps_def wp_simps)

lemma keeps_zoom_other: "(\<And>t s. f (p t s) = f s) \<Longrightarrow> keeps f (zoom g p m)"
  by (simp add: keeps_def wp_simps)

lemma keeps_zoom: "keeps f m \<Longrightarrow> (\<And>t s. h (p t s) = f t) \<Longrightarrow> (\<And>s. h s = f (g s)) \<Longrightarrow> keeps h (zoom g p m)"
  by (simp add: keeps_def wp_simps)

lemmas keeps_intros = keeps_ret keeps_gets keeps_bind keeps_sum_case keeps_link_case
  keeps_option_case keeps_prod_case keeps_bool_case keeps_if keeps_let

text \<open>
  What the code relies on of netlink, with \<open>links w\<close> the names of the links that exist:
  a lookup finds exactly the links that exist (it may fail for another reason) and returns the
  name it was asked for; creating a link adds its name when it succeeds and nothing when it fails;
  deleting removes it when it succeeds and nothing when it fails; no other call creates or removes
  a link.
\<close>

definition netlink_spec :: "'w kernel_ops \<Rightarrow> ('w \<Rightarrow> string set) \<Rightarrow> bool" where
  "netlink_spec K links \<longleftrightarrow>
     (\<forall>n w. wp (LinkByName K n) (\<lambda>r w'. links w' = links w \<and>
        (case r of Inl (LinkNotFound _) \<Rightarrow> n \<notin> links w
                 | Inl (LinkOther _) \<Rightarrow> True
                 | Inr l \<Rightarrow> n \<in> links w \<and> link_name l = n)) w) \<and>
     (\<forall>m w. wp (LinkAdd K m) (\<lambda>r w'.
        links w' = (if is_err r then links w else insert (mv_name m) (links w))) w) \<and>
     (\<forall>n w. wp (LinkDel K n) (\<lambda>r w'.
        links w' = (if is_err r then links w else links w - {n})) w) \<and>
     (\<forall>n. keeps links (LinkSetUp K n)) \<and>
     (\<forall>n. keeps links (NeighSet K n)) \<and>
     (\<forall>n. keeps links (NeighDel K n)) \<and>
     (\<forall>p s. keeps links (WriteSys K p s)) \<and>
     (\<forall>n. keeps links (InterfaceByName K n)) \<and>
     (\<forall>p. keeps links (Socket K p)) \<and>
     (\<forall>fd p a. keeps links (Sendto K fd p a)) \<and>
     (\<forall>fd. keeps links (CloseFd K fd)) \<and>
     (\<forall>n. keeps links (Sleep_ms K n))"

text \<open>A kernel in which a lookup finds every link that exists and deleting one succeeds.\<close>

definition netlink_reliable :: "'w kernel_ops \<Rightarrow> ('w \<Rightarrow> string set) \<Rightarrow> bool" where
  "netlink_reliable K links \<longleftrightarrow>
     (\<forall>n w. n \<in> links w \<longrightarrow> wp (LinkByName K n) (\<lambda>r _. \<not> is_err r) w) \<and>
     (\<forall>n w. n \<in> links w \<longrightarrow> wp (LinkDel K n) (\<lambda>r _. \<not> is_err r) w)"

subsection \<open>Preservation\<close>

text \<open>\<open>pres I m\<close>: the program \<open>m\<close> keeps the predicate \<open>I\<close>, construct by construct.\<close>

definition pres :: "('s \<Rightarrow> bool) \<Rightarrow> ('s, 'a) state \<Rightarrow> bool" where
  "pres I m \<longleftrightarrow> (\<forall>s. I s \<longrightarrow> wp m (\<lambda>_. I) s)"

named_theorems pres_intros \<open>preservation, construct by construct\<close>

lemma pres_ret [pres_intros]: "pres I (ret x)" "pres I (gets f)"
  by (simp_all add: pres_def wp_simps)

lemma pres_bind [pres_intros]: "pres I m \<Longrightarrow> (\<And>x. pres I (f x)) \<Longrightarrow> pres I (State_Monad.bind m f)"
  unfolding pres_def wp_bind by (blast intro: wp_mono)

lemma pres_modify: "(\<And>s. I s \<Longrightarrow> I (f s)) \<Longrightarrow> pres I (modify f)"
  by (simp add: pres_def wp_simps)

lemma pres_cases [pres_intros]:
  "pres I m \<Longrightarrow> pres I n \<Longrightarrow> pres I (if b then m else n)"
  "(\<And>e. pres I (f e)) \<Longrightarrow> (\<And>x. pres I (g x)) \<Longrightarrow> pres I (case r of Inl e \<Rightarrow> f e | Inr x \<Rightarrow> g x)"
  "pres I m \<Longrightarrow> (\<And>x. pres I (h x)) \<Longrightarrow> pres I (case v of None \<Rightarrow> m | Some x \<Rightarrow> h x)"
  "(\<And>x y. pres I (k x y)) \<Longrightarrow> pres I (case p of (x, y) \<Rightarrow> k x y)"
  "pres I m \<Longrightarrow> pres I n \<Longrightarrow> pres I (case b of True \<Rightarrow> m | False \<Rightarrow> n)"
  "(\<And>x. pres I (t x)) \<Longrightarrow> pres I (let x = w in t x)"
  by (simp_all split: sum.split option.split prod.split bool.split)

lemma wp_pres: "pres I m \<Longrightarrow> I s \<Longrightarrow> (\<And>x s'. I s' \<Longrightarrow> Q x s') \<Longrightarrow> wp m Q s"
  unfolding pres_def by (blast intro: wp_mono)

lemma presD: "pres I m \<Longrightarrow> I s \<Longrightarrow> wp m (\<lambda>_. I) s"
  by (simp add: pres_def)

lemma pres_step: "pres I m \<Longrightarrow> I s \<Longrightarrow> run_state m s = (x, s') \<Longrightarrow> I s'"
  using wpD [OF presD] by fastforce

lemma pres_zoom_other: "(\<And>t s. I (p t s) = I s) \<Longrightarrow> pres I (zoom g p m)"
  by (simp add: pres_def wp_simps)

end
