(* ===== verification/Lease.thy ===== *)
theory Lease
  imports Json "HOL-Library.List_Lexorder" KernelOps
begin

text \<open>
  \<^verbatim>\<open>internal/agent/lease/types.go\<close>: the lease record and the lease store. The store keeps a map from
  interface names to leases in memory, writes it as one JSON document to its state file through a
  temporary file and a rename, and holds a set of interfaces with an operation in flight.

  The disk is part of the state: \<open>disk_files\<close> are the files, \<open>disk_script\<close> is what the next calls
  answer (an empty script answers with success), so a statement for every script covers every
  failure and every torn write. Leases are values: every mutation the code makes through a
  \<^verbatim>\<open>*Lease\<close> is followed by the \<^verbatim>\<open>Set\<close> of that lease, which is where it enters the map.
  A \<^verbatim>\<open>nil\<close> map (a state file holding \<^verbatim>\<open>null\<close>) is the empty one and a \<^verbatim>\<open>nil\<close> entry the zero lease: \<^verbatim>\<open>save\<close>
  writes neither.
\<close>

subsection \<open>Leases\<close>

definition StatusActive :: string where "StatusActive = ''active''"
definition StatusStale :: string where "StatusStale = ''stale''"
definition StatusExpired :: string where "StatusExpired = ''expired''"

lemmas status_defs = StatusActive_def StatusStale_def StatusExpired_def

record lease =
  ls_Interface :: string
  ls_WanParent :: string
  ls_IPAddress :: ip
  ls_DHCPServerIP :: ip
  ls_MACAddress :: mac
  ls_ExpiresAt :: int
  ls_LeaseTime :: int
  ls_RenewalCount :: int
  ls_Status :: string
  ls_InterfaceExists :: bool
  ls_CreatedAt :: int
  ls_DHCPOffer :: bytes
  ls_DHCPAck :: bytes

text \<open>\<^verbatim>\<open>json.Marshal\<close> of a lease, in the order of the struct; the raw packets have \<^verbatim>\<open>omitempty\<close>.\<close>

definition lease_marshal :: "golib \<Rightarrow> lease \<Rightarrow> json result" where
  "lease_marshal G l = (case ip_marshal G (ls_IPAddress l) of Inl e \<Rightarrow> Inl e | Inr jip \<Rightarrow>
     (case ip_marshal G (ls_DHCPServerIP l) of Inl e \<Rightarrow> Inl e | Inr jsrv \<Rightarrow>
       Inr (JObj ([(''interface'', JStr (ls_Interface l)),
         (''wanParent'', JStr (ls_WanParent l)),
         (''ipAddress'', jip),
         (''dhcpServerIP'', jsrv),
         (''macAddress'', if ls_MACAddress l = [] then JNull else JStr (base64_text G (ls_MACAddress l))),
         (''expiresAt'', JStr (time_text G (ls_ExpiresAt l))),
         (''leaseTime'', JNum (ls_LeaseTime l)),
         (''renewalCount'', JNum (ls_RenewalCount l)),
         (''status'', JStr (ls_Status l)),
         (''interfaceExists'', JBool (ls_InterfaceExists l)),
         (''createdAt'', JStr (time_text G (ls_CreatedAt l)))] @
        (if ls_DHCPOffer l = [] then [] else [(''dhcpOffer'', JStr (base64_text G (ls_DHCPOffer l)))]) @
        (if ls_DHCPAck l = [] then [] else [(''dhcpAck'', JStr (base64_text G (ls_DHCPAck l)))])))))"

definition zero_lease :: lease where
  "zero_lease = \<lparr>ls_Interface = [], ls_WanParent = [], ls_IPAddress = [], ls_DHCPServerIP = [],
     ls_MACAddress = [], ls_ExpiresAt = 0, ls_LeaseTime = 0, ls_RenewalCount = 0, ls_Status = [],
     ls_InterfaceExists = False, ls_CreatedAt = 0, ls_DHCPOffer = [], ls_DHCPAck = []\<rparr>"

definition lease_set_member :: "golib \<Rightarrow> string \<Rightarrow> json \<Rightarrow> lease \<Rightarrow> lease option" where
  "lease_set_member G k v l =
    (if tag_matches ''interface'' k
       then map_option (\<lambda>x. l\<lparr>ls_Interface := x\<rparr>) (dec_string v (ls_Interface l))
     else if tag_matches ''wanParent'' k
       then map_option (\<lambda>x. l\<lparr>ls_WanParent := x\<rparr>) (dec_string v (ls_WanParent l))
     else if tag_matches ''ipAddress'' k
       then map_option (\<lambda>x. l\<lparr>ls_IPAddress := x\<rparr>) (dec_ip v)
     else if tag_matches ''dhcpServerIP'' k
       then map_option (\<lambda>x. l\<lparr>ls_DHCPServerIP := x\<rparr>) (dec_ip v)
     else if tag_matches ''macAddress'' k
       then map_option (\<lambda>x. l\<lparr>ls_MACAddress := x\<rparr>) (dec_bytes G v)
     else if tag_matches ''expiresAt'' k
       then map_option (\<lambda>x. l\<lparr>ls_ExpiresAt := x\<rparr>) (dec_time G v (ls_ExpiresAt l))
     else if tag_matches ''leaseTime'' k
       then map_option (\<lambda>x. l\<lparr>ls_LeaseTime := x\<rparr>) (dec_int v (ls_LeaseTime l))
     else if tag_matches ''renewalCount'' k
       then map_option (\<lambda>x. l\<lparr>ls_RenewalCount := x\<rparr>) (dec_int v (ls_RenewalCount l))
     else if tag_matches ''status'' k
       then map_option (\<lambda>x. l\<lparr>ls_Status := x\<rparr>) (dec_string v (ls_Status l))
     else if tag_matches ''interfaceExists'' k
       then map_option (\<lambda>x. l\<lparr>ls_InterfaceExists := x\<rparr>) (dec_bool v (ls_InterfaceExists l))
     else if tag_matches ''createdAt'' k
       then map_option (\<lambda>x. l\<lparr>ls_CreatedAt := x\<rparr>) (dec_time G v (ls_CreatedAt l))
     else if tag_matches ''dhcpOffer'' k
       then map_option (\<lambda>x. l\<lparr>ls_DHCPOffer := x\<rparr>) (dec_bytes G v)
     else if tag_matches ''dhcpAck'' k
       then map_option (\<lambda>x. l\<lparr>ls_DHCPAck := x\<rparr>) (dec_bytes G v)
     else Some l)"

definition lease_unmarshal :: "golib \<Rightarrow> json \<Rightarrow> lease option" where
  "lease_unmarshal G v = dec_struct (lease_set_member G) v zero_lease"

subsection \<open>The disk\<close>

datatype io_answer = IoOk | IoFail string | IoTorn string

record disk =
  disk_files :: "(string \<times> content) list"
  disk_script :: "io_answer list"

definition next_io :: "(disk, io_answer) state" where
  "next_io = State (\<lambda>d. case disk_script d of
      [] \<Rightarrow> (IoOk, d) | a # as \<Rightarrow> (a, d\<lparr>disk_script := as\<rparr>))"

definition os_MkdirAll :: "string \<Rightarrow> (disk, unit result) state" where
  "os_MkdirAll path = do {
     a \<leftarrow> next_io;
     ret (case a of IoOk \<Rightarrow> Inr () | IoFail e \<Rightarrow> Inl e | IoTorn e \<Rightarrow> Inl e)
   }"

text \<open>\<^verbatim>\<open>os.WriteFile\<close> truncates and then writes: a failure before leaves the file alone, a failure
  in between leaves bytes that are no document.\<close>

definition os_WriteFile :: "string \<Rightarrow> content \<Rightarrow> (disk, unit result) state" where
  "os_WriteFile path c = do {
     a \<leftarrow> next_io;
     (case a of
        IoOk \<Rightarrow> do { _ \<leftarrow> modify (\<lambda>d. d\<lparr>disk_files := AList.update path c (disk_files d)\<rparr>); ret (Inr ()) }
      | IoFail e \<Rightarrow> ret (Inl e)
      | IoTorn e \<Rightarrow> do { _ \<leftarrow> modify (\<lambda>d. d\<lparr>disk_files := AList.update path Torn (disk_files d)\<rparr>); ret (Inl e) })
   }"

text \<open>\<^verbatim>\<open>os.Rename\<close> replaces the target in one step, or does nothing.\<close>

definition os_Rename :: "string \<Rightarrow> string \<Rightarrow> (disk, unit result) state" where
  "os_Rename src dst = do {
     a \<leftarrow> next_io;
     files \<leftarrow> gets disk_files;
     (case (a, map_of files src) of
        (IoOk, Some c) \<Rightarrow> do {
          _ \<leftarrow> modify (\<lambda>d. d\<lparr>disk_files := AList.update dst c (AList.delete src (disk_files d))\<rparr>);
          ret (Inr ()) }
      | (IoOk, None) \<Rightarrow> ret (Inl (''rename '' @ src @ '' '' @ dst @ '': no such file or directory''))
      | (IoFail e, _) \<Rightarrow> ret (Inl e)
      | (IoTorn e, _) \<Rightarrow> ret (Inl e))
   }"

definition os_ReadFile :: "string \<Rightarrow> (disk, os_error + content) state" where
  "os_ReadFile path = do {
     a \<leftarrow> next_io;
     files \<leftarrow> gets disk_files;
     ret (case a of
        IoFail e \<Rightarrow> Inl (OsOther e)
      | IoTorn e \<Rightarrow> Inl (OsOther e)
      | IoOk \<Rightarrow> (case map_of files path of
            None \<Rightarrow> Inl (NotExist (''open '' @ path @ '': no such file or directory''))
          | Some c \<Rightarrow> Inr c))
   }"

subsection \<open>The store\<close>

record store =
  st_leases :: "(string \<times> lease) list"
  st_stateFile :: string
  st_inflight :: "string list"
  st_disk :: disk

definition on_disk :: "(disk, 'a) state \<Rightarrow> (store, 'a) state" where
  "on_disk = zoom st_disk (\<lambda>d s. s\<lparr>st_disk := d\<rparr>)"

text \<open>The document of a map of leases: \<^verbatim>\<open>json.MarshalIndent\<close> sorts the keys and fails on the first
  lease that cannot be marshalled.\<close>

fun marshal_members :: "golib \<Rightarrow> (string \<times> lease) list \<Rightarrow> (string \<times> json) list result" where
  "marshal_members G [] = Inr []"
| "marshal_members G ((k, l) # ls) = (case lease_marshal G l of Inl e \<Rightarrow> Inl e | Inr j \<Rightarrow>
     (case marshal_members G ls of Inl e \<Rightarrow> Inl e | Inr js \<Rightarrow> Inr ((k, j) # js)))"

definition leases_marshal :: "golib \<Rightarrow> (string \<times> lease) list \<Rightarrow> json result" where
  "leases_marshal G ls = (case marshal_members G (sort_key fst ls) of
      Inl e \<Rightarrow> Inl e | Inr js \<Rightarrow> Inr (JObj js))"

fun unmarshal_members :: "golib \<Rightarrow> (string \<times> json) list \<Rightarrow> (string \<times> lease) list \<Rightarrow> (string \<times> lease) list option" where
  "unmarshal_members G [] ls = Some ls"
| "unmarshal_members G ((k, v) # ms) ls = (case lease_unmarshal G v of
      None \<Rightarrow> None | Some l \<Rightarrow> unmarshal_members G ms (AList.update k l ls))"

definition leases_unmarshal :: "golib \<Rightarrow> json \<Rightarrow> (string \<times> lease) list option" where
  "leases_unmarshal G v = (case v of JNull \<Rightarrow> Some [] | JObj ms \<Rightarrow> unmarshal_members G ms [] | _ \<Rightarrow> None)"

definition save :: "golib \<Rightarrow> (store, unit result) state" where
  "save G = do {
     s \<leftarrow> gets id;
     (case leases_marshal G (st_leases s) of
        Inl e \<Rightarrow> ret (Inl (wrapf ''failed to marshal leases'' e))
      | Inr data \<Rightarrow> do {
          let tmpFile = st_stateFile s @ ''.tmp'';
          r \<leftarrow> on_disk (os_WriteFile tmpFile (Doc data));
          (case r of
             Inl e \<Rightarrow> ret (Inl (wrapf ''failed to write temp file'' e))
           | Inr _ \<Rightarrow> do {
               r \<leftarrow> on_disk (os_Rename tmpFile (st_stateFile s));
               (case r of
                  Inl e \<Rightarrow> ret (Inl (wrapf ''failed to rename temp file'' e))
                | Inr _ \<Rightarrow> ret (Inr ()))
             })
        })
   }"

definition load :: "golib \<Rightarrow> (store, unit result) state" where
  "load G = do {
     s \<leftarrow> gets id;
     r \<leftarrow> on_disk (os_ReadFile (st_stateFile s));
     (case r of
        Inl (NotExist _) \<Rightarrow> ret (Inr ())
      | Inl (OsOther e) \<Rightarrow> ret (Inl (wrapf ''failed to read state file'' e))
      | Inr c \<Rightarrow> (case (case c of Doc j \<Rightarrow> leases_unmarshal G j | Torn \<Rightarrow> None) of
            None \<Rightarrow> ret (Inl (wrapf ''failed to unmarshal leases'' (json_error G c)))
          | Some ls \<Rightarrow> do {
              _ \<leftarrow> modify (\<lambda>s. s\<lparr>st_leases := ls\<rparr>);
              ret (Inr ())
            }))
   }"

text \<open>\<^verbatim>\<open>NewStore\<close>, on the disk it finds; \<open>stateFile\<close> is \<^verbatim>\<open>filepath.Join(stateDir, "leases.json")\<close>.\<close>

definition NewStore :: "golib \<Rightarrow> string \<Rightarrow> string \<Rightarrow> disk \<Rightarrow> store result" where
  "NewStore G stateDir stateFile d =
     (case run_state (os_MkdirAll stateDir) d of
        (Inl e, _) \<Rightarrow> Inl (wrapf ''failed to create state directory'' e)
      | (Inr _, d) \<Rightarrow>
         (case run_state (load G)
             \<lparr>st_leases = [], st_stateFile = stateFile, st_inflight = [], st_disk = d\<rparr> of
            (Inl e, _) \<Rightarrow> Inl (wrapf ''failed to load state'' e)
          | (Inr _, s) \<Rightarrow> Inr s))"

definition Get :: "string \<Rightarrow> store \<Rightarrow> lease option" where
  "Get iface s = map_of (st_leases s) iface"

text \<open>\<^verbatim>\<open>List\<close> ranges over a Go map: \<open>perm\<close> is the order the runtime happens to choose.\<close>

definition List :: "((string \<times> lease) list \<Rightarrow> (string \<times> lease) list) \<Rightarrow> store \<Rightarrow> lease list" where
  "List perm s = map snd (perm (st_leases s))"

definition Set :: "golib \<Rightarrow> lease \<Rightarrow> (store, unit result) state" where
  "Set G l = do {
     _ \<leftarrow> modify (\<lambda>s. s\<lparr>st_leases := AList.update (ls_Interface l) l (st_leases s)\<rparr>);
     save G
   }"

definition Delete :: "golib \<Rightarrow> string \<Rightarrow> (store, unit result) state" where
  "Delete G iface = do {
     _ \<leftarrow> modify (\<lambda>s. s\<lparr>st_leases := AList.delete iface (st_leases s)\<rparr>);
     save G
   }"

definition AcquireInflight :: "string \<Rightarrow> (store, bool) state" where
  "AcquireInflight iface = do {
     busy \<leftarrow> gets (\<lambda>s. iface \<in> set (st_inflight s));
     (if busy then ret False
      else do {
        _ \<leftarrow> modify (\<lambda>s. s\<lparr>st_inflight := iface # st_inflight s\<rparr>);
        ret True
      })
   }"

definition ReleaseInflight :: "string \<Rightarrow> (store, unit) state" where
  "ReleaseInflight iface = modify (\<lambda>s.
     if iface \<in> set (st_inflight s) then s\<lparr>st_inflight := removeAll iface (st_inflight s)\<rparr> else s)"

definition VerifyInterfaceExists :: "'w kernel_ops \<Rightarrow> string \<Rightarrow> ('w, bool result) state" where
  "VerifyInterfaceExists K iface = do {
     r \<leftarrow> LinkByName K iface;
     ret (case r of
        Inl (LinkNotFound _) \<Rightarrow> Inr False
      | Inl (LinkOther m) \<Rightarrow> Inl (wrapf ''failed to check interface'' m)
      | Inr _ \<Rightarrow> Inr True)
   }"

subsection \<open>The store as a map\<close>

text \<open>What the agent relies on of a lease store: \<open>put\<close> and \<open>del\<close> change the map in memory whatever
  the disk answers.\<close>

locale lease_map =
  fixes lookup :: "'s \<Rightarrow> string \<Rightarrow> lease option"
    and put :: "lease \<Rightarrow> ('s, unit result) state"
    and del :: "string \<Rightarrow> ('s, unit result) state"
  assumes wp_put: "wp (put l) (\<lambda>_ t. lookup t = (lookup s)(ls_Interface l \<mapsto> l)) s"
    and wp_del: "wp (del k) (\<lambda>_ t. lookup t = (lookup s)(k := None)) s"
begin

lemma put_get: "run_state (put l) s = (r, t) \<Longrightarrow> lookup t (ls_Interface l) = Some l"
  using wpD [OF wp_put] by fastforce

lemma put_other: "run_state (put l) s = (r, t) \<Longrightarrow> k \<noteq> ls_Interface l \<Longrightarrow> lookup t k = lookup s k"
  using wpD [OF wp_put] by fastforce

lemma del_get: "run_state (del k) s = (r, t) \<Longrightarrow> lookup t k = None"
  using wpD [OF wp_del] by fastforce

lemma put_del: "wp (State_Monad.bind (put l) (\<lambda>_. del (ls_Interface l)))
    (\<lambda>_ t. lookup t = (lookup s)(ls_Interface l := None)) s"
  unfolding wp_bind by (rule wp_mono [OF wp_put], rule wp_mono [OF wp_del]) simp

end

text \<open>The lock per interface that \<^verbatim>\<open>AcquireInflight\<close> and \<^verbatim>\<open>ReleaseInflight\<close> implement.\<close>

locale keyed_lock =
  fixes held :: "'s \<Rightarrow> 'k set"
    and acquire :: "'k \<Rightarrow> ('s, bool) state"
    and release :: "'k \<Rightarrow> ('s, unit) state"
  assumes wp_acquire: "wp (acquire k) (\<lambda>b t. b = (k \<notin> held s) \<and> held t = insert k (held s)) s"
    and wp_release: "wp (release k) (\<lambda>_ t. held t = held s - {k}) s"
begin

lemma acquire_busy: "k \<in> held s \<Longrightarrow> wp (acquire k) (\<lambda>b t. \<not> b \<and> held t = held s) s"
  by (rule wp_mono [OF wp_acquire]) auto

lemma acquire_free: "k \<notin> held s \<Longrightarrow> wp (acquire k) (\<lambda>b t. b \<and> held t = insert k (held s)) s"
  by (rule wp_mono [OF wp_acquire]) auto

text \<open>An operation bracketed by the lock leaves the set of held locks as it found it, and its body
  runs only where the lock was free.\<close>

lemma bracket:
  assumes body: "\<And>t. k \<notin> held s \<Longrightarrow> held t = insert k (held s) \<Longrightarrow>
      wp body (\<lambda>_ u. held u = held t) t"
    and refused: "\<And>t. wp refused (\<lambda>_ u. held u = held t) t"
  shows "wp (State_Monad.bind (acquire k) (\<lambda>ok. if \<not> ok then refused
      else State_Monad.bind body (\<lambda>r. State_Monad.bind (release k) (\<lambda>_. ret r))))
    (\<lambda>_ u. held u = held s) s"
proof (cases "k \<in> held s")
  case True
  then show ?thesis
    unfolding wp_bind by (intro wp_mono [OF acquire_busy]) (auto intro: wp_mono [OF refused])
next
  case False
  then show ?thesis
    unfolding wp_bind
    by (intro wp_mono [OF acquire_free])
      (auto simp: wp_simps intro!: wp_mono [OF body] wp_mono [OF wp_release])
qed

end

lemma save_frame:
  "wp (save G) (\<lambda>_ t. st_leases t = st_leases s \<and> st_inflight t = st_inflight s \<and>
     st_stateFile t = st_stateFile s) s"
  unfolding save_def on_disk_def
  by (auto simp: wp_simps Let_def split: sum.splits
      intro!: wp_any [where m = "os_WriteFile p c" for p c] wp_any [where m = "os_Rename p q" for p q])

interpretation agent_store: lease_map "\<lambda>s k. Get k s" "Set G" "Delete G" for G
proof
  fix l s
  show "wp (Set G l) (\<lambda>_ t. (\<lambda>k. Get k t) = (\<lambda>k. Get k s)(ls_Interface l \<mapsto> l)) s"
    unfolding Set_def wp_bind wp_modify
    by (rule wp_mono [OF save_frame]) (auto simp: Get_def fun_eq_iff)
next
  fix k s
  show "wp (Delete G k) (\<lambda>_ t. (\<lambda>k. Get k t) = (\<lambda>k. Get k s)(k := None)) s"
    unfolding Delete_def wp_bind wp_modify
    by (rule wp_mono [OF save_frame]) (auto simp: Get_def fun_eq_iff)
qed

interpretation inflight: keyed_lock "\<lambda>s. set (st_inflight s)" AcquireInflight ReleaseInflight
proof
  fix k s
  show "wp (AcquireInflight k) (\<lambda>b t. b = (k \<notin> set (st_inflight s)) \<and>
      set (st_inflight t) = insert k (set (st_inflight s))) s"
    by (auto simp: AcquireInflight_def wp_simps)
next
  fix k s
  show "wp (ReleaseInflight k) (\<lambda>_ t. set (st_inflight t) = set (st_inflight s) - {k}) s"
    by (auto simp: ReleaseInflight_def wp_simps)
qed

subsection \<open>Persistence\<close>

text \<open>What the state file holds.\<close>

definition state_file :: "store \<Rightarrow> content option" where
  "state_file s = map_of (disk_files (st_disk s)) (st_stateFile s)"

lemma tmp_neq [simp]: "f @ ''.tmp'' \<noteq> f" "f \<noteq> f @ ''.tmp''"
  by simp_all

lemma wp_next_io:
  "(\<And>d'. disk_files d' = disk_files d \<Longrightarrow> Q IoOk d') \<Longrightarrow>
   (\<And>e d'. disk_files d' = disk_files d \<Longrightarrow> Q (IoFail e) d') \<Longrightarrow>
   (\<And>e d'. disk_files d' = disk_files d \<Longrightarrow> Q (IoTorn e) d') \<Longrightarrow> wp next_io Q d"
  by (auto simp: wp_def next_io_def split: list.splits) (metis (full_types) disk.select_convs(1) disk.surjective disk.update_convs(2) io_answer.exhaust)

text \<open>The file is replaced as a whole: it holds the new document after a success, and what it held
  before after any failure, whichever call failed and however.\<close>

lemma save_atomic:
  "wp (save G) (\<lambda>r t. case r of
      Inl _ \<Rightarrow> state_file t = state_file s
    | Inr _ \<Rightarrow> (\<exists>j. leases_marshal G (st_leases s) = Inr j \<and> state_file t = Some (Doc j))) s"
  unfolding save_def on_disk_def os_WriteFile_def os_Rename_def
  by (auto simp: wp_simps Let_def state_file_def split: sum.splits option.splits
      intro!: wp_next_io)

text \<open>Everything a caller sees of \<^verbatim>\<open>Set\<close> and \<^verbatim>\<open>Delete\<close>: the map changes whatever the disk answers,
  and a nil error means that the file holds the new map.\<close>

definition saved_as :: "golib \<Rightarrow> (string \<times> lease) list \<Rightarrow> unit result \<Rightarrow> store \<Rightarrow> store \<Rightarrow> bool" where
  "saved_as G ls r s t \<longleftrightarrow> st_leases t = ls \<and> st_inflight t = st_inflight s \<and>
     st_stateFile t = st_stateFile s \<and>
     (case r of Inl _ \<Rightarrow> state_file t = state_file s
      | Inr _ \<Rightarrow> (\<exists>j. leases_marshal G ls = Inr j \<and> state_file t = Some (Doc j)))"

lemma wp_Set: "wp (Set G l) (\<lambda>r t. saved_as G (AList.update (ls_Interface l) l (st_leases s)) r s t) s"
  unfolding Set_def wp_bind wp_modify
  by (rule wp_mono [OF wp_conj [OF save_frame save_atomic]])
    (auto simp: saved_as_def state_file_def split: sum.splits)

lemma wp_Delete: "wp (Delete G k) (\<lambda>r t. saved_as G (AList.delete k (st_leases s)) r s t) s"
  unfolding Delete_def wp_bind wp_modify
  by (rule wp_mono [OF wp_conj [OF save_frame save_atomic]])
    (auto simp: saved_as_def state_file_def split: sum.splits)

text \<open>The values a document keeps: addresses that are IPv4 or nil, and times, packets and counters
  that their texts carry back.\<close>

definition lease_ok :: "golib \<Rightarrow> lease \<Rightarrow> bool" where
  "lease_ok G l \<longleftrightarrow> v4_or_nil (ls_IPAddress l) \<and> v4_or_nil (ls_DHCPServerIP l) \<and>
     time_parse G (time_text G (ls_ExpiresAt l)) = Some (ls_ExpiresAt l) \<and>
     time_parse G (time_text G (ls_CreatedAt l)) = Some (ls_CreatedAt l) \<and>
     base64_parse G (base64_text G (ls_MACAddress l)) = Some (ls_MACAddress l) \<and>
     base64_parse G (base64_text G (ls_DHCPOffer l)) = Some (ls_DHCPOffer l) \<and>
     base64_parse G (base64_text G (ls_DHCPAck l)) = Some (ls_DHCPAck l) \<and>
     - (2 ^ 63) \<le> ls_LeaseTime l \<and> ls_LeaseTime l < 2 ^ 63 \<and>
     - (2 ^ 63) \<le> ls_RenewalCount l \<and> ls_RenewalCount l < 2 ^ 63"

definition lease_norm :: "lease \<Rightarrow> lease" where
  "lease_norm l = l\<lparr>ls_IPAddress := ip_norm (ls_IPAddress l),
     ls_DHCPServerIP := ip_norm (ls_DHCPServerIP l)\<rparr>"

lemma tag_mismatch [simp]:
    "\<not> tag_matches ''interface'' ''wanParent''"
    "\<not> tag_matches ''interface'' ''ipAddress''"
    "\<not> tag_matches ''wanParent'' ''ipAddress''"
    "\<not> tag_matches ''interface'' ''dhcpServerIP''"
    "\<not> tag_matches ''wanParent'' ''dhcpServerIP''"
    "\<not> tag_matches ''ipAddress'' ''dhcpServerIP''"
    "\<not> tag_matches ''interface'' ''macAddress''"
    "\<not> tag_matches ''wanParent'' ''macAddress''"
    "\<not> tag_matches ''ipAddress'' ''macAddress''"
    "\<not> tag_matches ''dhcpServerIP'' ''macAddress''"
    "\<not> tag_matches ''interface'' ''expiresAt''"
    "\<not> tag_matches ''wanParent'' ''expiresAt''"
    "\<not> tag_matches ''ipAddress'' ''expiresAt''"
    "\<not> tag_matches ''dhcpServerIP'' ''expiresAt''"
    "\<not> tag_matches ''macAddress'' ''expiresAt''"
    "\<not> tag_matches ''interface'' ''leaseTime''"
    "\<not> tag_matches ''wanParent'' ''leaseTime''"
    "\<not> tag_matches ''ipAddress'' ''leaseTime''"
    "\<not> tag_matches ''dhcpServerIP'' ''leaseTime''"
    "\<not> tag_matches ''macAddress'' ''leaseTime''"
    "\<not> tag_matches ''expiresAt'' ''leaseTime''"
    "\<not> tag_matches ''interface'' ''renewalCount''"
    "\<not> tag_matches ''wanParent'' ''renewalCount''"
    "\<not> tag_matches ''ipAddress'' ''renewalCount''"
    "\<not> tag_matches ''dhcpServerIP'' ''renewalCount''"
    "\<not> tag_matches ''macAddress'' ''renewalCount''"
    "\<not> tag_matches ''expiresAt'' ''renewalCount''"
    "\<not> tag_matches ''leaseTime'' ''renewalCount''"
    "\<not> tag_matches ''interface'' ''status''"
    "\<not> tag_matches ''wanParent'' ''status''"
    "\<not> tag_matches ''ipAddress'' ''status''"
    "\<not> tag_matches ''dhcpServerIP'' ''status''"
    "\<not> tag_matches ''macAddress'' ''status''"
    "\<not> tag_matches ''expiresAt'' ''status''"
    "\<not> tag_matches ''leaseTime'' ''status''"
    "\<not> tag_matches ''renewalCount'' ''status''"
    "\<not> tag_matches ''interface'' ''interfaceExists''"
    "\<not> tag_matches ''wanParent'' ''interfaceExists''"
    "\<not> tag_matches ''ipAddress'' ''interfaceExists''"
    "\<not> tag_matches ''dhcpServerIP'' ''interfaceExists''"
    "\<not> tag_matches ''macAddress'' ''interfaceExists''"
    "\<not> tag_matches ''expiresAt'' ''interfaceExists''"
    "\<not> tag_matches ''leaseTime'' ''interfaceExists''"
    "\<not> tag_matches ''renewalCount'' ''interfaceExists''"
    "\<not> tag_matches ''status'' ''interfaceExists''"
    "\<not> tag_matches ''interface'' ''createdAt''"
    "\<not> tag_matches ''wanParent'' ''createdAt''"
    "\<not> tag_matches ''ipAddress'' ''createdAt''"
    "\<not> tag_matches ''dhcpServerIP'' ''createdAt''"
    "\<not> tag_matches ''macAddress'' ''createdAt''"
    "\<not> tag_matches ''expiresAt'' ''createdAt''"
    "\<not> tag_matches ''leaseTime'' ''createdAt''"
    "\<not> tag_matches ''renewalCount'' ''createdAt''"
    "\<not> tag_matches ''status'' ''createdAt''"
    "\<not> tag_matches ''interfaceExists'' ''createdAt''"
    "\<not> tag_matches ''interface'' ''dhcpOffer''"
    "\<not> tag_matches ''wanParent'' ''dhcpOffer''"
    "\<not> tag_matches ''ipAddress'' ''dhcpOffer''"
    "\<not> tag_matches ''dhcpServerIP'' ''dhcpOffer''"
    "\<not> tag_matches ''macAddress'' ''dhcpOffer''"
    "\<not> tag_matches ''expiresAt'' ''dhcpOffer''"
    "\<not> tag_matches ''leaseTime'' ''dhcpOffer''"
    "\<not> tag_matches ''renewalCount'' ''dhcpOffer''"
    "\<not> tag_matches ''status'' ''dhcpOffer''"
    "\<not> tag_matches ''interfaceExists'' ''dhcpOffer''"
    "\<not> tag_matches ''createdAt'' ''dhcpOffer''"
    "\<not> tag_matches ''interface'' ''dhcpAck''"
    "\<not> tag_matches ''wanParent'' ''dhcpAck''"
    "\<not> tag_matches ''ipAddress'' ''dhcpAck''"
    "\<not> tag_matches ''dhcpServerIP'' ''dhcpAck''"
    "\<not> tag_matches ''macAddress'' ''dhcpAck''"
    "\<not> tag_matches ''expiresAt'' ''dhcpAck''"
    "\<not> tag_matches ''leaseTime'' ''dhcpAck''"
    "\<not> tag_matches ''renewalCount'' ''dhcpAck''"
    "\<not> tag_matches ''status'' ''dhcpAck''"
    "\<not> tag_matches ''interfaceExists'' ''dhcpAck''"
    "\<not> tag_matches ''createdAt'' ''dhcpAck''"
    "\<not> tag_matches ''dhcpOffer'' ''dhcpAck''"
  by (simp_all add: tag_matches_def lower_char_def ascii_lower_def)

lemma lease_roundtrip:
  assumes "lease_ok G l"
  shows "\<exists>j. lease_marshal G l = Inr j \<and> lease_unmarshal G j = Some (lease_norm l)"
proof -
  from assms obtain j1 j2 where
    j: "ip_marshal G (ls_IPAddress l) = Inr j1" "dec_ip j1 = Some (ip_norm (ls_IPAddress l))"
      "ip_marshal G (ls_DHCPServerIP l) = Inr j2" "dec_ip j2 = Some (ip_norm (ls_DHCPServerIP l))"
    unfolding lease_ok_def using ip_roundtrip [of _ G] by metis
  from assms show ?thesis
    by (auto simp: lease_ok_def lease_marshal_def lease_unmarshal_def dec_struct_def j
        lease_set_member_def dec_string_def dec_int_def dec_bool_def dec_time_def dec_bytes_def
        zero_lease_def lease_norm_def)
qed

lemma marshal_members_roundtrip:
  assumes "\<forall>(k, l) \<in> set ls. lease_ok G l" and "distinct (map fst ls)"
  shows "\<exists>js. marshal_members G ls = Inr js \<and>
    (\<forall>acc. \<exists>out. unmarshal_members G js acc = Some out \<and>
       map_of out = map_of acc ++ (\<lambda>k. map_option lease_norm (map_of ls k)))"
  using assms
proof (induction ls)
  case Nil
  then show ?case by (simp add: map_add_def)
next
  case (Cons kl ls)
  obtain k l where kl: "kl = (k, l)" by fastforce
  with Cons.prems have "lease_ok G l" by simp
  then obtain j where j: "lease_marshal G l = Inr j" "lease_unmarshal G j = Some (lease_norm l)"
    using lease_roundtrip by blast
  from Cons obtain js where js: "marshal_members G ls = Inr js"
    "\<And>acc. \<exists>out. unmarshal_members G js acc = Some out \<and>
       map_of out = map_of acc ++ (\<lambda>k. map_option lease_norm (map_of ls k))"
    by auto
  have k: "map_of ls k = None"
    using Cons.prems(2) by (simp add: kl map_of_eq_None_iff)
  have "map_of (AList.update k (lease_norm l) acc) ++ (\<lambda>k. map_option lease_norm (map_of ls k)) =
      map_of acc ++ (\<lambda>k'. map_option lease_norm (map_of (kl # ls) k'))" for acc
    by (rule ext) (auto simp: map_add_def kl k split: option.splits)
  with js(2) [of "AList.update k (lease_norm l) _"] show ?case
    by (simp add: kl j js(1))
qed

definition store_wf :: "store \<Rightarrow> bool" where
  "store_wf s \<longleftrightarrow> distinct (map fst (st_leases s)) \<and> (\<forall>(k, l) \<in> set (st_leases s). ls_Interface l = k)"

lemma store_wf_Get: "store_wf s \<Longrightarrow> Get k s = Some l \<Longrightarrow> ls_Interface l = k"
  by (auto simp: store_wf_def Get_def dest!: map_of_SomeD)

lemma set_update_alist: "set (AList.update k v m) \<subseteq> insert (k, v) (set m)"
  by (induction m) auto

lemma store_wf_frame:
  "st_leases t = st_leases s \<Longrightarrow> store_wf t = store_wf s"
  by (simp add: store_wf_def)

lemma store_wf_Set: "store_wf s \<Longrightarrow> wp (Set G l) (\<lambda>_ t. store_wf t) s"
  unfolding Set_def wp_bind wp_modify
  by (rule wp_mono [OF save_frame])
    (use set_update_alist [of "ls_Interface l" l "st_leases s"] in
      \<open>auto simp: store_wf_def distinct_update\<close>)

lemma store_wf_Delete: "store_wf s \<Longrightarrow> wp (Delete G k) (\<lambda>_ t. store_wf t) s"
  unfolding Delete_def wp_bind wp_modify
  by (rule wp_mono [OF save_frame]) (auto simp: store_wf_def AList.delete_eq distinct_map_filter)

lemma leases_marshal_roundtrip:
  assumes "\<forall>(k, l) \<in> set ls. lease_ok G l" and "distinct (map fst ls)"
  shows "\<exists>j out. leases_marshal G ls = Inr j \<and> leases_unmarshal G j = Some out \<and>
    map_of out = (\<lambda>k. map_option lease_norm (map_of ls k))"
proof -
  let ?s = "sort_key fst ls"
  have d: "distinct (map fst ?s)"
    using assms(2) by (simp add: distinct_map)
  have "map_of ?s = map_of ls"
    by (rule map_of_inject_set [THEN iffD2, OF d assms(2)]) simp
  have ok: "\<forall>(k, l) \<in> set ?s. lease_ok G l" using assms(1) by simp
  obtain js where js: "marshal_members G ?s = Inr js"
    and un: "\<forall>acc. \<exists>out. unmarshal_members G js acc = Some out \<and>
       map_of out = map_of acc ++ (\<lambda>k. map_option lease_norm (map_of ?s k))"
    using marshal_members_roundtrip [OF ok d] by blast
  from un obtain out where "unmarshal_members G js [] = Some out"
    "map_of out = map_of [] ++ (\<lambda>k. map_option lease_norm (map_of ?s k))"
    by blast
  with \<open>map_of ?s = map_of ls\<close> have "unmarshal_members G js [] = Some out"
    "map_of out = (\<lambda>k. map_option lease_norm (map_of ls k))"
    by simp_all
  then show ?thesis by (simp add: leases_marshal_def leases_unmarshal_def js)
qed

text \<open>Restart: a store opened on the file that a successful save wrote holds the same leases, with
  their addresses in 16-byte form.\<close>

lemma reload:
  assumes "run_state (save G) s = (Inr (), t)"
    and "distinct (map fst (st_leases s))" and "\<forall>(k, l) \<in> set (st_leases s). lease_ok G l"
  shows "\<exists>u. NewStore G dir (st_stateFile s) ((st_disk t)\<lparr>disk_script := []\<rparr>) = Inr u \<and>
     (\<forall>k. Get k u = map_option lease_norm (Get k s)) \<and> st_inflight u = []"
proof -
  obtain j out where j: "leases_marshal G (st_leases s) = Inr j" "leases_unmarshal G j = Some out"
    "map_of out = (\<lambda>k. map_option lease_norm (map_of (st_leases s) k))"
    using leases_marshal_roundtrip [OF assms(3,2)] by blast
  have "state_file t = Some (Doc j)" and "st_stateFile t = st_stateFile s"
    using wpD [OF save_atomic assms(1)] wpD [OF save_frame assms(1)] j(1) by auto
  then show ?thesis
    by (simp add: NewStore_def os_MkdirAll_def next_io_def load_def on_disk_def os_ReadFile_def
        state_file_def j Get_def)
qed

subsection \<open>The mutexes\<close>

text \<open>
  The lock operations of each method, in program order (a deferred unlock comes last). A goroutine
  that asks for a lock it already holds for writing waits for itself: \<^verbatim>\<open>sync.RWMutex\<close> is not
  re-entrant. \<open>run_locks\<close> runs one goroutine alone; \<open>None\<close> is waiting for ever.
\<close>

datatype mutex = Mu | SaveMu | InflightMu

datatype lock_op = Lock mutex | Unlock mutex | RLock mutex | RUnlock mutex

datatype hold = Free | Reading nat | Writing

fun lock_step :: "lock_op \<Rightarrow> (mutex \<Rightarrow> hold) \<Rightarrow> (mutex \<Rightarrow> hold) option" where
  "lock_step (Lock m) h = (if h m = Free then Some (h(m := Writing)) else None)"
| "lock_step (Unlock m) h = (if h m = Writing then Some (h(m := Free)) else None)"
| "lock_step (RLock m) h = (case h m of Free \<Rightarrow> Some (h(m := Reading 1))
     | Reading n \<Rightarrow> Some (h(m := Reading (Suc n))) | Writing \<Rightarrow> None)"
| "lock_step (RUnlock m) h = (case h m of
     Reading n \<Rightarrow> Some (h(m := (if n \<le> 1 then Free else Reading (n - 1)))) | _ \<Rightarrow> None)"

fun run_locks :: "lock_op list \<Rightarrow> (mutex \<Rightarrow> hold) \<Rightarrow> (mutex \<Rightarrow> hold) option" where
  "run_locks [] h = Some h"
| "run_locks (a # as) h = Option.bind (lock_step a h) (run_locks as)"

definition Get_locks :: "lock_op list" where "Get_locks = [RLock Mu, RUnlock Mu]"
definition List_locks :: "lock_op list" where "List_locks = [RLock Mu, RUnlock Mu]"
definition save_locks :: "lock_op list" where
  "save_locks = [Lock SaveMu, RLock Mu, RUnlock Mu, Unlock SaveMu]"
definition Set_locks :: "lock_op list" where "Set_locks = [Lock Mu, Unlock Mu] @ save_locks"
definition Delete_locks :: "lock_op list" where "Delete_locks = [Lock Mu, Unlock Mu] @ save_locks"
definition AcquireInflight_locks :: "lock_op list" where
  "AcquireInflight_locks = [Lock InflightMu, Unlock InflightMu]"
definition ReleaseInflight_locks :: "lock_op list" where
  "ReleaseInflight_locks = [Lock InflightMu, Unlock InflightMu]"
definition load_locks :: "lock_op list" where "load_locks = [Lock Mu, Unlock Mu]"

text \<open>\<^verbatim>\<open>UpdateInterfaceStatus\<close> calls \<^verbatim>\<open>save\<close> while it still holds \<^verbatim>\<open>mu\<close>: its unlock is deferred.\<close>

definition UpdateInterfaceStatus_locks :: "lock_op list" where
  "UpdateInterfaceStatus_locks = [Lock Mu] @ save_locks @ [Unlock Mu]"

definition UpdateInterfaceStatus ::
  "golib \<Rightarrow> string \<Rightarrow> bool \<Rightarrow> (mutex \<Rightarrow> hold) \<Rightarrow> store \<Rightarrow> (unit result \<times> store) option" where
  "UpdateInterfaceStatus G iface exists h s =
     (case run_locks UpdateInterfaceStatus_locks h of
        None \<Rightarrow> None
      | Some _ \<Rightarrow> Some (run_state (do {
          _ \<leftarrow> modify (\<lambda>s. case map_of (st_leases s) iface of
              None \<Rightarrow> s
            | Some l \<Rightarrow> s\<lparr>st_leases := AList.update iface
                 (if exists then l\<lparr>ls_InterfaceExists := True\<rparr>
                  else l\<lparr>ls_InterfaceExists := False, ls_Status := StatusStale\<rparr>) (st_leases s)\<rparr>);
          save G
        }) s))"

lemmas lock_defs = Get_locks_def List_locks_def save_locks_def Set_locks_def Delete_locks_def
  AcquireInflight_locks_def ReleaseInflight_locks_def load_locks_def UpdateInterfaceStatus_locks_def

lemma store_methods_return:
  assumes "h = (\<lambda>_. Free)"
  shows "run_locks Get_locks h = Some h" "run_locks List_locks h = Some h"
    "run_locks Set_locks h = Some h" "run_locks Delete_locks h = Some h"
    "run_locks AcquireInflight_locks h = Some h" "run_locks ReleaseInflight_locks h = Some h"
    "run_locks load_locks h = Some h"
  by (auto simp: lock_defs assms fun_eq_iff)

lemma UpdateInterfaceStatus_blocks: "run_locks UpdateInterfaceStatus_locks h = None"
  by (cases "h Mu"; cases "h SaveMu") (auto simp: lock_defs)

subsection \<open>Properties\<close>

definition sim_store :: store where
  "sim_store = \<lparr>st_leases = [], st_stateFile = ''/data/leases.json'', st_inflight = [],
     st_disk = \<lparr>disk_files = [], disk_script = []\<rparr>\<rparr>"

definition sim_lease :: lease where
  "sim_lease = zero_lease\<lparr>ls_Interface := ''wan0'', ls_WanParent := ''eth8'',
     ls_IPAddress := [203, 0, 113, 7], ls_DHCPServerIP := [203, 0, 113, 1],
     ls_MACAddress := [2, 0, 0, 0, 0, 1], ls_ExpiresAt := 7, ls_LeaseTime := 2, ls_Status := StatusActive\<rparr>"

text \<open>C5: \<^verbatim>\<open>save\<close> replaces the state file as a whole. After a nil error the file holds the document of
  the leases in memory; after any error (marshalling, a failed or torn write of the temporary file,
  a failed rename) it holds exactly what it held before. It never changes the leases in memory.\<close>

theorem save_is_atomic:
  "wp (save G) (\<lambda>r t. st_leases t = st_leases s \<and> (case r of
      Inl _ \<Rightarrow> state_file t = state_file s
    | Inr _ \<Rightarrow> (\<exists>j. leases_marshal G (st_leases s) = Inr j \<and> state_file t = Some (Doc j)))) s"
  by (rule wp_mono [OF wp_conj [OF save_frame save_atomic]]) auto

text \<open>The store is a map whose memory does not depend on the disk: \<^verbatim>\<open>Get\<close> after \<^verbatim>\<open>Set\<close> or \<^verbatim>\<open>Delete\<close>
  sees the update of that interface and of no other, whether or not saving succeeded.\<close>

theorem store_get_after_update:
  "wp (Set G l) (\<lambda>_ t. \<forall>k. Get k t = (if k = ls_Interface l then Some l else Get k s)) s \<and>
   wp (Delete G i) (\<lambda>_ t. \<forall>k. Get k t = (if k = i then None else Get k s)) s"
proof
  show "wp (Set G l) (\<lambda>_ t. \<forall>k. Get k t = (if k = ls_Interface l then Some l else Get k s)) s"
    by (rule wp_mono [OF agent_store.wp_put]) (simp add: fun_eq_iff)
  show "wp (Delete G i) (\<lambda>_ t. \<forall>k. Get k t = (if k = i then None else Get k s)) s"
    by (rule wp_mono [OF agent_store.wp_del]) (simp add: fun_eq_iff)
qed

text \<open>C19: Restart: a store opened on the file that a successful \<^verbatim>\<open>save\<close> wrote holds the same leases
  (addresses in their 16-byte form), with no operation in flight.\<close>

theorem restart_restores_leases:
  assumes "run_state (save G) s = (Inr (), t)"
    and "distinct (map fst (st_leases s))" and "\<forall>(k, l) \<in> set (st_leases s). lease_ok G l"
  shows "\<exists>u. NewStore G dir (st_stateFile s) ((st_disk t)\<lparr>disk_script := []\<rparr>) = Inr u \<and>
     (\<forall>k. Get k u = map_option lease_norm (Get k s)) \<and> st_inflight u = []"
  using assms by (rule reload)

lemma sim_lease_ok: "lease_ok sim_G sim_lease"
  by code_simp

lemma sim_save: "\<exists>t. run_state (save sim_G) (sim_store\<lparr>st_leases := [(''wan0'', sim_lease)]\<rparr>) = (Inr (), t)"
proof -
  have "\<not> is_err (fst (run_state (save sim_G) (sim_store\<lparr>st_leases := [(''wan0'', sim_lease)]\<rparr>)))"
    by code_simp
  then show ?thesis by (metis (full_types) not_is_errE old.unit.exhaust prod.collapse)
qed

theorem restart_restores_leases_witness:
  "\<exists>d u. NewStore sim_G ''/data'' ''/data/leases.json'' d = Inr u \<and> Get ''wan0'' u = Some (lease_norm sim_lease)"
proof -
  let ?s = "sim_store\<lparr>st_leases := [(''wan0'', sim_lease)]\<rparr>"
  obtain t where "run_state (save sim_G) ?s = (Inr (), t)" using sim_save by blast
  from restart_restores_leases [OF this, of "''/data''"] sim_lease_ok obtain u where
    "NewStore sim_G ''/data'' (st_stateFile ?s) ((st_disk t)\<lparr>disk_script := []\<rparr>) = Inr u"
    "Get ''wan0'' u = map_option lease_norm (Get ''wan0'' ?s)"
    by auto
  then show ?thesis by (auto simp: sim_store_def Get_def intro: exI)
qed


end
