(* ===== verification/AgentApi.thy ===== *)
theory AgentApi
  imports Json
begin

text \<open>
  The messages of the agent's HTTP interface: \<^verbatim>\<open>internal/agent/api/types.go\<close>, and the same structs
  as the client of \<^verbatim>\<open>internal/router/agent_client.go\<close> declares them. Both sides use the same JSON
  tags; the round trips say that what one side encodes the other decodes.
\<close>

record LeaseRequest =
  rq_Interface :: string
  rq_WanParent :: string
  rq_MACAddress :: string

record LeaseResponse =
  rs_IPAddress :: string
  rs_ExpiresAt :: int

record LeaseStatus =
  lst_IPAddress :: string
  lst_ExpiresAt :: int
  lst_RenewalCount :: int
  lst_Status :: string
  lst_InterfaceExists :: bool

record ErrorResponse =
  er_Error :: string

record LeaseListResponse =
  ll_Leases :: "LeaseStatus list"

subsection \<open>Encoding\<close>

definition LeaseRequest_json :: "LeaseRequest \<Rightarrow> json" where
  "LeaseRequest_json r = JObj [(''interface'', JStr (rq_Interface r)),
     (''wanParent'', JStr (rq_WanParent r)), (''macAddress'', JStr (rq_MACAddress r))]"

definition LeaseResponse_json :: "golib \<Rightarrow> LeaseResponse \<Rightarrow> json" where
  "LeaseResponse_json G r = JObj [(''ipAddress'', JStr (rs_IPAddress r)),
     (''expiresAt'', JStr (time_text G (rs_ExpiresAt r)))]"

definition LeaseStatus_json :: "golib \<Rightarrow> LeaseStatus \<Rightarrow> json" where
  "LeaseStatus_json G r = JObj [(''ipAddress'', JStr (lst_IPAddress r)),
     (''expiresAt'', JStr (time_text G (lst_ExpiresAt r))),
     (''renewalCount'', JNum (lst_RenewalCount r)),
     (''status'', JStr (lst_Status r)),
     (''interfaceExists'', JBool (lst_InterfaceExists r))]"

definition LeaseListResponse_json :: "golib \<Rightarrow> LeaseListResponse \<Rightarrow> json" where
  "LeaseListResponse_json G r = JObj [(''leases'', JArr (map (LeaseStatus_json G) (ll_Leases r)))]"

definition ErrorResponse_json :: "ErrorResponse \<Rightarrow> json" where
  "ErrorResponse_json r = JObj [(''error'', JStr (er_Error r))]"

subsection \<open>Decoding\<close>

definition LeaseRequest_put :: "string \<Rightarrow> json \<Rightarrow> LeaseRequest \<Rightarrow> LeaseRequest option" where
  "LeaseRequest_put k v r =
    (if tag_matches ''interface'' k
       then map_option (\<lambda>x. r\<lparr>rq_Interface := x\<rparr>) (dec_string v (rq_Interface r))
     else if tag_matches ''wanParent'' k
       then map_option (\<lambda>x. r\<lparr>rq_WanParent := x\<rparr>) (dec_string v (rq_WanParent r))
     else if tag_matches ''macAddress'' k
       then map_option (\<lambda>x. r\<lparr>rq_MACAddress := x\<rparr>) (dec_string v (rq_MACAddress r))
     else Some r)"

definition LeaseRequest_decode :: "content \<Rightarrow> LeaseRequest option" where
  "LeaseRequest_decode c = (case c of Torn \<Rightarrow> None | Doc j \<Rightarrow>
     dec_struct LeaseRequest_put j \<lparr>rq_Interface = [], rq_WanParent = [], rq_MACAddress = []\<rparr>)"

definition LeaseResponse_put :: "golib \<Rightarrow> string \<Rightarrow> json \<Rightarrow> LeaseResponse \<Rightarrow> LeaseResponse option" where
  "LeaseResponse_put G k v r =
    (if tag_matches ''ipAddress'' k
       then map_option (\<lambda>x. r\<lparr>rs_IPAddress := x\<rparr>) (dec_string v (rs_IPAddress r))
     else if tag_matches ''expiresAt'' k
       then map_option (\<lambda>x. r\<lparr>rs_ExpiresAt := x\<rparr>) (dec_time G v (rs_ExpiresAt r))
     else Some r)"

definition LeaseResponse_decode :: "golib \<Rightarrow> content \<Rightarrow> LeaseResponse option" where
  "LeaseResponse_decode G c = (case c of Torn \<Rightarrow> None | Doc j \<Rightarrow>
     dec_struct (LeaseResponse_put G) j \<lparr>rs_IPAddress = [], rs_ExpiresAt = 0\<rparr>)"

definition LeaseStatus_put :: "golib \<Rightarrow> string \<Rightarrow> json \<Rightarrow> LeaseStatus \<Rightarrow> LeaseStatus option" where
  "LeaseStatus_put G k v r =
    (if tag_matches ''ipAddress'' k
       then map_option (\<lambda>x. r\<lparr>lst_IPAddress := x\<rparr>) (dec_string v (lst_IPAddress r))
     else if tag_matches ''expiresAt'' k
       then map_option (\<lambda>x. r\<lparr>lst_ExpiresAt := x\<rparr>) (dec_time G v (lst_ExpiresAt r))
     else if tag_matches ''renewalCount'' k
       then map_option (\<lambda>x. r\<lparr>lst_RenewalCount := x\<rparr>) (dec_int v (lst_RenewalCount r))
     else if tag_matches ''status'' k
       then map_option (\<lambda>x. r\<lparr>lst_Status := x\<rparr>) (dec_string v (lst_Status r))
     else if tag_matches ''interfaceExists'' k
       then map_option (\<lambda>x. r\<lparr>lst_InterfaceExists := x\<rparr>) (dec_bool v (lst_InterfaceExists r))
     else Some r)"

definition zero_LeaseStatus :: LeaseStatus where
  "zero_LeaseStatus = \<lparr>lst_IPAddress = [], lst_ExpiresAt = 0, lst_RenewalCount = 0,
     lst_Status = [], lst_InterfaceExists = False\<rparr>"

definition LeaseStatus_decode :: "golib \<Rightarrow> content \<Rightarrow> LeaseStatus option" where
  "LeaseStatus_decode G c = (case c of Torn \<Rightarrow> None | Doc j \<Rightarrow>
     dec_struct (LeaseStatus_put G) j zero_LeaseStatus)"

definition LeaseListResponse_put :: "golib \<Rightarrow> string \<Rightarrow> json \<Rightarrow> LeaseListResponse \<Rightarrow> LeaseListResponse option" where
  "LeaseListResponse_put G k v r =
    (if tag_matches ''leases'' k
       then (case v of
          JNull \<Rightarrow> Some (r\<lparr>ll_Leases := []\<rparr>)
        | JArr vs \<Rightarrow> map_option (\<lambda>x. r\<lparr>ll_Leases := x\<rparr>)
            (those (map (\<lambda>j. LeaseStatus_decode G (Doc j)) vs))
        | _ \<Rightarrow> None)
     else Some r)"

definition LeaseListResponse_decode :: "golib \<Rightarrow> content \<Rightarrow> LeaseListResponse option" where
  "LeaseListResponse_decode G c = (case c of Torn \<Rightarrow> None | Doc j \<Rightarrow>
     dec_struct (LeaseListResponse_put G) j \<lparr>ll_Leases = []\<rparr>)"

definition ErrorResponse_put :: "string \<Rightarrow> json \<Rightarrow> ErrorResponse \<Rightarrow> ErrorResponse option" where
  "ErrorResponse_put k v r =
    (if tag_matches ''error'' k
       then map_option (\<lambda>x. r\<lparr>er_Error := x\<rparr>) (dec_string v (er_Error r))
     else Some r)"

text \<open>The callers of this decoder ignore its error: an unreadable body leaves the empty message.\<close>

definition ErrorResponse_decode :: "content \<Rightarrow> ErrorResponse" where
  "ErrorResponse_decode c = (case c of Torn \<Rightarrow> \<lparr>er_Error = []\<rparr> | Doc j \<Rightarrow>
     (case dec_struct ErrorResponse_put j \<lparr>er_Error = []\<rparr> of
        None \<Rightarrow> \<lparr>er_Error = []\<rparr> | Some r \<Rightarrow> r))"

subsection \<open>HTTP messages\<close>

record response =
  resp_status :: int
  resp_body :: content

definition StatusOK :: int where "StatusOK = 200"
definition StatusCreated :: int where "StatusCreated = 201"
definition StatusNoContent :: int where "StatusNoContent = 204"
definition StatusBadRequest :: int where "StatusBadRequest = 400"
definition StatusNotFound :: int where "StatusNotFound = 404"
definition StatusConflict :: int where "StatusConflict = 409"
definition StatusInternalServerError :: int where "StatusInternalServerError = 500"
definition StatusServiceUnavailable :: int where "StatusServiceUnavailable = 503"

lemmas http_status_defs = StatusOK_def StatusCreated_def StatusNoContent_def StatusBadRequest_def
  StatusNotFound_def StatusConflict_def StatusInternalServerError_def StatusServiceUnavailable_def

subsection \<open>Round trips\<close>

lemma api_tag_mismatch [simp]:
  "\<not> tag_matches ''interface'' ''wanParent''" "\<not> tag_matches ''interface'' ''macAddress''"
  "\<not> tag_matches ''wanParent'' ''macAddress''" "\<not> tag_matches ''ipAddress'' ''expiresAt''"
  "\<not> tag_matches ''ipAddress'' ''renewalCount''" "\<not> tag_matches ''expiresAt'' ''renewalCount''"
  "\<not> tag_matches ''ipAddress'' ''status''" "\<not> tag_matches ''expiresAt'' ''status''"
  "\<not> tag_matches ''renewalCount'' ''status''" "\<not> tag_matches ''ipAddress'' ''interfaceExists''"
  "\<not> tag_matches ''expiresAt'' ''interfaceExists''"
  "\<not> tag_matches ''renewalCount'' ''interfaceExists''"
  "\<not> tag_matches ''status'' ''interfaceExists''"
  by (simp_all add: tag_matches_def lower_char_def ascii_lower_def)

lemma LeaseRequest_roundtrip [simp]: "LeaseRequest_decode (Doc (LeaseRequest_json r)) = Some r"
  by (simp add: LeaseRequest_decode_def LeaseRequest_json_def dec_struct_def LeaseRequest_put_def
      dec_string_def)

lemma LeaseResponse_roundtrip:
  "time_parse G (time_text G (rs_ExpiresAt r)) = Some (rs_ExpiresAt r) \<Longrightarrow>
   LeaseResponse_decode G (Doc (LeaseResponse_json G r)) = Some r"
  by (simp add: LeaseResponse_decode_def LeaseResponse_json_def dec_struct_def LeaseResponse_put_def
      dec_string_def dec_time_def)

lemma LeaseStatus_roundtrip:
  assumes "time_parse G (time_text G (lst_ExpiresAt r)) = Some (lst_ExpiresAt r)"
    and "- (2 ^ 63) \<le> lst_RenewalCount r" "lst_RenewalCount r < 2 ^ 63"
  shows "LeaseStatus_decode G (Doc (LeaseStatus_json G r)) = Some r"
  using assms
  by (simp add: LeaseStatus_decode_def LeaseStatus_json_def dec_struct_def LeaseStatus_put_def
      dec_string_def dec_time_def dec_int_def dec_bool_def zero_LeaseStatus_def)

lemma LeaseListResponse_roundtrip:
  assumes "\<forall>r \<in> set (ll_Leases l). time_parse G (time_text G (lst_ExpiresAt r)) = Some (lst_ExpiresAt r) \<and>
     - (2 ^ 63) \<le> lst_RenewalCount r \<and> lst_RenewalCount r < 2 ^ 63"
  shows "LeaseListResponse_decode G (Doc (LeaseListResponse_json G l)) = Some l"
proof -
  have "those (map (\<lambda>r. LeaseStatus_decode G (Doc (LeaseStatus_json G r))) rs) = Some rs"
    if "set rs \<subseteq> set (ll_Leases l)" for rs
    using that assms by (induction rs) (auto simp: LeaseStatus_roundtrip)
  then show ?thesis
    by (simp add: LeaseListResponse_decode_def LeaseListResponse_json_def dec_struct_def
        LeaseListResponse_put_def comp_def)
qed

lemma ErrorResponse_roundtrip [simp]:
  "ErrorResponse_decode (Doc (ErrorResponse_json r)) = r"
  by (simp add: ErrorResponse_decode_def ErrorResponse_json_def dec_struct_def ErrorResponse_put_def
      dec_string_def)

end
