(* ===== verification/SimWorld.thy ===== *)
theory SimWorld
  imports KernelOps
begin

text \<open>
  A small concrete world: a kernel that knows a list of links, a socket that records what is sent
  and a clock. It is one instance of the parameters of the agent's model, on which the contracts
  hold (\<open>sim_netlink\<close>, \<open>sim_reliable\<close>) and the operations can be run. \<open>sim_fuel\<close> counts the frames
  the socket still accepts, so that errors can be provoked.
\<close>

record sim_world =
  sim_links :: "string list"
  sim_sent :: "(bytes \<times> sockaddr) list"
  sim_fuel :: nat
  sim_clock :: int
  sim_handles :: "nat list"

definition sim_init :: sim_world where
  "sim_init = \<lparr>sim_links = [''eth8''], sim_sent = [], sim_fuel = 10, sim_clock = 10, sim_handles = []\<rparr>"

definition sim_lookup :: "string \<Rightarrow> (sim_world, link_error + link) state" where
  "sim_lookup n = gets (\<lambda>w. if n \<in> set (sim_links w) then Inr \<lparr>link_name = n, link_index = length n\<rparr>
      else Inl (LinkNotFound ''Link not found''))"

definition sim_send :: "bytes \<Rightarrow> sockaddr \<Rightarrow> (sim_world, unit result) state" where
  "sim_send p a = State (\<lambda>w. if sim_fuel w = 0 then (Inl ''network is down'', w)
      else (Inr (), w\<lparr>sim_sent := sim_sent w @ [(p, a)], sim_fuel := sim_fuel w - 1\<rparr>))"

definition sim_add :: "string \<Rightarrow> (sim_world, unit result) state" where
  "sim_add n = do { _ \<leftarrow> modify (\<lambda>w. w\<lparr>sim_links := n # sim_links w\<rparr>); ret (Inr ()) }"

definition sim_del :: "string \<Rightarrow> (sim_world, unit result) state" where
  "sim_del n = do { _ \<leftarrow> modify (\<lambda>w. w\<lparr>sim_links := removeAll n (sim_links w)\<rparr>); ret (Inr ()) }"

definition sim_K :: "sim_world kernel_ops" where
  "sim_K = \<lparr>InterfaceByName = (\<lambda>n. ret (Inr (length n))), Socket = (\<lambda>_. ret (Inr 3)),
     Sendto = (\<lambda>_. sim_send), CloseFd = (\<lambda>_. ret ()), Sleep_ms = (\<lambda>_. ret ()),
     LinkByName = sim_lookup, LinkAdd = (\<lambda>m. sim_add (mv_name m)), LinkSetUp = (\<lambda>_. ret (Inr ())),
     LinkDel = sim_del, NeighSet = (\<lambda>_. ret (Inr ())), NeighDel = (\<lambda>_. ret (Inr ())),
     WriteSys = (\<lambda>_ _. ret (Inr ()))\<rparr>"

definition sim_Now :: "(sim_world, int) state" where
  "sim_Now = State (\<lambda>w. (sim_clock w, w\<lparr>sim_clock := sim_clock w + 1\<rparr>))"

abbreviation sim_linkset :: "sim_world \<Rightarrow> string set" where
  "sim_linkset w \<equiv> set (sim_links w)"

lemmas sim_defs = sim_lookup_def sim_send_def sim_add_def sim_del_def sim_K_def sim_Now_def

lemma sim_netlink: "netlink_spec sim_K sim_linkset"
  by (auto simp: netlink_spec_def sim_defs keeps_def wp_simps) (auto simp: wp_def)

lemma sim_reliable: "netlink_reliable sim_K sim_linkset"
  by (auto simp: netlink_reliable_def sim_defs wp_simps)

lemma sim_Now_keeps: "keeps sim_linkset sim_Now" "keeps sim_sent sim_Now"
  by (auto simp: sim_Now_def keeps_def wp_def)

end
