(* ===== verification/GoTime.thy ===== *)
theory GoTime
  imports GoStrings "HOL-Library.Signed_Division"
begin

text \<open>
  \<^verbatim>\<open>time.Duration\<close> is an \<^verbatim>\<open>int64\<close> number of nanoseconds: an \<open>int\<close> here, with \<open>wrap64\<close> written where
  the code's arithmetic can leave the range. Go's integer division truncates towards zero
  (\<open>sdiv\<close>). An instant is an \<open>int\<close> of nanoseconds.

  The agent's renewal loop and the SSH manager's reconnect loop wait with the same discipline: a
  delay that doubles up to a ceiling. The locale \<open>capped_doubling\<close> states it once.
\<close>

definition wrap64 :: "int \<Rightarrow> int" where
  "wrap64 i = (i + 2 ^ 63) mod 2 ^ 64 - 2 ^ 63"

lemma wrap64_id: "- (2 ^ 63) \<le> i \<Longrightarrow> i < 2 ^ 63 \<Longrightarrow> wrap64 i = i"
  by (simp add: wrap64_def)

lemma wrap64_range: "- (2 ^ 63) \<le> wrap64 i \<and> wrap64 i < 2 ^ 63"
  by (simp add: wrap64_def)

definition second :: int where "second = 1000000000"
definition minute :: int where "minute = 60 * second"
definition hour :: int where "hour = 60 * minute"

lemmas time_defs = second_def minute_def hour_def

lemma sdiv_nonneg: "0 \<le> (a :: int) \<Longrightarrow> 0 < b \<Longrightarrow> a sdiv b = a div b"
  by (simp add: signed_divide_int_def sgn_if)

text \<open>\<^verbatim>\<open>Duration.String\<close>: \<open>frac\<close> prints the last \<open>prec\<close> decimal digits as a fraction without trailing
  zeros; the two bytes before the \<^verbatim>\<open>s\<close> of microseconds are the UTF-8 encoding of the micro sign.\<close>

definition frac :: "nat \<Rightarrow> nat \<Rightarrow> string" where
  "frac prec v = (let ds = map (\<lambda>i. digit_char (v div 10 ^ i mod 10)) (rev [0..<prec]);
       kept = rev (dropWhile (\<lambda>c. c = CHR ''0'') (rev ds))
     in if kept = [] then [] else ''.'' @ kept)"

definition Duration_String :: "int \<Rightarrow> string" where
  "Duration_String d = (let u = nat \<bar>d\<bar>; s = u div 10 ^ 9 in
     (if d < 0 then ''-'' else []) @
     (if u = 0 then ''0s''
      else if u < 10 ^ 3 then nat_dec u @ ''ns''
      else if u < 10 ^ 6 then nat_dec (u div 10 ^ 3) @ frac 3 u @ [CHR 0xC2, CHR 0xB5] @ ''s''
      else if u < 10 ^ 9 then nat_dec (u div 10 ^ 6) @ frac 6 u @ ''ms''
      else (if s < 60 then []
            else if s < 3600 then nat_dec (s div 60) @ ''m''
            else nat_dec (s div 3600) @ ''h'' @ nat_dec (s div 60 mod 60) @ ''m'') @
           nat_dec (s mod 60) @ frac 9 u @ ''s''))"

subsection \<open>Doubling up to a ceiling\<close>

locale capped_doubling =
  fixes init :: int and cap :: int and nxt :: "int \<Rightarrow> int"
  assumes init_pos: "0 < init"
    and cap_pos: "0 < cap"
    and nxt_eq: "0 < b \<Longrightarrow> b \<le> max init cap \<Longrightarrow> nxt b = min (2 * b) cap"
begin

definition delay :: "nat \<Rightarrow> int" where
  "delay n = (nxt ^^ n) init"

lemma delay_0: "delay 0 = init"
  by (simp add: delay_def)

lemma delay_bounds: "0 < delay n \<and> delay n \<le> max init cap"
proof (induction n)
  case 0
  then show ?case using init_pos by (simp add: delay_def)
next
  case (Suc n)
  then have "delay (Suc n) = min (2 * delay n) cap"
    by (simp add: delay_def nxt_eq)
  with Suc cap_pos show ?case by auto
qed

lemma delay_Suc: "delay (Suc n) = min (2 * delay n) cap"
  using delay_bounds [of n] by (simp add: delay_def nxt_eq)

lemma delay_le_cap: "delay (Suc n) \<le> cap"
  by (simp add: delay_Suc)

text \<open>Closed form: after at least one doubling the delay is \<open>init * 2 ^ n\<close>, cut at the ceiling.\<close>

lemma delay_closed: "0 < n \<Longrightarrow> delay n = min (init * 2 ^ n) cap"
proof (induction n)
  case 0
  then show ?case by simp
next
  case (Suc n)
  show ?case
  proof (cases n)
    case 0
    then show ?thesis by (simp add: delay_Suc delay_0)
  next
    case (Suc m)
    with Suc.IH have "delay n = min (init * 2 ^ n) cap" by simp
    then show ?thesis
      using cap_pos by (simp add: delay_Suc min_def algebra_simps)
  qed
qed

lemma delay_mono: "init \<le> cap \<Longrightarrow> delay n \<le> delay (Suc n)"
  using delay_bounds [of n] by (simp add: delay_Suc)

text \<open>The ceiling is reached, and the wait then stays there.\<close>

lemma delay_reaches_cap: "\<exists>n. \<forall>m \<ge> n. delay m = cap"
proof -
  have "cap \<le> init * 2 ^ n" if "nat cap \<le> n" for n
  proof -
    have "cap \<le> int n" using that by linarith
    also have "\<dots> \<le> 2 ^ n" by (metis less_exp less_imp_le of_nat_le_iff of_nat_numeral of_nat_power)
    also have "\<dots> \<le> init * 2 ^ n" using init_pos by simp
    finally show ?thesis .
  qed
  then have "delay m = cap" if "Suc (nat cap) \<le> m" for m
    using that by (simp add: delay_closed min_absorb2)
  then show ?thesis by blast
qed

end

end
