(* ===== verification/Dhcp.thy ===== *)
theory Dhcp
  imports SimWorld GoTime
begin

text \<open>
  \<^verbatim>\<open>internal/agent/dhcp/client.go\<close>: the wrapper around the \<^verbatim>\<open>insomniacslk/dhcp\<close> library. The library
  is not part of the repository: \<open>dhcp_lib\<close> holds its calls and its packet accessors as
  parameters, over an abstract packet type \<open>'p\<close> and world \<open>'w\<close>. What is modelled is what this file
  adds: which call each operation makes, which fields it extracts, its defaults and its refusals.
\<close>

text \<open>\<^verbatim>\<open>nclient4.Lease\<close>: the pair of packets; a nil pointer is \<open>None\<close>.\<close>

record 'p nlease =
  nl_offer :: "'p option"
  nl_ack :: "'p option"

record ('p, 'w) dhcp_lib =
  nclient4_New :: "string \<Rightarrow> mac \<Rightarrow> ('w, nat result) state"
  nclient4_Close :: "nat \<Rightarrow> ('w, unit) state"
  nclient4_Request :: "nat \<Rightarrow> ('w, 'p nlease result) state"
  nclient4_Renew :: "nat \<Rightarrow> 'p nlease \<Rightarrow> ('w, 'p nlease option result) state"
  nclient4_SendAndRead :: "nat \<Rightarrow> ip \<Rightarrow> nat \<Rightarrow> 'p \<Rightarrow> ('w, 'p result) state"
  nclient4_Release :: "nat \<Rightarrow> 'p nlease \<Rightarrow> ('w, unit result) state"
  dhcpv4_FromBytes :: "bytes \<Rightarrow> 'p result"
  dhcpv4_ToBytes :: "'p \<Rightarrow> bytes"
  dhcpv4_Packet :: "ip \<Rightarrow> mac \<Rightarrow> 'p"
  dhcpv4_NewRequestFromOffer :: "'p \<Rightarrow> 'p result"
  dhcpv4_SetServerIdentifier :: "ip \<Rightarrow> 'p \<Rightarrow> 'p"
  dhcpv4_YourIPAddr :: "'p \<Rightarrow> ip"
  dhcpv4_SubnetMask :: "'p \<Rightarrow> bytes"
  dhcpv4_ServerIdentifier :: "'p \<Rightarrow> ip"
  dhcpv4_IPAddressLeaseTime :: "'p \<Rightarrow> int \<Rightarrow> int"
  dhcpv4_IPAddressRenewalTime :: "'p \<Rightarrow> int \<Rightarrow> int"
  dhcpv4_IPAddressRebindingTime :: "'p \<Rightarrow> int \<Rightarrow> int"
  dhcpv4_MessageTypeIsAck :: "'p \<Rightarrow> bool"
  dhcpv4_MessageTypeName :: "'p \<Rightarrow> string"

record 'p lease_info =
  li_IPAddress :: ip
  li_SubnetMask :: bytes
  li_DHCPServerIP :: ip
  li_LeaseTime :: int
  li_RenewalTime :: int
  li_RebindTime :: int
  li_Offer :: "'p option"
  li_ACK :: "'p option"

text \<open>\<^verbatim>\<open>Client\<close>: the interface and hardware address an operation is for.\<close>

record client =
  cl_iface :: string
  cl_mac :: mac

definition NewClient :: "string \<Rightarrow> mac \<Rightarrow> client" where
  "NewClient iface m = \<lparr>cl_iface = iface, cl_mac = m\<rparr>"

text \<open>\<^verbatim>\<open>nclient4.New\<close> followed by \<^verbatim>\<open>defer client.Close()\<close> around the rest of the operation.\<close>

definition with_client ::
  "('p, 'w) dhcp_lib \<Rightarrow> client \<Rightarrow> (nat \<Rightarrow> ('w, 'a result) state) \<Rightarrow> ('w, 'a result) state" where
  "with_client D c body = do {
     h \<leftarrow> nclient4_New D (cl_iface c) (cl_mac c);
     (case h of
        Inl e \<Rightarrow> ret (Inl (wrapf ''failed to create DHCP client'' e))
      | Inr h \<Rightarrow> do {
          r \<leftarrow> body h;
          _ \<leftarrow> nclient4_Close D h;
          ret r
        })
   }"

text \<open>The three times every operation derives from an ACK: \<^verbatim>\<open>leaseTime / 2\<close> and
  \<^verbatim>\<open>leaseTime * 7 / 8\<close> are the defaults of the renewal and rebinding options.\<close>

definition renewal_default :: "int \<Rightarrow> int" where
  "renewal_default t = t sdiv 2"

definition rebind_default :: "int \<Rightarrow> int" where
  "rebind_default t = wrap64 (t * 7) sdiv 8"

definition lease_info_of :: "('p, 'w) dhcp_lib \<Rightarrow> ip \<Rightarrow> ip \<Rightarrow> 'p option \<Rightarrow> 'p \<Rightarrow> 'p lease_info" where
  "lease_info_of D p server offer ack =
     (let mask = dhcpv4_SubnetMask D ack;
          subnetMask = (if mask = [] then CIDRMask_24 else mask);
          leaseTime = dhcpv4_IPAddressLeaseTime D ack hour
      in \<lparr>li_IPAddress = p, li_SubnetMask = subnetMask, li_DHCPServerIP = server,
          li_LeaseTime = leaseTime,
          li_RenewalTime = dhcpv4_IPAddressRenewalTime D ack (renewal_default leaseTime),
          li_RebindTime = dhcpv4_IPAddressRebindingTime D ack (rebind_default leaseTime),
          li_Offer = offer, li_ACK = Some ack\<rparr>)"

text \<open>A nil or all-zero address carries no information.\<close>

definition no_addr :: "ip \<Rightarrow> bool" where
  "no_addr p \<longleftrightarrow> p = [] \<or> IsUnspecified p"

definition extract_lease :: "('p, 'w) dhcp_lib \<Rightarrow> 'p nlease result \<Rightarrow> 'p lease_info result" where
  "extract_lease D r = (case r of
      Inl e \<Rightarrow> Inl (wrapf ''DHCP request failed'' e)
    | Inr l \<Rightarrow> (case nl_ack l of
          None \<Rightarrow> Inl ''no ACK received from DHCP server''
        | Some ack \<Rightarrow>
            if no_addr (dhcpv4_YourIPAddr D ack) then Inl ''no IP address in DHCP ACK''
            else if no_addr (dhcpv4_ServerIdentifier D ack)
            then Inl ''no DHCP server identifier in ACK''
            else Inr (lease_info_of D (dhcpv4_YourIPAddr D ack)
                   (dhcpv4_ServerIdentifier D ack) (nl_offer l) ack)))"

definition AcquireLease :: "('p, 'w) dhcp_lib \<Rightarrow> client \<Rightarrow> ('w, 'p lease_info result) state" where
  "AcquireLease D c = with_client D c (\<lambda>h. do {
     r \<leftarrow> nclient4_Request D h;
     ret (extract_lease D r)
   })"

text \<open>The fallback of \<^verbatim>\<open>RenewLease\<close> for leases without saved packets.\<close>

definition manual_renew :: "('p, 'w) dhcp_lib \<Rightarrow> nat \<Rightarrow> client \<Rightarrow> ip \<Rightarrow> ip \<Rightarrow> ('w, 'p nlease option result) state" where
  "manual_renew D h c currentIP dhcpServerIP =
     (case dhcpv4_NewRequestFromOffer D (dhcpv4_Packet D currentIP (cl_mac c)) of
        Inl e \<Rightarrow> ret (Inl (wrapf ''failed to create RENEW request'' e))
      | Inr req \<Rightarrow> do {
          let req = dhcpv4_SetServerIdentifier D dhcpServerIP req;
          resp \<leftarrow> nclient4_SendAndRead D h dhcpServerIP 67 req;
          ret (case resp of
              Inl e \<Rightarrow> Inl (wrapf ''RENEW request failed'' e)
            | Inr resp \<Rightarrow>
                if \<not> dhcpv4_MessageTypeIsAck D resp
                then Inl (''expected ACK, got '' @ dhcpv4_MessageTypeName D resp)
                else Inr (Some \<lparr>nl_offer = None, nl_ack = Some resp\<rparr>))
        })"

text \<open>The library's \<^verbatim>\<open>Renew\<close>, on the packets of the previous exchange.\<close>

definition library_renew :: "('p, 'w) dhcp_lib \<Rightarrow> nat \<Rightarrow> bytes \<Rightarrow> bytes \<Rightarrow> ('w, 'p nlease option result) state" where
  "library_renew D h previousOffer previousAck =
     (case dhcpv4_FromBytes D previousOffer of
        Inl e \<Rightarrow> ret (Inl (wrapf ''failed to parse previous OFFER'' e))
      | Inr offer \<Rightarrow> (case dhcpv4_FromBytes D previousAck of
            Inl e \<Rightarrow> ret (Inl (wrapf ''failed to parse previous ACK'' e))
          | Inr ack \<Rightarrow> do {
              r \<leftarrow> nclient4_Renew D h \<lparr>nl_offer = Some offer, nl_ack = Some ack\<rparr>;
              ret (case r of
                  Inl e \<Rightarrow> Inl (wrapf ''RENEW request failed'' e)
                | Inr l \<Rightarrow> Inr l)
            }))"

definition extract_renewal :: "('p, 'w) dhcp_lib \<Rightarrow> ip \<Rightarrow> ip \<Rightarrow> 'p nlease option result \<Rightarrow> 'p lease_info result" where
  "extract_renewal D currentIP dhcpServerIP r = (case r of
      Inl e \<Rightarrow> Inl e
    | Inr None \<Rightarrow> Inl ''no ACK received from DHCP server''
    | Inr (Some l) \<Rightarrow> (case nl_ack l of
          None \<Rightarrow> Inl ''no ACK received from DHCP server''
        | Some resp \<Rightarrow>
            let p = (if no_addr (dhcpv4_YourIPAddr D resp) then currentIP
                     else dhcpv4_YourIPAddr D resp);
                server = (if no_addr (dhcpv4_ServerIdentifier D resp) then dhcpServerIP
                          else dhcpv4_ServerIdentifier D resp)
            in Inr (lease_info_of D p server (nl_offer l) resp)))"

definition RenewLease ::
  "('p, 'w) dhcp_lib \<Rightarrow> client \<Rightarrow> ip \<Rightarrow> ip \<Rightarrow> bytes \<Rightarrow> bytes \<Rightarrow> ('w, 'p lease_info result) state" where
  "RenewLease D c currentIP dhcpServerIP previousOffer previousAck = with_client D c (\<lambda>h. do {
     r \<leftarrow> (if 0 < length previousOffer \<and> 0 < length previousAck
            then library_renew D h previousOffer previousAck
            else manual_renew D h c currentIP dhcpServerIP);
     ret (extract_renewal D currentIP dhcpServerIP r)
   })"

definition RebindLease :: "('p, 'w) dhcp_lib \<Rightarrow> client \<Rightarrow> ip \<Rightarrow> ('w, 'p lease_info result) state" where
  "RebindLease D c currentIP = with_client D c (\<lambda>h. do {
     r \<leftarrow> nclient4_Request D h;
     ret (extract_lease D r)
   })"

definition ReleaseLease :: "('p, 'w) dhcp_lib \<Rightarrow> client \<Rightarrow> ip \<Rightarrow> ip \<Rightarrow> ('w, unit result) state" where
  "ReleaseLease D c currentIP dhcpServerIP = with_client D c (\<lambda>h. do {
     let ack = dhcpv4_SetServerIdentifier D dhcpServerIP (dhcpv4_Packet D currentIP (cl_mac c));
     r \<leftarrow> nclient4_Release D h \<lparr>nl_offer = None, nl_ack = Some ack\<rparr>;
     ret (case r of Inl e \<Rightarrow> Inl (wrapf ''failed to send RELEASE'' e) | Inr _ \<Rightarrow> Inr ())
   })"

subsection \<open>What a successful exchange guarantees\<close>

lemma wp_with_client_any:
  assumes "\<And>e w'. Q (Inl (wrapf ''failed to create DHCP client'' e)) w'"
    and "\<And>h w'. wp (body h) (\<lambda>r _. \<forall>w'. Q r w') w'"
  shows "wp (with_client D c body) Q w"
  unfolding with_client_def wp_bind
proof (rule wp_any)
  fix h w'
  show "wp (case h of Inl e \<Rightarrow> ret (Inl (wrapf ''failed to create DHCP client'' e))
     | Inr h \<Rightarrow> State_Monad.bind (body h) (\<lambda>r. State_Monad.bind (nclient4_Close D h) (\<lambda>_. ret r))) Q w'"
  proof (cases h)
    case (Inr k)
    then show ?thesis
      by (simp add: wp_simps) (rule wp_mono [OF assms(2)], auto intro: wp_any)
  qed (simp add: wp_simps assms(1))
qed

lemma lease_info_of_sel [simp]:
  "li_IPAddress (lease_info_of D p q off a) = p"
  "li_DHCPServerIP (lease_info_of D p q off a) = q"
  "li_LeaseTime (lease_info_of D p q off a) = dhcpv4_IPAddressLeaseTime D a hour"
  "li_Offer (lease_info_of D p q off a) = off"
  "li_ACK (lease_info_of D p q off a) = Some a"
  "li_SubnetMask (lease_info_of D p q off a) \<noteq> []"
  by (simp_all add: lease_info_of_def Let_def CIDRMask_24_def)

lemma extract_lease_ok:
  "extract_lease D r = Inr li \<Longrightarrow>
     \<not> no_addr (li_IPAddress li) \<and> \<not> no_addr (li_DHCPServerIP li) \<and> li_SubnetMask li \<noteq> [] \<and>
     (\<exists>l ack. r = Inr l \<and> nl_ack l = Some ack \<and> li_ACK li = Some ack \<and> li_Offer li = nl_offer l \<and>
        li_IPAddress li = dhcpv4_YourIPAddr D ack \<and>
        li_LeaseTime li = dhcpv4_IPAddressLeaseTime D ack hour)"
  by (auto simp: extract_lease_def split: sum.splits option.splits if_splits)

lemma extract_renewal_ok:
  assumes "extract_renewal D cur srv r = Inr li"
  shows "\<exists>l ack. r = Inr (Some l) \<and> nl_ack l = Some ack \<and> li_ACK li = Some ack \<and>
     li_Offer li = nl_offer l \<and> li_SubnetMask li \<noteq> [] \<and>
     li_IPAddress li = (if no_addr (dhcpv4_YourIPAddr D ack) then cur else dhcpv4_YourIPAddr D ack) \<and>
     li_DHCPServerIP li = (if no_addr (dhcpv4_ServerIdentifier D ack) then srv
        else dhcpv4_ServerIdentifier D ack) \<and>
     li_LeaseTime li = dhcpv4_IPAddressLeaseTime D ack hour"
proof -
  from assms obtain l ack where "r = Inr (Some l)" "nl_ack l = Some ack"
    by (auto simp: extract_renewal_def split: sum.splits option.splits)
  with assms show ?thesis
    by (auto simp: extract_renewal_def)
qed

lemma AcquireLease_ok:
  "wp (AcquireLease D c) (\<lambda>r _. case r of Inl _ \<Rightarrow> True | Inr li \<Rightarrow>
     \<not> no_addr (li_IPAddress li) \<and> \<not> no_addr (li_DHCPServerIP li) \<and> li_SubnetMask li \<noteq> [] \<and>
     li_ACK li \<noteq> None) w"
  unfolding AcquireLease_def
  by (rule wp_with_client_any)
    (auto simp: wp_simps intro!: wp_any split: sum.splits dest!: extract_lease_ok)

text \<open>The default rebinding time is seven eighths of the lease, for leases below some 41 years;
  beyond, the product no longer fits the 64 bits of a \<^verbatim>\<open>time.Duration\<close>.\<close>

lemma rebind_default_exact: "0 \<le> t \<Longrightarrow> 7 * t < 2 ^ 63 \<Longrightarrow> rebind_default t = 7 * t div 8"
  by (simp add: rebind_default_def wrap64_id sdiv_nonneg mult.commute)

lemma rebind_default_infinite_lease: "rebind_default ((2 ^ 32 - 1) * second) < 0"
  by (simp add: rebind_default_def wrap64_def second_def signed_divide_int_def)

subsection \<open>Every client that is opened is closed\<close>

text \<open>What the code relies on of the library's clients: \<open>open_handles w\<close> are those not yet closed.\<close>

definition handles_spec :: "('p, 'w) dhcp_lib \<Rightarrow> ('w \<Rightarrow> nat set) \<Rightarrow> bool" where
  "handles_spec D handles \<longleftrightarrow>
     (\<forall>i m w. wp (nclient4_New D i m) (\<lambda>r w'. case r of
         Inl _ \<Rightarrow> handles w' = handles w
       | Inr h \<Rightarrow> h \<notin> handles w \<and> handles w' = insert h (handles w)) w) \<and>
     (\<forall>h w. wp (nclient4_Close D h) (\<lambda>_ w'. handles w' = handles w - {h}) w) \<and>
     (\<forall>h w. wp (nclient4_Request D h) (\<lambda>_ w'. handles w' = handles w) w) \<and>
     (\<forall>h l w. wp (nclient4_Renew D h l) (\<lambda>_ w'. handles w' = handles w) w) \<and>
     (\<forall>h p n q w. wp (nclient4_SendAndRead D h p n q) (\<lambda>_ w'. handles w' = handles w) w) \<and>
     (\<forall>h l w. wp (nclient4_Release D h l) (\<lambda>_ w'. handles w' = handles w) w)"

lemma with_client_closes:
  assumes D: "handles_spec D handles"
    and body: "\<And>h w. wp (body h) (\<lambda>_ w'. handles w' = handles w) w"
  shows "wp (with_client D c body) (\<lambda>_ w'. handles w' = handles w) w"
proof -
  have cl: "wp (nclient4_Close D h) (\<lambda>_ w'. handles w' = handles w) w1"
    if "handles w1 = insert h (handles w)" "h \<notin> handles w" for h w1
  proof -
    have "wp (nclient4_Close D h) (\<lambda>_ w'. handles w' = handles w1 - {h}) w1"
      using D unfolding handles_spec_def by blast
    then show ?thesis by (rule wp_mono) (use that in simp)
  qed
  have bd: "wp (body h) (\<lambda>r. wp (nclient4_Close D h) (\<lambda>_ w'. handles w' = handles w)) w1"
    if "handles w1 = insert h (handles w)" "h \<notin> handles w" for h w1
    by (rule wp_mono [OF body]) (use cl that in auto)
  have "wp (nclient4_New D (cl_iface c) (cl_mac c)) (\<lambda>r w'. case r of
         Inl _ \<Rightarrow> handles w' = handles w
       | Inr h \<Rightarrow> h \<notin> handles w \<and> handles w' = insert h (handles w)) w"
    using D by (simp add: handles_spec_def)
  then show ?thesis
    unfolding with_client_def wp_bind
    by (rule wp_mono) (auto simp: wp_simps split: sum.splits intro: bd)
qed

lemma handles_body:
  assumes "handles_spec D handles"
  shows "wp (nclient4_Request D h) (\<lambda>_ w'. handles w' = handles w) w"
    "wp (nclient4_Renew D h l) (\<lambda>_ w'. handles w' = handles w) w"
    "wp (nclient4_SendAndRead D h p n q) (\<lambda>_ w'. handles w' = handles w) w"
    "wp (nclient4_Release D h l) (\<lambda>_ w'. handles w' = handles w) w"
  using assms by (simp_all add: handles_spec_def)

lemma dhcp_ops_close:
  assumes D: "handles_spec D handles"
  shows "wp (AcquireLease D c) (\<lambda>_ w'. handles w' = handles w) w"
    and "wp (RebindLease D c p) (\<lambda>_ w'. handles w' = handles w) w"
    and "wp (ReleaseLease D c p q) (\<lambda>_ w'. handles w' = handles w) w"
    and "wp (RenewLease D c p q o1 o2) (\<lambda>_ w'. handles w' = handles w) w"
  unfolding AcquireLease_def RebindLease_def ReleaseLease_def RenewLease_def
    library_renew_def manual_renew_def
  by (intro with_client_closes [OF D], auto simp: wp_simps handles_body [OF D] split: sum.splits)+

subsection \<open>What the exchanges leave alone\<close>

text \<open>A part of the world that no call of the library changes.\<close>

definition dhcp_leaves :: "('p, 'w) dhcp_lib \<Rightarrow> ('w \<Rightarrow> 'o) \<Rightarrow> bool" where
  "dhcp_leaves D f \<longleftrightarrow>
     (\<forall>i m. keeps f (nclient4_New D i m)) \<and> (\<forall>h. keeps f (nclient4_Close D h)) \<and>
     (\<forall>h. keeps f (nclient4_Request D h)) \<and> (\<forall>h l. keeps f (nclient4_Renew D h l)) \<and>
     (\<forall>h p n q. keeps f (nclient4_SendAndRead D h p n q)) \<and> (\<forall>h l. keeps f (nclient4_Release D h l))"

lemma keeps_dhcp_ops:
  assumes D: "dhcp_leaves D f"
  shows "keeps f (AcquireLease D c)" "keeps f (RebindLease D c p)" "keeps f (ReleaseLease D c p q)"
    "keeps f (RenewLease D c p q o1 o2)"
proof -
  have k: "\<And>i m. keeps f (nclient4_New D i m)" "\<And>h. keeps f (nclient4_Close D h)"
    "\<And>h. keeps f (nclient4_Request D h)" "\<And>h l. keeps f (nclient4_Renew D h l)"
    "\<And>h p n q. keeps f (nclient4_SendAndRead D h p n q)" "\<And>h l. keeps f (nclient4_Release D h l)"
    using D by (simp_all add: dhcp_leaves_def)
  show "keeps f (AcquireLease D c)" "keeps f (RebindLease D c p)" "keeps f (ReleaseLease D c p q)"
    "keeps f (RenewLease D c p q o1 o2)"
    unfolding AcquireLease_def RebindLease_def ReleaseLease_def RenewLease_def with_client_def
      library_renew_def manual_renew_def
    by (intro keeps_intros k)+
qed

subsection \<open>A server to run against\<close>

text \<open>The simulated server leases one address for eight nanoseconds; a packet is its address, its server
  and its lease time. \<open>sim_handles\<close> are the open clients.\<close>

type_synonym sim_packet = "ip \<times> ip \<times> int"

definition sim_ack :: sim_packet where
  "sim_ack = ([203, 0, 113, 7], [203, 0, 113, 1], 8)"

definition sim_D :: "(sim_packet, sim_world) dhcp_lib" where
  "sim_D = \<lparr>
     nclient4_New = (\<lambda>i m. State (\<lambda>w. let h = Suc (sum_list (sim_handles w)) in
        if i \<in> set (sim_links w) then (Inr h, w\<lparr>sim_handles := h # sim_handles w\<rparr>)
        else (Inl ''no such network interface'', w))),
     nclient4_Close = (\<lambda>h. modify (\<lambda>w. w\<lparr>sim_handles := removeAll h (sim_handles w)\<rparr>)),
     nclient4_Request = (\<lambda>h. ret (Inr \<lparr>nl_offer = Some sim_ack, nl_ack = Some sim_ack\<rparr>)),
     nclient4_Renew = (\<lambda>h l. ret (Inr (Some l))),
     nclient4_SendAndRead = (\<lambda>h p n q. ret (Inr q)),
     nclient4_Release = (\<lambda>h l. ret (Inr ())),
     dhcpv4_FromBytes = (\<lambda>b. Inr (take 4 b, drop 4 b, 8)),
     dhcpv4_ToBytes = (\<lambda>p. fst p @ fst (snd p)),
     dhcpv4_Packet = (\<lambda>p m. (p, [], 0)),
     dhcpv4_NewRequestFromOffer = Inr,
     dhcpv4_SetServerIdentifier = (\<lambda>srv p. (fst p, srv, snd (snd p))),
     dhcpv4_YourIPAddr = fst,
     dhcpv4_SubnetMask = (\<lambda>_. []),
     dhcpv4_ServerIdentifier = (\<lambda>p. fst (snd p)),
     dhcpv4_IPAddressLeaseTime = (\<lambda>p d. snd (snd p)),
     dhcpv4_IPAddressRenewalTime = (\<lambda>p d. d),
     dhcpv4_IPAddressRebindingTime = (\<lambda>p d. d),
     dhcpv4_MessageTypeIsAck = (\<lambda>_. True),
     dhcpv4_MessageTypeName = (\<lambda>_. ''ACK'')\<rparr>"

lemma fresh_handle: "Suc (sum_list hs) \<notin> set hs"
  using member_le_sum_list [of "Suc (sum_list hs)" hs] by auto

lemma sim_handles_spec: "handles_spec sim_D (\<lambda>w. set (sim_handles w))"
proof -
  have new: "wp (nclient4_New sim_D i m) (\<lambda>r w'. case r of
         Inl _ \<Rightarrow> set (sim_handles w') = set (sim_handles w)
       | Inr h \<Rightarrow> h \<notin> set (sim_handles w) \<and> set (sim_handles w') = insert h (set (sim_handles w))) w"
    for i m w
    using fresh_handle [of "sim_handles w"] by (simp add: sim_D_def wp_def Let_def)
  show ?thesis
    unfolding handles_spec_def using new by (auto simp: sim_D_def wp_simps)
qed

lemma sim_dhcp_leaves: "dhcp_leaves sim_D sim_linkset"
  by (auto simp: dhcp_leaves_def sim_D_def keeps_def wp_simps) (auto simp: wp_def Let_def)

subsection \<open>Properties\<close>

text \<open>A lease that \<^verbatim>\<open>AcquireLease\<close> returns is usable: its address and its server's address are
  neither nil nor unspecified, its subnet mask is not empty, and it carries the ACK.\<close>

theorem acquired_lease_usable:
  "wp (AcquireLease D c) (\<lambda>r _. case r of Inl _ \<Rightarrow> True | Inr li \<Rightarrow>
     \<not> no_addr (li_IPAddress li) \<and> \<not> no_addr (li_DHCPServerIP li) \<and> li_SubnetMask li \<noteq> [] \<and>
     li_ACK li \<noteq> None) w"
  by (rule AcquireLease_ok)

text \<open>C28: No DHCP operation leaks its client: on every path, errors included, the clients that are
  open afterwards are those that were open before.\<close>

theorem dhcp_clients_closed:
  assumes "handles_spec D handles"
  shows "wp (AcquireLease D c) (\<lambda>_ w'. handles w' = handles w) w \<and>
     wp (RenewLease D c p q o1 o2) (\<lambda>_ w'. handles w' = handles w) w \<and>
     wp (RebindLease D c p) (\<lambda>_ w'. handles w' = handles w) w \<and>
     wp (ReleaseLease D c p q) (\<lambda>_ w'. handles w' = handles w) w"
  using dhcp_ops_close [OF assms] by blast

theorem dhcp_clients_closed_witness:
  "wp (AcquireLease sim_D (NewClient ''eth8'' [2, 0, 0, 0, 0, 1])) (\<lambda>_ w'. set (sim_handles w') = {}) sim_init"
  using dhcp_clients_closed [OF sim_handles_spec, of "NewClient ''eth8'' [2, 0, 0, 0, 0, 1]" sim_init]
  by (simp add: sim_init_def)

text \<open>The default rebinding time is seven eighths of the lease time as long as seven times the
  lease fits 63 bits of nanoseconds (some 41 years); for the infinite lease of RFC 2131 the product
  wraps around and the default is negative.\<close>

theorem rebind_default_seven_eighths:
  "(0 \<le> t \<and> 7 * t < 2 ^ 63 \<longrightarrow> rebind_default t = 7 * t div 8) \<and>
   rebind_default ((2 ^ 32 - 1) * second) < 0"
  using rebind_default_exact rebind_default_infinite_lease by blast

theorem rebind_default_seven_eighths_witness: "rebind_default (8 * second) = 7 * second"
  using rebind_default_seven_eighths [of "8 * second"] by (simp add: second_def)

end
