(* ===== verification/Garp.thy ===== *)
theory Garp
  imports SimWorld
begin

unbundle bit_operations_syntax

text \<open>
  \<^verbatim>\<open>internal/agent/network/garp.go\<close>: gratuitous ARP announcements. The frame is built by the same
  sequence of copies and byte stores into a 42-byte buffer as the code's; the theorems give its
  exact layout and the number of frames that reach the wire.
\<close>

subsection \<open>The frame\<close>

text \<open>\<^verbatim>\<open>copy(dst[lo:hi], src)\<close> copies the shorter of the two lengths.\<close>

definition copy_at :: "bytes \<Rightarrow> nat \<Rightarrow> nat \<Rightarrow> bytes \<Rightarrow> bytes" where
  "copy_at dst lo hi src =
     (let n = min (hi - lo) (length src) in take lo dst @ take n src @ drop (lo + n) dst)"

definition buildGratuitousARP :: "mac \<Rightarrow> ip \<Rightarrow> bytes" where
  "buildGratuitousARP m p =
    (let packet = replicate 42 0;
         packet = copy_at packet 0 6 [0xff, 0xff, 0xff, 0xff, 0xff, 0xff];
         packet = copy_at packet 6 12 m;
         packet = packet[12 := 0x08];
         packet = packet[13 := 0x06];
         packet = packet[14 := 0x00];
         packet = packet[15 := 0x01];
         packet = packet[16 := 0x08];
         packet = packet[17 := 0x00];
         packet = packet[18 := 0x06];
         packet = packet[19 := 0x04];
         packet = packet[20 := 0x00];
         packet = packet[21 := 0x01];
         packet = copy_at packet 22 28 m;
         packet = copy_at packet 28 32 (To4 p);
         packet = copy_at packet 32 38 [0, 0, 0, 0, 0, 0];
         packet = copy_at packet 38 42 (To4 p)
     in packet)"

definition htons :: "16 word \<Rightarrow> 16 word" where
  "htons v = (push_bit 8 v) OR (drop_bit 8 v)"

definition ETH_P_ARP :: "16 word" where
  "ETH_P_ARP = 0x0806"

subsection \<open>Sending\<close>

text \<open>The loop of \<^verbatim>\<open>SendGratuitousARP\<close>, from attempt \<open>i\<close> with \<open>n\<close> attempts left.\<close>

fun garp_loop :: "'w kernel_ops \<Rightarrow> nat \<Rightarrow> bytes \<Rightarrow> sockaddr \<Rightarrow> nat \<Rightarrow> nat \<Rightarrow> ('w, unit result) state" where
  "garp_loop K fd packet addr i 0 = ret (Inr ())"
| "garp_loop K fd packet addr i (Suc n) = do {
     r \<leftarrow> Sendto K fd packet addr;
     (case r of
        Inl e \<Rightarrow> ret (Inl (wrapf (''failed to send gratuitous ARP (attempt '' @ nat_dec (i + 1) @
                   ''/'' @ nat_dec (i + Suc n) @ '')'') e))
      | Inr _ \<Rightarrow> do {
          _ \<leftarrow> (if n \<noteq> 0 then Sleep_ms K 200 else ret ());
          garp_loop K fd packet addr (i + 1) n
        })
   }"

definition SendGratuitousARP ::
  "'w kernel_ops \<Rightarrow> string \<Rightarrow> ip \<Rightarrow> mac \<Rightarrow> nat \<Rightarrow> ('w, unit result) state" where
  "SendGratuitousARP K ifaceName p m count = do {
     iface \<leftarrow> InterfaceByName K ifaceName;
     (case iface of
        Inl e \<Rightarrow> ret (Inl (wrapf ''failed to get interface'' e))
      | Inr idx \<Rightarrow> do {
          fd \<leftarrow> Socket K (htons ETH_P_ARP);
          (case fd of
             Inl e \<Rightarrow> ret (Inl (wrapf ''failed to create raw socket'' e))
           | Inr fd \<Rightarrow> do {
               let packet = buildGratuitousARP m p;
               let addr = \<lparr>sa_protocol = htons ETH_P_ARP, sa_ifindex = idx\<rparr>;
               r \<leftarrow> garp_loop K fd packet addr 0 count;
               _ \<leftarrow> CloseFd K fd;
               ret r
             })
        })
   }"

subsection \<open>Layout of the frame\<close>

lemma length_copy_at [simp]: "hi \<le> length dst \<Longrightarrow> lo \<le> hi \<Longrightarrow> length (copy_at dst lo hi src) = length dst"
  by (auto simp: copy_at_def Let_def)

lemma length_buildGratuitousARP [simp]: "length (buildGratuitousARP m p) = 42"
  by (simp add: buildGratuitousARP_def Let_def)

lemma list_update_Cons_numeral:
  "(x # xs)[numeral k := v] = x # xs[pred_numeral k := v]"
  by (simp add: numeral_eq_Suc)

lemma replicate_numeral_Cons: "replicate (numeral k) x = x # replicate (pred_numeral k) x"
  by (simp add: numeral_eq_Suc)

lemma arp_header_stores:
  "length pre = 12 \<Longrightarrow> (pre @ replicate 30 (0 :: byte))[12 := 8, 13 := 6, 14 := 0, 15 := 1, 16 := 8,
     17 := 0, 18 := 6, 19 := 4, 20 := 0, 21 := 1] =
   (pre @ [8, 6, 0, 1, 8, 0, 6, 4, 0, 1]) @ replicate 20 0"
  by (simp add: list_update_append list_update_Cons_numeral replicate_numeral_Cons)

text \<open>What the announcement says: an Ethernet broadcast from \<open>m\<close>, EtherType ARP, an IPv4-over-Ethernet
  request whose sender and target protocol addresses are both the announced one.\<close>

definition arp_announcement :: "mac \<Rightarrow> ip \<Rightarrow> bytes" where
  "arp_announcement m p4 =
     replicate 6 255 @ m @ [8, 6] @
     [0, 1, 8, 0, 6, 4, 0, 1] @ m @ p4 @ replicate 6 0 @ p4"

lemma buildGratuitousARP_layout:
  assumes "length m = 6" and "To4 p \<noteq> []"
  shows "buildGratuitousARP m p = arp_announcement m (To4 p)"
proof -
  have l4: "length (To4 p) = 4" using assms(2) by (rule To4_cases)
  have e1: "copy_at (replicate 42 0) 0 6 [255, 255, 255, 255, 255, 255] = replicate 6 255 @ replicate 36 0"
    by (simp add: copy_at_def Let_def replicate_numeral_Cons)
  have e2: "copy_at (replicate 6 255 @ replicate 36 0) 6 12 m = (replicate 6 255 @ m) @ replicate 30 0"
    by (simp add: copy_at_def Let_def assms(1))
  let ?eth = "replicate 6 255 @ m"
  have e3: "(?eth @ replicate 30 0)[12 := 8, 13 := 6, 14 := 0, 15 := 1, 16 := 8, 17 := 0, 18 := 6,
      19 := 4, 20 := 0, 21 := 1] = (?eth @ [8, 6, 0, 1, 8, 0, 6, 4, 0, 1]) @ replicate 20 0"
    by (rule arp_header_stores) (simp add: assms(1))
  let ?hdr = "?eth @ [8, 6, 0, 1, 8, 0, 6, 4, 0, 1]"
  have e4: "copy_at (?hdr @ replicate 20 0) 22 28 m = (?hdr @ m) @ replicate 14 0"
    by (simp add: copy_at_def Let_def assms(1))
  have e5: "copy_at ((?hdr @ m) @ replicate 14 0) 28 32 (To4 p) = (?hdr @ m @ To4 p) @ replicate 10 0"
    by (simp add: copy_at_def Let_def assms(1) l4)
  have e6: "copy_at ((?hdr @ m @ To4 p) @ replicate 10 0) 32 38 [0, 0, 0, 0, 0, 0] =
      (?hdr @ m @ To4 p @ replicate 6 0) @ replicate 4 0"
    by (simp add: copy_at_def Let_def assms(1) l4 replicate_numeral_Cons)
  have e7: "copy_at ((?hdr @ m @ To4 p @ replicate 6 0) @ replicate 4 0) 38 42 (To4 p) =
      ?hdr @ m @ To4 p @ replicate 6 0 @ To4 p"
    by (simp add: copy_at_def Let_def assms(1) l4)
  show ?thesis
    unfolding buildGratuitousARP_def Let_def e1 e2 e3 e4 e5 e6 e7 by (simp add: arp_announcement_def)
qed

lemma unat_htons: "unat (htons v) = unat v mod 256 * 256 + unat v div 256"
proof -
  have "htons v = push_bit 8 v + drop_bit 8 v"
    unfolding htons_def
    by (rule disjunctive_add [symmetric]) (auto simp: bit_simps dest: bit_imp_le_length)
  moreover have "unat (push_bit 8 v) = unat v mod 256 * 256"
    using mod_mult_mult2 [of "unat v" 256 256] by (simp add: push_bit_eq_mult unat_word_ariths)
  moreover have "unat (drop_bit 8 v) = unat v div 256"
    by (simp add: drop_bit_eq_div unat_div)
  moreover have "unat v < 65536" using unsigned_less [of v] by simp
  then have "unat v div 256 < 256" by linarith
  then have "unat v mod 256 * 256 + unat v div 256 < 65536"
    using mod_less_divisor [of 256 "unat v"] by linarith
  ultimately show ?thesis by (simp add: unat_word_ariths)
qed

subsection \<open>Frames on the wire\<close>

text \<open>
  What the code relies on of the socket: \<open>sent w\<close> is what went out, a successful \<^verbatim>\<open>sendto\<close> adds
  its frame, a failed one adds nothing, and no other call sends.
\<close>

definition sendto_spec :: "'w kernel_ops \<Rightarrow> ('w \<Rightarrow> (bytes \<times> sockaddr) list) \<Rightarrow> bool" where
  "sendto_spec K sent \<longleftrightarrow>
     (\<forall>fd p a w. wp (Sendto K fd p a) (\<lambda>r w'.
        sent w' = (if is_err r then sent w else sent w @ [(p, a)])) w) \<and>
     (\<forall>n. keeps sent (InterfaceByName K n)) \<and> (\<forall>p. keeps sent (Socket K p)) \<and>
     (\<forall>fd. keeps sent (CloseFd K fd)) \<and> (\<forall>n. keeps sent (Sleep_ms K n))"

lemma wp_Sendto:
  assumes "sendto_spec K sent"
    and "\<And>e w'. sent w' = sent w \<Longrightarrow> Q (Inl e) w'"
    and "\<And>w'. sent w' = sent w @ [(p, a)] \<Longrightarrow> Q (Inr ()) w'"
  shows "wp (Sendto K fd p a) Q w"
proof -
  have "wp (Sendto K fd p a) (\<lambda>r w'. sent w' = (if is_err r then sent w else sent w @ [(p, a)])) w"
    using assms(1) by (simp add: sendto_spec_def)
  then show ?thesis
    by (rule wp_mono) (use assms(2,3) in \<open>auto simp: is_err_def split: sum.splits if_splits\<close>)
qed

text \<open>Between two worlds, \<open>j \<le> n\<close> copies of a frame went out; all \<open>n\<close> of them unless there was
  an error.\<close>

definition frames_out ::
  "('w \<Rightarrow> (bytes \<times> sockaddr) list) \<Rightarrow> 'w \<Rightarrow> bytes \<times> sockaddr \<Rightarrow> nat \<Rightarrow> unit result \<Rightarrow> 'w \<Rightarrow> bool" where
  "frames_out sent w fr n r w' \<longleftrightarrow>
     (\<exists>j \<le> n. sent w' = sent w @ replicate j fr \<and> (if is_err r then j < n else j = n))"

lemma frames_out_none: "sent w' = sent w \<Longrightarrow> frames_out sent w fr 0 (Inr ()) w'"
  by (simp add: frames_out_def)

lemma frames_out_one: "sent w' = sent w @ [fr] \<Longrightarrow> frames_out sent w fr (Suc 0) (Inr ()) w'"
  by (simp add: frames_out_def)

lemma frames_out_err: "sent w' = sent w \<Longrightarrow> frames_out sent w fr (Suc n) (Inl e) w'"
  by (auto simp: frames_out_def intro!: exI [of _ 0])

lemma frames_out_step:
  assumes "sent v = sent w @ [fr]" and "frames_out sent v fr n r w'"
  shows "frames_out sent w fr (Suc n) r w'"
proof -
  from assms(2) obtain j where "j \<le> n" "sent w' = sent v @ replicate j fr"
    "if is_err r then j < n else j = n"
    by (auto simp: frames_out_def)
  with assms(1) show ?thesis
    unfolding frames_out_def by (intro exI [of _ "Suc j"]) auto
qed

lemma frames_out_cong: "sent v = sent w \<Longrightarrow> sent v' = sent w' \<Longrightarrow>
    frames_out sent v fr n r v' = frames_out sent w fr n r w'"
  by (simp add: frames_out_def)

lemma wp_garp_loop:
  assumes K: "sendto_spec K sent"
  shows "wp (garp_loop K fd p a i n) (frames_out sent w (p, a) n) w"
proof (induction n arbitrary: i w)
  case 0
  then show ?case by (simp add: wp_simps frames_out_none)
next
  case (Suc n)
  have sl: "keeps sent (Sleep_ms K 200)" using K by (simp add: sendto_spec_def)
  have step: "wp (garp_loop K fd p a (Suc i) n) (frames_out sent w (p, a) (Suc n)) v'"
    if "sent v' = sent w @ [(p, a)]" for v'
    by (rule wp_mono [OF Suc.IH]) (rule frames_out_step [where sent = sent, OF that])
  show ?case
    by (auto simp: wp_simps intro!: wp_Sendto [OF K] frames_out_err frames_out_one step wp_keeps [OF sl])
qed

definition garp_frame :: "mac \<Rightarrow> ip \<Rightarrow> nat \<Rightarrow> bytes \<times> sockaddr" where
  "garp_frame m p idx = (buildGratuitousARP m p, \<lparr>sa_protocol = htons ETH_P_ARP, sa_ifindex = idx\<rparr>)"

lemma wp_SendGratuitousARP:
  assumes K: "sendto_spec K sent"
  shows "wp (SendGratuitousARP K ifn p m n) (\<lambda>r w'.
     sent w' = sent w \<and> is_err r \<or> (\<exists>idx. frames_out sent w (garp_frame m p idx) n r w')) w"
proof -
  have k: "keeps sent (InterfaceByName K ifn)" "keeps sent (Socket K (htons ETH_P_ARP))"
    "\<And>fd. keeps sent (CloseFd K fd)"
    using K by (simp_all add: sendto_spec_def)
  have loop: "wp (garp_loop K fd (buildGratuitousARP m p)
      \<lparr>sa_protocol = htons ETH_P_ARP, sa_ifindex = idx\<rparr> 0 n)
      (\<lambda>r. wp (CloseFd K fd) (\<lambda>_ w'. sent w' = sent w \<and> is_err r \<or>
          (\<exists>idx. frames_out sent w (garp_frame m p idx) n r w'))) v"
    if v: "sent v = sent w" for fd idx v
  proof (rule wp_mono [OF wp_garp_loop [OF K]], rule wp_keeps [OF k(3)])
    fix r w1 w2
    assume "frames_out sent v (buildGratuitousARP m p, \<lparr>sa_protocol = htons ETH_P_ARP, sa_ifindex = idx\<rparr>) n r w1"
      and "sent w2 = sent w1"
    with v have "frames_out sent w (garp_frame m p idx) n r w2"
      by (simp add: garp_frame_def frames_out_def)
    then show "sent w2 = sent w \<and> is_err r \<or> (\<exists>idx. frames_out sent w (garp_frame m p idx) n r w2)"
      by blast
  qed
  show ?thesis
    unfolding SendGratuitousARP_def Let_def
    by (auto simp: wp_bind wp_return split: sum.splits
        intro!: wp_keeps [OF k(1)] wp_keeps [OF k(2)] loop)
qed

subsection \<open>Properties\<close>

lemma sim_sendto: "sendto_spec sim_K sim_sent"
  by (auto simp: sendto_spec_def sim_defs keeps_def wp_simps) (auto simp: wp_def)

text \<open>C27: The 42 bytes of the gratuitous ARP frame are, field for field, an Ethernet broadcast that
  announces the address to the segment: an ARP request for IPv4 over Ethernet whose sender is the
  interface and whose sender and target protocol addresses are both the leased address.\<close>

theorem garp_frame_is_announcement:
  assumes "length m = 6" and "To4 p \<noteq> []"
  shows "buildGratuitousARP m p = arp_announcement m (To4 p)"
  using assms by (rule buildGratuitousARP_layout)

theorem garp_frame_is_announcement_witness:
  "buildGratuitousARP [2, 0, 0, 0, 0, 1] (IPv4 203 0 113 7) =
     arp_announcement [2, 0, 0, 0, 0, 1] [203, 0, 113, 7]"
  using garp_frame_is_announcement [of "[2, 0, 0, 0, 0, 1]" "IPv4 203 0 113 7"]
  by (simp add: IPv4_def To4_def v4_in_v6_prefix_def)

text \<open>Sending announcements puts copies of one and the same frame on the wire, addressed to the
  interface's index with the ARP protocol: all of them when there is no error, fewer when sending
  failed on the way, none when the interface or the socket could not be opened.\<close>

theorem garp_sends_all:
  assumes "sendto_spec K sent"
  shows "wp (SendGratuitousARP K ifaceName p m count) (\<lambda>r w'.
     (is_err r \<and> sent w' = sent w) \<or> (\<exists>idx. frames_out sent w (garp_frame m p idx) count r w')) w"
  using wp_SendGratuitousARP [OF assms] by (rule wp_mono) auto

theorem garp_sends_all_witness:
  "wp (SendGratuitousARP sim_K ''wan0'' (IPv4 203 0 113 7) [2, 0, 0, 0, 0, 1] 3) (\<lambda>r w'.
     (is_err r \<and> sim_sent w' = sim_sent sim_init) \<or>
     (\<exists>idx. frames_out sim_sent sim_init (garp_frame [2, 0, 0, 0, 0, 1] (IPv4 203 0 113 7) idx) 3 r w')) sim_init"
  by (rule garp_sends_all [OF sim_sendto])

end
