(* ===== verification/NetConfig.thy ===== *)
theory NetConfig
  imports SimWorld
begin

text \<open>
  \<^verbatim>\<open>internal/agent/network/config.go\<close>: the macvlan interface and its kernel settings. Each function
  is the program of its calls, in the code's order and with its early returns. Under
  \<open>netlink_spec\<close> the theorems say what each leaves in the kernel's table of links, on success and
  on every error path.
\<close>

definition conf_path :: "string \<Rightarrow> string \<Rightarrow> string" where
  "conf_path ifaceName leaf = ''/proc/sys/net/ipv4/conf/'' @ ifaceName @ ''/'' @ leaf"

definition SetupInterface :: "'w kernel_ops \<Rightarrow> string \<Rightarrow> ip \<Rightarrow> bytes \<Rightarrow> ('w, unit result) state" where
  "SetupInterface K ifaceName p subnetMask = do {
     lk \<leftarrow> LinkByName K ifaceName;
     (case lk of
        Inl e \<Rightarrow> ret (Inl (wrapf ''failed to get interface'' (link_error_msg e)))
      | Inr l \<Rightarrow> do {
          r \<leftarrow> WriteSys K (conf_path ifaceName ''proxy_arp'') ''1'';
          (case r of
             Inl e \<Rightarrow> ret (Inl (wrapf ''failed to enable proxy ARP'' (os_error_msg e)))
           | Inr _ \<Rightarrow> do {
               r \<leftarrow> NeighSet K \<lparr>neigh_link = link_index l, neigh_ip = p\<rparr>;
               (case r of
                  Inl e \<Rightarrow> ret (Inl (wrapf ''failed to add neighbor proxy'' e))
                | Inr _ \<Rightarrow> do {
                    r \<leftarrow> WriteSys K (conf_path ifaceName ''rp_filter'') ''0'';
                    (case r of
                       Inl e \<Rightarrow> ret (Inl (wrapf ''failed to disable rp_filter'' (os_error_msg e)))
                     | Inr _ \<Rightarrow> ret (Inr ()))
                  })
             })
        })
   }"

text \<open>An error the cleanup tolerates is one that says the thing is already gone.\<close>

definition tolerate_not_exist :: "string \<Rightarrow> os_error + unit \<Rightarrow> unit result" where
  "tolerate_not_exist ctx r = (case r of
      Inr _ \<Rightarrow> Inr () | Inl (NotExist _) \<Rightarrow> Inr () | Inl (OsOther m) \<Rightarrow> Inl (wrapf ctx m))"

definition CleanupInterface :: "'w kernel_ops \<Rightarrow> string \<Rightarrow> ip \<Rightarrow> ('w, unit result) state" where
  "CleanupInterface K ifaceName p = do {
     lk \<leftarrow> LinkByName K ifaceName;
     (case lk of
        Inl (LinkNotFound _) \<Rightarrow> ret (Inr ())
      | Inl (LinkOther m) \<Rightarrow> ret (Inl (wrapf ''failed to get interface'' m))
      | Inr l \<Rightarrow> do {
          r \<leftarrow> NeighDel K \<lparr>neigh_link = link_index l, neigh_ip = p\<rparr>;
          (case tolerate_not_exist ''failed to remove neighbor proxy'' r of
             Inl e \<Rightarrow> ret (Inl e)
           | Inr _ \<Rightarrow> do {
               r \<leftarrow> WriteSys K (conf_path ifaceName ''proxy_arp'') ''0'';
               (case tolerate_not_exist ''failed to disable proxy ARP'' r of
                  Inl e \<Rightarrow> ret (Inl e)
                | Inr _ \<Rightarrow> do {
                    r \<leftarrow> WriteSys K (conf_path ifaceName ''rp_filter'') ''1'';
                    ret (tolerate_not_exist ''failed to re-enable rp_filter'' r)
                  })
             })
        })
   }"

definition CreateMacvlan :: "'w kernel_ops \<Rightarrow> string \<Rightarrow> string \<Rightarrow> mac \<Rightarrow> ('w, unit result) state" where
  "CreateMacvlan K ifaceName parentIface m = do {
     parent \<leftarrow> LinkByName K parentIface;
     (case parent of
        Inl e \<Rightarrow> ret (Inl (wrapf (''failed to get parent interface '' @ parentIface) (link_error_msg e)))
      | Inr parent \<Rightarrow> do {
          existing \<leftarrow> LinkByName K ifaceName;
          (case existing of
             Inr _ \<Rightarrow> ret (Inl (''interface '' @ ifaceName @ '' already exists''))
           | Inl _ \<Rightarrow> do {
               r \<leftarrow> LinkAdd K \<lparr>mv_name = ifaceName, mv_parent = link_index parent, mv_mac = m\<rparr>;
               (case r of
                  Inl e \<Rightarrow> ret (Inl (wrapf ''failed to create macvlan interface'' e))
                | Inr _ \<Rightarrow> do {
                    r \<leftarrow> LinkSetUp K ifaceName;
                    (case r of
                       Inl e \<Rightarrow> do {
                         _ \<leftarrow> LinkDel K ifaceName;
                         ret (Inl (wrapf ''failed to bring interface up'' e))
                       }
                     | Inr _ \<Rightarrow> ret (Inr ()))
                  })
             })
        })
   }"

definition DeleteMacvlan :: "'w kernel_ops \<Rightarrow> string \<Rightarrow> ('w, unit result) state" where
  "DeleteMacvlan K ifaceName = do {
     lk \<leftarrow> LinkByName K ifaceName;
     (case lk of
        Inl (LinkNotFound _) \<Rightarrow> ret (Inr ())
      | Inl (LinkOther m) \<Rightarrow> ret (Inl (wrapf ''failed to get interface'' m))
      | Inr l \<Rightarrow> do {
          r \<leftarrow> LinkDel K (link_name l);
          (case r of
             Inl e \<Rightarrow> ret (Inl (wrapf ''failed to delete interface'' e))
           | Inr _ \<Rightarrow> ret (Inr ()))
        })
   }"

subsection \<open>Calls under the netlink contract\<close>

lemma wp_LinkByName:
  assumes "netlink_spec K links"
    and "\<And>m w'. links w' = links w \<Longrightarrow> n \<notin> links w \<Longrightarrow> Q (Inl (LinkNotFound m)) w'"
    and "\<And>m w'. links w' = links w \<Longrightarrow> Q (Inl (LinkOther m)) w'"
    and "\<And>l w'. links w' = links w \<Longrightarrow> n \<in> links w \<Longrightarrow> link_name l = n \<Longrightarrow> Q (Inr l) w'"
  shows "wp (LinkByName K n) Q w"
proof -
  have "wp (LinkByName K n) (\<lambda>r w'. links w' = links w \<and>
        (case r of Inl (LinkNotFound _) \<Rightarrow> n \<notin> links w
                 | Inl (LinkOther _) \<Rightarrow> True
                 | Inr l \<Rightarrow> n \<in> links w \<and> link_name l = n)) w"
    using assms(1) by (simp add: netlink_spec_def)
  then show ?thesis
    by (rule wp_mono) (use assms(2-4) in \<open>auto split: sum.splits link_error.splits\<close>)
qed

lemma wp_LinkAdd:
  assumes "netlink_spec K links"
    and "\<And>e w'. links w' = links w \<Longrightarrow> Q (Inl e) w'"
    and "\<And>w'. links w' = insert (mv_name m) (links w) \<Longrightarrow> Q (Inr ()) w'"
  shows "wp (LinkAdd K m) Q w"
proof -
  have "wp (LinkAdd K m) (\<lambda>r w'.
      links w' = (if is_err r then links w else insert (mv_name m) (links w))) w"
    using assms(1) by (simp add: netlink_spec_def)
  then show ?thesis by (rule wp_mono) (use assms(2,3) in \<open>auto elim: not_is_errE simp: is_err_def split: sum.splits if_splits\<close>)
qed

lemma wp_LinkDel:
  assumes "netlink_spec K links"
    and "\<And>e w'. links w' = links w \<Longrightarrow> Q (Inl e) w'"
    and "\<And>w'. links w' = links w - {n} \<Longrightarrow> Q (Inr ()) w'"
  shows "wp (LinkDel K n) Q w"
proof -
  have "wp (LinkDel K n) (\<lambda>r w'. links w' = (if is_err r then links w else links w - {n})) w"
    using assms(1) by (simp add: netlink_spec_def)
  then show ?thesis by (rule wp_mono) (use assms(2,3) in \<open>auto simp: is_err_def split: sum.splits if_splits\<close>)
qed

lemma netlink_keeps:
  assumes "netlink_spec K links"
  shows "keeps links (LinkSetUp K n)" "keeps links (NeighSet K g)" "keeps links (NeighDel K g)"
    "keeps links (WriteSys K p s)" "keeps links (InterfaceByName K n)" "keeps links (Socket K pr)"
    "keeps links (Sendto K fd b a)" "keeps links (CloseFd K fd)" "keeps links (Sleep_ms K t)"
  using assms by (simp_all add: netlink_spec_def)

lemma keeps_LinkByName: "netlink_spec K links \<Longrightarrow> keeps links (LinkByName K n)"
  unfolding keeps_def by (auto intro!: wp_LinkByName [where links = links])

subsection \<open>What the functions leave in the table of links\<close>

lemma keeps_SetupInterface: "netlink_spec K links \<Longrightarrow> keeps links (SetupInterface K n p m)"
  unfolding SetupInterface_def
  by (intro keeps_intros keeps_LinkByName netlink_keeps)

lemma keeps_CleanupInterface: "netlink_spec K links \<Longrightarrow> keeps links (CleanupInterface K n p)"
  unfolding CleanupInterface_def
  by (intro keeps_intros keeps_LinkByName netlink_keeps)

text \<open>Creation: success means the name is now there; an error leaves the table as it was, except
  that a link whose start failed stays when deleting it failed too. A link of that name that
  existed before is found, so it is never replaced.\<close>

lemma wp_CreateMacvlan:
  assumes K: "netlink_spec K links"
  shows "wp (CreateMacvlan K n parent m) (\<lambda>r w'.
     if is_err r then links w' \<in> {links w, links w - {n}, insert n (links w)}
     else links w' = insert n (links w)) w"
  unfolding CreateMacvlan_def
  by (auto simp: wp_simps intro!: wp_LinkByName [OF K] wp_LinkAdd [OF K] wp_LinkDel [OF K]
      wp_keeps [OF netlink_keeps(1) [OF K]] split: sum.splits)

lemma wp_DeleteMacvlan:
  assumes K: "netlink_spec K links"
  shows "wp (DeleteMacvlan K n) (\<lambda>r w'.
     links w' = (if is_err r then links w else links w - {n})) w"
  unfolding DeleteMacvlan_def
  by (auto simp: wp_simps intro!: wp_LinkByName [OF K] wp_LinkDel [OF K])

text \<open>Where lookups and deletions are reliable, a failed creation changes nothing and a deletion
  leaves the name free.\<close>

lemma wp_LinkByName_reliable:
  assumes "netlink_spec K links" "netlink_reliable K links"
    and "\<And>m w'. links w' = links w \<Longrightarrow> n \<notin> links w \<Longrightarrow> Q (Inl m) w'"
    and "\<And>l w'. links w' = links w \<Longrightarrow> n \<in> links w \<Longrightarrow> link_name l = n \<Longrightarrow> Q (Inr l) w'"
  shows "wp (LinkByName K n) Q w"
proof (rule wpI)
  fix r w'
  assume run: "run_state (LinkByName K n) w = (r, w')"
  have spec: "wp (LinkByName K n) (\<lambda>r w'. links w' = links w \<and>
        (case r of Inl (LinkNotFound _) \<Rightarrow> n \<notin> links w
                 | Inl (LinkOther _) \<Rightarrow> True
                 | Inr l \<Rightarrow> n \<in> links w \<and> link_name l = n)) w"
    using assms(1) by (simp add: netlink_spec_def)
  have "n \<in> links w \<Longrightarrow> wp (LinkByName K n) (\<lambda>r _. \<not> is_err r) w"
    using assms(2) by (simp add: netlink_reliable_def)
  from wpD [OF this run] wpD [OF spec run] show "Q r w'"
    by (cases r) (auto intro: assms(3,4))
qed

lemma wp_LinkDel_reliable:
  assumes "netlink_spec K links" "netlink_reliable K links" "n \<in> links w"
    and "\<And>w'. links w' = links w - {n} \<Longrightarrow> Q (Inr ()) w'"
  shows "wp (LinkDel K n) Q w"
proof (rule wpI)
  fix r w'
  assume run: "run_state (LinkDel K n) w = (r, w')"
  have "wp (LinkDel K n) (\<lambda>r w'. links w' = (if is_err r then links w else links w - {n})) w"
    using assms(1) by (simp add: netlink_spec_def)
  moreover have "wp (LinkDel K n) (\<lambda>r _. \<not> is_err r) w"
    using assms(2,3) by (simp add: netlink_reliable_def)
  ultimately show "Q r w'"
    using run by (cases r) (auto dest!: wpD intro: assms(4))
qed

lemma wp_CreateMacvlan_reliable:
  assumes K: "netlink_spec K links" "netlink_reliable K links"
  shows "wp (CreateMacvlan K n parent m) (\<lambda>r w'.
     if is_err r then links w' = links w else n \<notin> links w \<and> links w' = insert n (links w)) w"
  unfolding CreateMacvlan_def
  by (auto simp: wp_simps intro!: wp_LinkByName_reliable [OF K] wp_LinkAdd [OF K(1)]
      wp_LinkDel_reliable [OF K] wp_keeps [OF netlink_keeps(1) [OF K(1)]] split: sum.splits)

lemma wp_DeleteMacvlan_reliable:
  assumes K: "netlink_spec K links" "netlink_reliable K links"
  shows "wp (DeleteMacvlan K n) (\<lambda>_ w'. links w' = links w - {n}) w"
  unfolding DeleteMacvlan_def
  by (auto simp: wp_simps intro!: wp_LinkByName_reliable [OF K] wp_LinkDel_reliable [OF K]
      split: link_error.splits)

subsection \<open>Properties\<close>

text \<open>Creating the macvlan interface either succeeds, on a name that was free and that exists
  afterwards, or fails and leaves the kernel's table of links as it was, on every error path: a link
  that could be added but not brought up is deleted again.\<close>

theorem create_macvlan_all_or_nothing:
  assumes "netlink_spec K links" and "netlink_reliable K links"
  shows "wp (CreateMacvlan K ifaceName parentIface m) (\<lambda>r w'.
     if is_err r then links w' = links w
     else ifaceName \<notin> links w \<and> links w' = insert ifaceName (links w)) w"
  using assms by (rule wp_CreateMacvlan_reliable)

theorem create_macvlan_all_or_nothing_witness:
  "wp (CreateMacvlan sim_K ''wan0'' ''eth8'' [2, 0, 0, 0, 0, 1]) (\<lambda>r w'.
     if is_err r then sim_linkset w' = sim_linkset sim_init
     else ''wan0'' \<notin> sim_linkset sim_init \<and> sim_linkset w' = insert ''wan0'' (sim_linkset sim_init)) sim_init"
  by (rule create_macvlan_all_or_nothing [OF sim_netlink sim_reliable])

end
