(* ===== verification/Agent.thy ===== *)
theory Agent
  imports Lease AgentApi Dhcp Garp NetConfig "HOL-Library.Multiset"
begin

text \<open>
  \<^verbatim>\<open>internal/agent/agent.go\<close>: the router agent. Its state is the lease store, the renewal
  goroutines that run and the map \<^verbatim>\<open>renewalCancels\<close> from interfaces to the goroutine that a cancel
  stops. A handler is a program over that state, from the request's body to the response; the
  kernel, the DHCP library and the clock are the parameters of \<open>agent_env\<close>, reached through
  \<open>on_world\<close>.

  A renewal goroutine is a \<open>renewal_loop\<close>: its lease, its next backoff, the delay its timer was
  last set to and whether its context is cancelled. \<open>renewal_tick\<close> is one expiry of the timer,
  \<open>renewal_exit\<close> what the goroutine does when it sees its context cancelled. A \<^verbatim>\<open>context\<close> that ends
  during a DHCP exchange shows as an error of that exchange. Log lines are not modelled.
\<close>

record renewal_loop =
  rl_lease :: lease
  rl_backoff :: int
  rl_timer :: int
  rl_cancelled :: bool

record 'w agent =
  ag_store :: store
  ag_cancels :: "(string \<times> nat) list"
  ag_loops :: "(nat \<times> renewal_loop) list"
  ag_next :: nat
  ag_shutdown :: bool
  ag_world :: 'w

record ('p, 'w) agent_env =
  env_K :: "'w kernel_ops"
  env_D :: "('p, 'w) dhcp_lib"
  env_G :: golib
  env_Now :: "('w, int) state"
  env_perm :: "(string \<times> lease) list \<Rightarrow> (string \<times> lease) list"

definition on_store :: "(store, 'a) state \<Rightarrow> ('w agent, 'a) state" where
  "on_store = zoom ag_store (\<lambda>s a. a\<lparr>ag_store := s\<rparr>)"

definition on_world :: "('w, 'a) state \<Rightarrow> ('w agent, 'a) state" where
  "on_world = zoom ag_world (\<lambda>w a. a\<lparr>ag_world := w\<rparr>)"

text \<open>\<^verbatim>\<open>New\<close>, on the disk and world it finds.\<close>

definition New :: "golib \<Rightarrow> string \<Rightarrow> string \<Rightarrow> disk \<Rightarrow> 'w \<Rightarrow> 'w agent result" where
  "New G stateDir stateFile d w = (case NewStore G stateDir stateFile d of
      Inl e \<Rightarrow> Inl (wrapf ''failed to create lease store'' e)
    | Inr s \<Rightarrow> Inr \<lparr>ag_store = s, ag_cancels = [], ag_loops = [], ag_next = 0,
        ag_shutdown = False, ag_world = w\<rparr>)"

subsection \<open>Renewal goroutines\<close>

definition stopRenewalLoop :: "string \<Rightarrow> ('w agent, unit) state" where
  "stopRenewalLoop iface = modify (\<lambda>a. case map_of (ag_cancels a) iface of
      None \<Rightarrow> a
    | Some g \<Rightarrow> a\<lparr>ag_loops := AList.map_entry g (\<lambda>rl. rl\<lparr>rl_cancelled := True\<rparr>) (ag_loops a),
                  ag_cancels := AList.delete iface (ag_cancels a)\<rparr>)"

definition maxBackoff :: int where
  "maxBackoff = 15 * minute"

definition startRenewalLoop :: "lease \<Rightarrow> ('w agent, unit) state" where
  "startRenewalLoop l = modify (\<lambda>a. a\<lparr>
      ag_cancels := AList.update (ls_Interface l) (ag_next a) (ag_cancels a),
      ag_loops := (ag_next a, \<lparr>rl_lease = l, rl_backoff = minute,
          rl_timer = ls_LeaseTime l sdiv 2, rl_cancelled = False\<rparr>) # ag_loops a,
      ag_next := Suc (ag_next a)\<rparr>)"

text \<open>The doubling of \<^verbatim>\<open>backoff\<close> after a failed attempt.\<close>

definition next_backoff :: "int \<Rightarrow> int" where
  "next_backoff backoff =
     (let backoff = wrap64 (backoff * 2) in if backoff > maxBackoff then maxBackoff else backoff)"

text \<open>The fields that \<^verbatim>\<open>renewLease\<close>, \<^verbatim>\<open>rebindLease\<close> and \<^verbatim>\<open>verifyLeases\<close> take from a renewal; the
  address of the lease is not among them.\<close>

definition renewed :: "('p, 'w) dhcp_lib \<Rightarrow> int \<Rightarrow> 'p lease_info \<Rightarrow> lease \<Rightarrow> lease" where
  "renewed D now li l = l\<lparr>
     ls_ExpiresAt := now + li_LeaseTime li,
     ls_LeaseTime := li_LeaseTime li,
     ls_RenewalCount := wrap64 (ls_RenewalCount l + 1),
     ls_Status := StatusActive,
     ls_DHCPOffer := (case li_Offer li of Some p \<Rightarrow> dhcpv4_ToBytes D p | None \<Rightarrow> ls_DHCPOffer l),
     ls_DHCPAck := (case li_ACK li of Some p \<Rightarrow> dhcpv4_ToBytes D p | None \<Rightarrow> ls_DHCPAck l)\<rparr>"

text \<open>Both return the lease as the mutated pointer leaves it.\<close>

definition renewLease :: "('p, 'w) agent_env \<Rightarrow> lease \<Rightarrow> ('w agent, unit result \<times> lease) state" where
  "renewLease E l = do {
     r \<leftarrow> on_world (RenewLease (env_D E) (NewClient (ls_Interface l) (ls_MACAddress l))
            (ls_IPAddress l) (ls_DHCPServerIP l) (ls_DHCPOffer l) (ls_DHCPAck l));
     (case r of
        Inl e \<Rightarrow> ret (Inl e, l)
      | Inr li \<Rightarrow> do {
          now \<leftarrow> on_world (env_Now E);
          let l = renewed (env_D E) now li l;
          r \<leftarrow> on_store (Set (env_G E) l);
          ret (r, l)
        })
   }"

definition rebindLease :: "('p, 'w) agent_env \<Rightarrow> lease \<Rightarrow> ('w agent, unit result \<times> lease) state" where
  "rebindLease E l = do {
     r \<leftarrow> on_world (RebindLease (env_D E) (NewClient (ls_Interface l) (ls_MACAddress l)) (ls_IPAddress l));
     (case r of
        Inl e \<Rightarrow> ret (Inl e, l)
      | Inr li \<Rightarrow> do {
          now \<leftarrow> on_world (env_Now E);
          let l = (renewed (env_D E) now li l)\<lparr>ls_DHCPServerIP := li_DHCPServerIP li\<rparr>;
          r \<leftarrow> on_store (Set (env_G E) l);
          ret (r, l)
        })
   }"

text \<open>The arm \<^verbatim>\<open>case <-timer.C\<close> of the loop: RENEW, else REBIND; \<open>renewal_finish\<close> is what follows
  the last attempt: stale and back off, or reset the backoff and the timer.\<close>

definition renewal_finish :: "('p, 'w) agent_env \<Rightarrow> renewal_loop \<Rightarrow> unit result \<times> lease \<Rightarrow> ('w agent, renewal_loop) state" where
  "renewal_finish E rl rr = (case rr of (r, l) \<Rightarrow> (case r of
        Inl _ \<Rightarrow> do {
          let l = l\<lparr>ls_Status := StatusStale\<rparr>;
          _ \<leftarrow> on_store (Set (env_G E) l);
          ret (rl\<lparr>rl_lease := l, rl_timer := rl_backoff rl, rl_backoff := next_backoff (rl_backoff rl)\<rparr>)
        }
      | Inr _ \<Rightarrow>
          ret (rl\<lparr>rl_lease := l, rl_backoff := minute, rl_timer := ls_LeaseTime l sdiv 2\<rparr>)))"

definition renewal_body :: "('p, 'w) agent_env \<Rightarrow> renewal_loop \<Rightarrow> ('w agent, renewal_loop) state" where
  "renewal_body E rl = do {
     rr \<leftarrow> renewLease E (rl_lease rl);
     rr \<leftarrow> (case rr of (Inr _, _) \<Rightarrow> ret rr | (Inl _, l) \<Rightarrow> rebindLease E l);
     renewal_finish E rl rr
   }"

text \<open>One turn of goroutine \<open>g\<close>'s loop when its timer fires.\<close>

definition renewal_tick :: "('p, 'w) agent_env \<Rightarrow> nat \<Rightarrow> ('w agent, unit) state" where
  "renewal_tick E g = do {
     loops \<leftarrow> gets ag_loops;
     (case map_of loops g of
        None \<Rightarrow> ret ()
      | Some rl \<Rightarrow> do {
          rl' \<leftarrow> renewal_body E rl;
          modify (\<lambda>a. a\<lparr>ag_loops := AList.map_entry g
             (\<lambda>old. rl'\<lparr>rl_cancelled := rl_cancelled old\<rparr>) (ag_loops a)\<rparr>)
        })
   }"

text \<open>The arm \<^verbatim>\<open>case <-renewalCtx.Done()\<close>: the deferred functions delete the interface's entry of
  \<^verbatim>\<open>renewalCancels\<close>, whoever put it there, and the goroutine is gone.\<close>

definition renewal_exit :: "nat \<Rightarrow> ('w agent, unit) state" where
  "renewal_exit g = modify (\<lambda>a. case map_of (ag_loops a) g of
      None \<Rightarrow> a
    | Some rl \<Rightarrow> a\<lparr>ag_cancels := AList.delete (ls_Interface (rl_lease rl)) (ag_cancels a),
                   ag_loops := AList.delete g (ag_loops a)\<rparr>)"

subsection \<open>Allocation and release\<close>

text \<open>Steps 2 to 6 of \<^verbatim>\<open>allocateLease\<close>, after the macvlan interface exists.\<close>

definition new_lease :: "('p, 'w) dhcp_lib \<Rightarrow> string \<Rightarrow> string \<Rightarrow> mac \<Rightarrow> 'p lease_info \<Rightarrow> int \<Rightarrow> int \<Rightarrow> lease" where
  "new_lease D iface wanParent m li now created = \<lparr>
     ls_Interface = iface, ls_WanParent = wanParent,
     ls_IPAddress = li_IPAddress li, ls_DHCPServerIP = li_DHCPServerIP li,
     ls_MACAddress = m, ls_ExpiresAt = now + li_LeaseTime li, ls_LeaseTime = li_LeaseTime li,
     ls_RenewalCount = 0, ls_Status = StatusActive, ls_InterfaceExists = True,
     ls_CreatedAt = created,
     ls_DHCPOffer = (case li_Offer li of Some p \<Rightarrow> dhcpv4_ToBytes D p | None \<Rightarrow> []),
     ls_DHCPAck = (case li_ACK li of Some p \<Rightarrow> dhcpv4_ToBytes D p | None \<Rightarrow> [])\<rparr>"

definition allocate_steps ::
  "('p, 'w) agent_env \<Rightarrow> string \<Rightarrow> string \<Rightarrow> mac \<Rightarrow> ('w agent, lease result) state" where
  "allocate_steps E iface wanParent m = do {
     r \<leftarrow> on_world (AcquireLease (env_D E) (NewClient iface m));
     (case r of
        Inl e \<Rightarrow> ret (Inl (wrapf ''failed to acquire DHCP lease'' e))
      | Inr li \<Rightarrow> do {
          r \<leftarrow> on_world (SendGratuitousARP (env_K E) iface (li_IPAddress li) m 3);
          (case r of
             Inl e \<Rightarrow> ret (Inl (wrapf ''gratuitous ARP failed'' e))
           | Inr _ \<Rightarrow> do {
               r \<leftarrow> on_world (SetupInterface (env_K E) iface (li_IPAddress li) (li_SubnetMask li));
               (case r of
                  Inl e \<Rightarrow> ret (Inl (wrapf ''network setup failed'' e))
                | Inr _ \<Rightarrow> do {
                    now \<leftarrow> on_world (env_Now E);
                    created \<leftarrow> on_world (env_Now E);
                    let l = new_lease (env_D E) iface wanParent m li now created;
                    r \<leftarrow> on_store (Set (env_G E) l);
                    (case r of
                       Inl e \<Rightarrow> ret (Inl (wrapf ''failed to save lease'' e))
                     | Inr _ \<Rightarrow> do {
                         _ \<leftarrow> startRenewalLoop l;
                         ret (Inr l)
                       })
                  })
             })
        })
   }"

text \<open>Every return before \<^verbatim>\<open>success = true\<close> is an error: the deferred deletion runs exactly then.\<close>

definition allocateLease ::
  "('p, 'w) agent_env \<Rightarrow> string \<Rightarrow> string \<Rightarrow> mac \<Rightarrow> ('w agent, lease result) state" where
  "allocateLease E iface wanParent m = do {
     r \<leftarrow> on_world (CreateMacvlan (env_K E) iface wanParent m);
     (case r of
        Inl e \<Rightarrow> ret (Inl (wrapf ''failed to create macvlan'' e))
      | Inr _ \<Rightarrow> do {
          r \<leftarrow> allocate_steps E iface wanParent m;
          (if is_err r
           then do { _ \<leftarrow> on_world (DeleteMacvlan (env_K E) iface); ret r }
           else ret r)
        })
   }"

definition releaseLease :: "('p, 'w) agent_env \<Rightarrow> lease \<Rightarrow> ('w agent, unit result) state" where
  "releaseLease E l = do {
     _ \<leftarrow> stopRenewalLoop (ls_Interface l);
     _ \<leftarrow> on_world (ReleaseLease (env_D E) (NewClient (ls_Interface l) (ls_MACAddress l))
            (ls_IPAddress l) (ls_DHCPServerIP l));
     _ \<leftarrow> on_world (CleanupInterface (env_K E) (ls_Interface l) (ls_IPAddress l));
     _ \<leftarrow> on_world (DeleteMacvlan (env_K E) (ls_Interface l));
     r \<leftarrow> on_store (Delete (env_G E) (ls_Interface l));
     (case r of
        Inl e \<Rightarrow> ret (Inl (wrapf ''failed to delete lease from store'' e))
      | Inr _ \<Rightarrow> ret (Inr ()))
   }"

subsection \<open>HTTP handlers\<close>

definition sendError :: "int \<Rightarrow> string \<Rightarrow> response" where
  "sendError code message = \<lparr>resp_status = code,
     resp_body = Doc (ErrorResponse_json \<lparr>er_Error = message\<rparr>)\<rparr>"

definition busy_response :: "string \<Rightarrow> response" where
  "busy_response iface = sendError StatusConflict (''operation already in progress for interface '' @ iface)"

text \<open>What \<^verbatim>\<open>handleAllocateLease\<close> does while it holds the interface's lock.\<close>

definition allocate_locked :: "('p, 'w) agent_env \<Rightarrow> LeaseRequest \<Rightarrow> mac \<Rightarrow> ('w agent, response) state" where
  "allocate_locked E req m = do {
     existing \<leftarrow> gets (\<lambda>a. Get (rq_Interface req) (ag_store a));
     (case existing of
        Some _ \<Rightarrow> ret (sendError StatusConflict
            (''interface '' @ rq_Interface req @ '' already has active lease''))
      | None \<Rightarrow> do {
          r \<leftarrow> allocateLease E (rq_Interface req) (rq_WanParent req) m;
          (case r of
             Inl e \<Rightarrow> ret (sendError StatusServiceUnavailable (wrapf ''failed to allocate lease'' e))
           | Inr l \<Rightarrow> ret \<lparr>resp_status = StatusCreated,
               resp_body = Doc (LeaseResponse_json (env_G E)
                 \<lparr>rs_IPAddress = IP_String (ls_IPAddress l), rs_ExpiresAt = ls_ExpiresAt l\<rparr>)\<rparr>)
        })
   }"

definition handleAllocateLease :: "('p, 'w) agent_env \<Rightarrow> content \<Rightarrow> ('w agent, response) state" where
  "handleAllocateLease E body =
     (case LeaseRequest_decode body of
        None \<Rightarrow> ret (sendError StatusBadRequest (wrapf ''invalid request body'' (json_error (env_G E) body)))
      | Some req \<Rightarrow>
          if rq_Interface req = [] \<or> rq_WanParent req = [] \<or> rq_MACAddress req = []
          then ret (sendError StatusBadRequest ''interface, wanParent, and macAddress are required'')
          else (case ParseMAC (rq_MACAddress req) of
             None \<Rightarrow> ret (sendError StatusBadRequest (wrapf ''invalid MAC address''
                 (''address '' @ rq_MACAddress req @ '': invalid MAC address'')))
           | Some m \<Rightarrow> do {
               ok \<leftarrow> on_store (AcquireInflight (rq_Interface req));
               (if \<not> ok then ret (busy_response (rq_Interface req))
                else do {
                  r \<leftarrow> allocate_locked E req m;
                  _ \<leftarrow> on_store (ReleaseInflight (rq_Interface req));
                  ret r
                })
             }))"

definition lease_status :: "lease \<Rightarrow> LeaseStatus" where
  "lease_status l = \<lparr>lst_IPAddress = IP_String (ls_IPAddress l), lst_ExpiresAt = ls_ExpiresAt l,
     lst_RenewalCount = ls_RenewalCount l, lst_Status = ls_Status l,
     lst_InterfaceExists = ls_InterfaceExists l\<rparr>"

definition handleListLeases :: "('p, 'w) agent_env \<Rightarrow> ('w agent, response) state" where
  "handleListLeases E = do {
     leases \<leftarrow> gets (\<lambda>a. List (env_perm E) (ag_store a));
     ret \<lparr>resp_status = StatusOK, resp_body = Doc (LeaseListResponse_json (env_G E)
            \<lparr>ll_Leases = map lease_status leases\<rparr>)\<rparr>
   }"

definition not_found_response :: "string \<Rightarrow> response" where
  "not_found_response iface = sendError StatusNotFound (''lease not found: '' @ iface)"

definition handleGetLease :: "('p, 'w) agent_env \<Rightarrow> string \<Rightarrow> ('w agent, response) state" where
  "handleGetLease E iface = do {
     l \<leftarrow> gets (\<lambda>a. Get iface (ag_store a));
     (case l of
        None \<Rightarrow> ret (not_found_response iface)
      | Some l \<Rightarrow> ret \<lparr>resp_status = StatusOK,
            resp_body = Doc (LeaseStatus_json (env_G E) (lease_status l))\<rparr>)
   }"

definition release_locked :: "('p, 'w) agent_env \<Rightarrow> string \<Rightarrow> ('w agent, response) state" where
  "release_locked E iface = do {
     l \<leftarrow> gets (\<lambda>a. Get iface (ag_store a));
     (case l of
        None \<Rightarrow> ret (not_found_response iface)
      | Some l \<Rightarrow> do {
          r \<leftarrow> releaseLease E l;
          (case r of
             Inl e \<Rightarrow> ret (sendError StatusInternalServerError (wrapf ''failed to release lease'' e))
           | Inr _ \<Rightarrow> ret \<lparr>resp_status = StatusNoContent, resp_body = Torn\<rparr>)
        })
   }"

definition handleReleaseLease :: "('p, 'w) agent_env \<Rightarrow> string \<Rightarrow> ('w agent, response) state" where
  "handleReleaseLease E iface = do {
     ok \<leftarrow> on_store (AcquireInflight iface);
     (if \<not> ok then ret (busy_response iface)
      else do {
        r \<leftarrow> release_locked E iface;
        _ \<leftarrow> on_store (ReleaseInflight iface);
        ret r
      })
   }"

definition handleHealth :: "('w agent, response) state" where
  "handleHealth = do {
     down \<leftarrow> gets ag_shutdown;
     ret \<lparr>resp_status = (if down then StatusServiceUnavailable else StatusOK), resp_body = Torn\<rparr>
   }"

subsection \<open>Start and shutdown\<close>

definition verifyLease :: "('p, 'w) agent_env \<Rightarrow> lease \<Rightarrow> ('w agent, unit) state" where
  "verifyLease E l = do {
     r \<leftarrow> on_world (VerifyInterfaceExists (env_K E) (ls_Interface l));
     (case r of
        Inl _ \<Rightarrow> ret ()
      | Inr False \<Rightarrow> do {
          _ \<leftarrow> on_store (Set (env_G E) (l\<lparr>ls_Status := StatusStale, ls_InterfaceExists := False\<rparr>));
          ret ()
        }
      | Inr True \<Rightarrow> do {
          let l = l\<lparr>ls_InterfaceExists := True\<rparr>;
          r \<leftarrow> on_world (RenewLease (env_D E) (NewClient (ls_Interface l) (ls_MACAddress l))
                 (ls_IPAddress l) (ls_DHCPServerIP l) (ls_DHCPOffer l) (ls_DHCPAck l));
          (case r of
             Inl _ \<Rightarrow> do {
               _ \<leftarrow> on_store (Set (env_G E) (l\<lparr>ls_Status := StatusStale\<rparr>));
               ret ()
             }
           | Inr li \<Rightarrow> do {
               now \<leftarrow> on_world (env_Now E);
               let l = renewed (env_D E) now li l;
               _ \<leftarrow> on_store (Set (env_G E) l);
               startRenewalLoop l
             })
        })
   }"

fun verify_all :: "('p, 'w) agent_env \<Rightarrow> lease list \<Rightarrow> ('w agent, unit) state" where
  "verify_all E [] = ret ()"
| "verify_all E (l # ls) = do { _ \<leftarrow> verifyLease E l; verify_all E ls }"

definition verifyLeases :: "('p, 'w) agent_env \<Rightarrow> ('w agent, unit) state" where
  "verifyLeases E = do {
     leases \<leftarrow> gets (\<lambda>a. List (env_perm E) (ag_store a));
     verify_all E leases
   }"

text \<open>\<^verbatim>\<open>Start\<close>: the server goroutine it leaves behind is the source of the handlers' calls.\<close>

definition Start :: "('p, 'w) agent_env \<Rightarrow> ('w agent, unit result) state" where
  "Start E = do { _ \<leftarrow> verifyLeases E; ret (Inr ()) }"

text \<open>\<^verbatim>\<open>Shutdown\<close> cancels the context that every renewal goroutine's context derives from, and then
  waits, at most 30 seconds, for the goroutines to exit.\<close>

definition Shutdown :: "('w agent, unit result) state" where
  "Shutdown = do {
     _ \<leftarrow> modify (\<lambda>a. a\<lparr>ag_shutdown := True\<rparr>);
     ret (Inr ())
   }"

subsection \<open>Running components inside the agent\<close>

lemma wp_on_world: "(\<And>x w. Q x (a\<lparr>ag_world := w\<rparr>)) \<Longrightarrow> wp (on_world m) Q a"
  by (simp add: on_world_def wp_zoom wp_any)

lemma wp_on_worldI:
  "wp m P (ag_world a) \<Longrightarrow> (\<And>x w. P x w \<Longrightarrow> Q x (a\<lparr>ag_world := w\<rparr>)) \<Longrightarrow> wp (on_world m) Q a"
  unfolding on_world_def wp_zoom by (erule wp_mono)

lemma wp_on_store_Set:
  "(\<And>r s. saved_as G (AList.update (ls_Interface l) l (st_leases (ag_store a))) r (ag_store a) s \<Longrightarrow>
      Q r (a\<lparr>ag_store := s\<rparr>)) \<Longrightarrow> wp (on_store (Set G l)) Q a"
  unfolding on_store_def wp_zoom by (rule wp_mono [OF wp_Set])

lemma wp_on_store_Delete:
  "(\<And>r s. saved_as G (AList.delete k (st_leases (ag_store a))) r (ag_store a) s \<Longrightarrow>
      Q r (a\<lparr>ag_store := s\<rparr>)) \<Longrightarrow> wp (on_store (Delete G k)) Q a"
  unfolding on_store_def wp_zoom by (rule wp_mono [OF wp_Delete])

lemma keeps_on_world: "keeps f m \<Longrightarrow> keeps (\<lambda>a. f (ag_world a)) (on_world m)"
  unfolding on_world_def by (erule keeps_zoom) simp_all

lemma keeps_on_store: "keeps f m \<Longrightarrow> keeps (\<lambda>a. f (ag_store a)) (on_store m)"
  unfolding on_store_def by (erule keeps_zoom) simp_all

lemma keeps_on_world_store: "keeps (\<lambda>a. f (ag_store a)) (on_world m)"
  unfolding on_world_def by (rule keeps_zoom_other) simp

lemma keeps_on_store_world: "keeps (\<lambda>a. f (ag_world a)) (on_store m)"
  unfolding on_store_def by (rule keeps_zoom_other) simp

lemma keeps_inflight_store: "keeps st_inflight (Set G l)" "keeps st_inflight (Delete G k)"
  unfolding keeps_def
  by (auto intro: wp_mono [OF wp_Set] wp_mono [OF wp_Delete] simp: saved_as_def)

lemma keeps_loops:
  "keeps (\<lambda>a. f (ag_store a)) (stopRenewalLoop i)" "keeps (\<lambda>a. f (ag_store a)) (startRenewalLoop l)"
  "keeps (\<lambda>a. h (ag_world a)) (stopRenewalLoop i)" "keeps (\<lambda>a. h (ag_world a)) (startRenewalLoop l)"
  unfolding stopRenewalLoop_def startRenewalLoop_def
  by (auto intro!: keeps_modify split: option.splits)

lemmas keeps_agent = keeps_intros keeps_loops keeps_on_world_store keeps_on_store_world
  keeps_on_store [OF keeps_inflight_store(1)] keeps_on_store [OF keeps_inflight_store(2)]

text \<open>The store's two contracts hold of the agent that owns it.\<close>

interpretation agent_leases: lease_map "\<lambda>a k. Get k (ag_store a)" "\<lambda>l. on_store (Set G l)"
  "\<lambda>k. on_store (Delete G k)" for G
proof
  fix l and a :: "'w agent"
  show "wp (on_store (Set G l)) (\<lambda>_ t. (\<lambda>k. Get k (ag_store t)) =
      (\<lambda>k. Get k (ag_store a))(ls_Interface l \<mapsto> l)) a"
    by (rule wp_on_store_Set) (auto simp: saved_as_def Get_def fun_eq_iff)
next
  fix k and a :: "'w agent"
  show "wp (on_store (Delete G k)) (\<lambda>_ t. (\<lambda>k. Get k (ag_store t)) = (\<lambda>k. Get k (ag_store a))(k := None)) a"
    by (rule wp_on_store_Delete) (auto simp: saved_as_def Get_def fun_eq_iff)
qed

interpretation agent_lock: keyed_lock "\<lambda>a. set (st_inflight (ag_store a))"
  "\<lambda>k. on_store (AcquireInflight k)" "\<lambda>k. on_store (ReleaseInflight k)"
proof
  fix k and a :: "'w agent"
  show "wp (on_store (AcquireInflight k)) (\<lambda>b t. b = (k \<notin> set (st_inflight (ag_store a))) \<and>
      set (st_inflight (ag_store t)) = insert k (set (st_inflight (ag_store a)))) a"
    unfolding on_store_def wp_zoom by (rule wp_mono [OF inflight.wp_acquire]) simp
next
  fix k and a :: "'w agent"
  show "wp (on_store (ReleaseInflight k)) (\<lambda>_ t. set (st_inflight (ag_store t)) =
      set (st_inflight (ag_store a)) - {k}) a"
    unfolding on_store_def wp_zoom by (rule wp_mono [OF inflight.wp_release]) simp
qed

subsection \<open>The lock per interface\<close>

lemma keeps_inflight_allocate: "keeps (\<lambda>a. st_inflight (ag_store a)) (allocate_locked E req m)"
  unfolding allocate_locked_def allocateLease_def allocate_steps_def by (intro keeps_agent)

lemma keeps_inflight_release: "keeps (\<lambda>a. st_inflight (ag_store a)) (release_locked E i)"
  unfolding release_locked_def releaseLease_def by (intro keeps_agent)

lemma allocate_restores_locks:
  "wp (handleAllocateLease E body)
     (\<lambda>_ a'. set (st_inflight (ag_store a')) = set (st_inflight (ag_store a))) a"
proof -
  have "wp (allocate_locked E req m)
      (\<lambda>_ u. set (st_inflight (ag_store u)) = set (st_inflight (ag_store t))) t" for req m t
    by (rule wp_keeps [OF keeps_inflight_allocate]) simp
  then show ?thesis
    unfolding handleAllocateLease_def
    by (auto simp: wp_return split: option.split intro!: agent_lock.bracket)
qed

lemma release_restores_locks:
  "wp (handleReleaseLease E i)
     (\<lambda>_ a'. set (st_inflight (ag_store a')) = set (st_inflight (ag_store a))) a"
proof -
  have "wp (release_locked E i)
      (\<lambda>_ u. set (st_inflight (ag_store u)) = set (st_inflight (ag_store t))) t" for t
    by (rule wp_keeps [OF keeps_inflight_release]) simp
  then show ?thesis
    unfolding handleReleaseLease_def
    by (intro agent_lock.bracket) (blast | simp add: wp_return)+
qed

text \<open>A busy interface is refused and nothing at all happens.\<close>

lemma run_AcquireInflight_busy:
  "i \<in> set (st_inflight (ag_store a)) \<Longrightarrow> run_state (on_store (AcquireInflight i)) a = (False, a)"
  by (simp add: on_store_def AcquireInflight_def)

lemma busy_refused:
  assumes "i \<in> set (st_inflight (ag_store a))"
  shows "run_state (handleReleaseLease E i) a = (busy_response i, a)"
    and "LeaseRequest_decode body = Some req \<Longrightarrow> rq_Interface req = i \<Longrightarrow>
      rq_WanParent req \<noteq> [] \<Longrightarrow> i \<noteq> [] \<Longrightarrow> ParseMAC (rq_MACAddress req) = Some m \<Longrightarrow>
      rq_MACAddress req \<noteq> [] \<Longrightarrow> run_state (handleAllocateLease E body) a = (busy_response i, a)"
  using assms by (simp_all add: handleReleaseLease_def handleAllocateLease_def run_AcquireInflight_busy)

subsection \<open>The result of an allocation\<close>

text \<open>Between \<open>a\<close> and \<open>a'\<close> the lease \<open>l\<close> was added: it is in memory and in the state file, and
  its renewal goroutine runs.\<close>

definition loop_of :: "lease \<Rightarrow> renewal_loop" where
  "loop_of l = \<lparr>rl_lease = l, rl_backoff = minute, rl_timer = ls_LeaseTime l sdiv 2, rl_cancelled = False\<rparr>"

definition added :: "golib \<Rightarrow> lease \<Rightarrow> 'w agent \<Rightarrow> 'w agent \<Rightarrow> bool" where
  "added G l a a' \<longleftrightarrow>
     (\<forall>k. Get k (ag_store a') = (if k = ls_Interface l then Some l else Get k (ag_store a))) \<and>
     (\<exists>j. leases_marshal G (st_leases (ag_store a')) = Inr j \<and> state_file (ag_store a') = Some (Doc j)) \<and>
     ag_loops a' = (ag_next a, loop_of l) # ag_loops a \<and>
     map_of (ag_cancels a') (ls_Interface l) = Some (ag_next a) \<and> ag_next a' = Suc (ag_next a)"

text \<open>A failed allocation starts no goroutine and leaves every other interface alone; the lease it
  was about stays in memory only when saving it was what failed.\<close>

definition not_added :: "string \<Rightarrow> string \<Rightarrow> 'w agent \<Rightarrow> 'w agent \<Rightarrow> bool" where
  "not_added i e a a' \<longleftrightarrow>
     ag_loops a' = ag_loops a \<and> ag_cancels a' = ag_cancels a \<and> ag_next a' = ag_next a \<and>
     state_file (ag_store a') = state_file (ag_store a) \<and>
     (\<forall>k. k \<noteq> i \<longrightarrow> Get k (ag_store a') = Get k (ag_store a)) \<and>
     (Get i (ag_store a') \<noteq> Get i (ag_store a) \<longrightarrow> (\<exists>e'. e = wrapf ''failed to save lease'' e'))"

definition fresh_lease :: "string \<Rightarrow> string \<Rightarrow> mac \<Rightarrow> lease \<Rightarrow> bool" where
  "fresh_lease i p m l \<longleftrightarrow> ls_Interface l = i \<and> ls_WanParent l = p \<and> ls_MACAddress l = m \<and>
     ls_Status l = StatusActive \<and> ls_InterfaceExists l \<and> ls_RenewalCount l = 0 \<and>
     \<not> no_addr (ls_IPAddress l) \<and> \<not> no_addr (ls_DHCPServerIP l)"

lemma fresh_new_lease:
  "\<not> no_addr (li_IPAddress li) \<Longrightarrow> \<not> no_addr (li_DHCPServerIP li) \<Longrightarrow>
     fresh_lease i p m (new_lease D i p m li now created)"
  by (simp add: fresh_lease_def new_lease_def)

lemma ls_Interface_new_lease [simp]: "ls_Interface (new_lease D i p m li now created) = i"
  by (simp add: new_lease_def)

definition allocated :: "golib \<Rightarrow> string \<Rightarrow> string \<Rightarrow> mac \<Rightarrow> 'w agent \<Rightarrow> lease result \<Rightarrow> 'w agent \<Rightarrow> bool" where
  "allocated G i p m a r a' = (case r of
       Inl e \<Rightarrow> not_added i e a a'
     | Inr l \<Rightarrow> fresh_lease i p m l \<and> added G l a a')"

lemma wp_allocate_steps:
  "wp (allocate_steps E i p m) (allocated (env_G E) i p m a) a"
proof -
  have acq: "wp (on_world (AcquireLease (env_D E) c)) Q a"
    if "\<And>e w. Q (Inl e) (a\<lparr>ag_world := w\<rparr>)"
      and "\<And>li w. \<not> no_addr (li_IPAddress li) \<Longrightarrow> \<not> no_addr (li_DHCPServerIP li) \<Longrightarrow>
        Q (Inr li) (a\<lparr>ag_world := w\<rparr>)" for Q c
    by (rule wp_on_worldI [OF AcquireLease_ok]) (auto split: sum.splits intro: that)
  have kept: "not_added i e a (a\<lparr>ag_world := w\<rparr>)" for e w
    by (simp add: not_added_def)
  show ?thesis
    unfolding allocate_steps_def startRenewalLoop_def wp_bind
    by (rule acq)
      (auto simp: wp_simps Let_def kept allocated_def intro!: wp_on_world wp_on_store_Set fresh_new_lease
        split: sum.splits, auto simp: not_added_def added_def saved_as_def Get_def loop_of_def)
qed

lemma allocated_world:
  "allocated G i p m (a\<lparr>ag_world := w\<rparr>) r a' \<Longrightarrow> allocated G i p m a r a'"
  "is_err r \<Longrightarrow> allocated G i p m a r a' \<Longrightarrow> allocated G i p m a r (a'\<lparr>ag_world := w'\<rparr>)"
  "allocated G i p m a (Inl e) (a\<lparr>ag_world := w\<rparr>)"
  by (auto simp: allocated_def not_added_def added_def split: sum.splits)

lemma wp_allocateLease: "wp (allocateLease E i p m) (allocated (env_G E) i p m a) a"
proof -
  have "wp (allocate_steps E i p m) (\<lambda>r. if is_err r
        then wp (on_world (DeleteMacvlan (env_K E) i)) (\<lambda>_. allocated (env_G E) i p m a r)
        else allocated (env_G E) i p m a r) (a\<lparr>ag_world := w\<rparr>)" for w
    by (rule wp_mono [OF wp_allocate_steps]) (auto intro!: wp_on_world dest: allocated_world(1) intro: allocated_world(2))
  then show ?thesis
    unfolding allocateLease_def wp_bind
    by (intro wp_on_world) (auto simp: wp_simps allocated_world split: sum.split cong: if_cong)
qed

text \<open>The handler: what a client that reads 201 can rely on.\<close>

lemma wp_allocate_locked:
  "wp (allocate_locked E req m) (\<lambda>r a'. if resp_status r = StatusCreated
     then (\<exists>l. fresh_lease (rq_Interface req) (rq_WanParent req) m l \<and> added (env_G E) l a a' \<and>
        Get (rq_Interface req) (ag_store a) = None \<and>
        resp_body r = Doc (LeaseResponse_json (env_G E)
           \<lparr>rs_IPAddress = IP_String (ls_IPAddress l), rs_ExpiresAt = ls_ExpiresAt l\<rparr>))
     else (\<exists>e. not_added (rq_Interface req) e a a')) a"
proof -
  have "wp (allocateLease E i p m) (\<lambda>r. wp (case r of
       Inl e \<Rightarrow> ret (sendError StatusServiceUnavailable (wrapf ''failed to allocate lease'' e))
     | Inr l \<Rightarrow> ret \<lparr>resp_status = StatusCreated, resp_body = Doc (LeaseResponse_json (env_G E)
           \<lparr>rs_IPAddress = IP_String (ls_IPAddress l), rs_ExpiresAt = ls_ExpiresAt l\<rparr>)\<rparr>) Q) a"
    if "\<And>e a'. not_added i e a a' \<Longrightarrow>
        Q (sendError StatusServiceUnavailable (wrapf ''failed to allocate lease'' e)) a'"
      and "\<And>l a'. fresh_lease i p m l \<Longrightarrow> added (env_G E) l a a' \<Longrightarrow>
        Q \<lparr>resp_status = StatusCreated, resp_body = Doc (LeaseResponse_json (env_G E)
           \<lparr>rs_IPAddress = IP_String (ls_IPAddress l), rs_ExpiresAt = ls_ExpiresAt l\<rparr>)\<rparr> a'" for i p Q
    by (rule wp_mono [OF wp_allocateLease])
      (auto split: sum.splits simp: wp_simps allocated_def intro: that)
  note alloc = this
  show ?thesis
    unfolding allocate_locked_def wp_bind wp_gets
    by (auto split: option.split intro!: alloc simp: wp_bind)
      (auto simp: wp_simps sendError_def http_status_defs not_added_def)
qed

text \<open>Taking and giving back the lock touches nothing but the lock.\<close>

lemma wp_acquire_agent:
  "(k \<in> set (st_inflight (ag_store a)) \<Longrightarrow> Q False a) \<Longrightarrow>
   (k \<notin> set (st_inflight (ag_store a)) \<Longrightarrow>
      Q True (a\<lparr>ag_store := (ag_store a)\<lparr>st_inflight := k # st_inflight (ag_store a)\<rparr>\<rparr>)) \<Longrightarrow>
   wp (on_store (AcquireInflight k)) Q a"
  by (auto simp: on_store_def AcquireInflight_def wp_simps)

lemma wp_release_agent:
  "(\<And>fl. Q () (a\<lparr>ag_store := (ag_store a)\<lparr>st_inflight := fl\<rparr>\<rparr>)) \<Longrightarrow>
   wp (on_store (ReleaseInflight k)) Q a"
  by (auto simp: on_store_def ReleaseInflight_def wp_simps) (metis agent.surjective agent.update_convs(1) store.surjective store.update_convs(3))

lemma Get_inflight [simp]: "Get k (s\<lparr>st_inflight := fl\<rparr>) = Get k s"
  by (simp add: Get_def)

lemma state_file_inflight [simp]: "state_file (s\<lparr>st_inflight := fl\<rparr>) = state_file s"
  by (simp add: state_file_def)

lemma added_locks:
  "added G l (a\<lparr>ag_store := (ag_store a)\<lparr>st_inflight := fl\<rparr>\<rparr>) a' = added G l a a'"
  "added G l a (a'\<lparr>ag_store := (ag_store a')\<lparr>st_inflight := fl\<rparr>\<rparr>) = added G l a a'"
  "not_added i e (a\<lparr>ag_store := (ag_store a)\<lparr>st_inflight := fl\<rparr>\<rparr>) a' = not_added i e a a'"
  "not_added i e a (a'\<lparr>ag_store := (ag_store a')\<lparr>st_inflight := fl\<rparr>\<rparr>) = not_added i e a a'"
  by (simp_all add: added_def not_added_def)

definition created :: "golib \<Rightarrow> LeaseRequest \<Rightarrow> mac \<Rightarrow> lease \<Rightarrow> response \<Rightarrow> 'w agent \<Rightarrow> 'w agent \<Rightarrow> bool" where
  "created G req m l r a a' \<longleftrightarrow>
     fresh_lease (rq_Interface req) (rq_WanParent req) m l \<and> added G l a a' \<and>
     Get (rq_Interface req) (ag_store a) = None \<and>
     resp_body r = Doc (LeaseResponse_json G
        \<lparr>rs_IPAddress = IP_String (ls_IPAddress l), rs_ExpiresAt = ls_ExpiresAt l\<rparr>)"

lemma created_locks:
  "created G req m l r (a\<lparr>ag_store := (ag_store a)\<lparr>st_inflight := fl\<rparr>\<rparr>) a' = created G req m l r a a'"
  "created G req m l r a (a'\<lparr>ag_store := (ag_store a')\<lparr>st_inflight := fl\<rparr>\<rparr>) = created G req m l r a a'"
  by (simp_all add: created_def added_locks)

abbreviation with_locks :: "string list \<Rightarrow> 'w agent \<Rightarrow> 'w agent" where
  "with_locks fl a \<equiv> a\<lparr>ag_store := (ag_store a)\<lparr>st_inflight := fl\<rparr>\<rparr>"

text \<open>The ways through a locked handler: refused before any effect, or its body under the lock.\<close>

lemma allocate_rule:
  assumes bad: "\<And>e. Q (sendError StatusBadRequest e) a"
    and busy: "\<And>i. i \<in> set (st_inflight (ag_store a)) \<Longrightarrow> Q (busy_response i) a"
    and locked: "\<And>req m. LeaseRequest_decode body = Some req \<Longrightarrow>
      ParseMAC (rq_MACAddress req) = Some m \<Longrightarrow>
      rq_Interface req \<notin> set (st_inflight (ag_store a)) \<Longrightarrow>
      wp (allocate_locked E req m) (\<lambda>r a'. \<forall>fl. Q r (with_locks fl a'))
        (with_locks (rq_Interface req # st_inflight (ag_store a)) a)"
  shows "wp (handleAllocateLease E body) Q a"
proof -
  have "wp (allocate_locked E req m) (\<lambda>r. wp (on_store (ReleaseInflight (rq_Interface req))) (\<lambda>_. Q r))
      (with_locks (rq_Interface req # st_inflight (ag_store a)) a)"
    if "LeaseRequest_decode body = Some req" "ParseMAC (rq_MACAddress req) = Some m"
      "rq_Interface req \<notin> set (st_inflight (ag_store a))" for req m
    by (rule wp_mono [OF locked [OF that]]) (auto intro: wp_release_agent)
  then show ?thesis
    unfolding handleAllocateLease_def
    by (cases "LeaseRequest_decode body")
      (auto simp: wp_simps bad busy split: option.split intro!: wp_acquire_agent)
qed

lemma release_rule:
  assumes busy: "i \<in> set (st_inflight (ag_store a)) \<Longrightarrow> Q (busy_response i) a"
    and locked: "i \<notin> set (st_inflight (ag_store a)) \<Longrightarrow>
      wp (release_locked E i) (\<lambda>r a'. \<forall>fl. Q r (with_locks fl a'))
        (with_locks (i # st_inflight (ag_store a)) a)"
  shows "wp (handleReleaseLease E i) Q a"
proof -
  have "wp (release_locked E i) (\<lambda>r. wp (on_store (ReleaseInflight i)) (\<lambda>_. Q r))
      (with_locks (i # st_inflight (ag_store a)) a)" if "i \<notin> set (st_inflight (ag_store a))"
    by (rule wp_mono [OF locked [OF that]]) (auto intro: wp_release_agent)
  then show ?thesis
    unfolding handleReleaseLease_def
    by (auto simp: wp_simps busy intro!: wp_acquire_agent)
qed

lemma refusal_status [simp]:
  "resp_status (sendError c e) = c" "resp_status (busy_response i) = StatusConflict"
  "resp_status (not_found_response i) = StatusNotFound"
  by (simp_all add: sendError_def busy_response_def not_found_response_def)

lemma wp_handleAllocateLease:
  "wp (handleAllocateLease E body) (\<lambda>r a'. if resp_status r = StatusCreated
     then (\<exists>req m l. LeaseRequest_decode body = Some req \<and> ParseMAC (rq_MACAddress req) = Some m \<and>
        rq_Interface req \<notin> set (st_inflight (ag_store a)) \<and> created (env_G E) req m l r a a')
     else (\<exists>i e. not_added i e a a')) a"
proof (rule allocate_rule)
  fix req m
  assume "LeaseRequest_decode body = Some req" "ParseMAC (rq_MACAddress req) = Some m"
    "rq_Interface req \<notin> set (st_inflight (ag_store a))"
  then show "wp (allocate_locked E req m) (\<lambda>r a'. \<forall>fl. if resp_status r = StatusCreated
     then (\<exists>req m l. LeaseRequest_decode body = Some req \<and> ParseMAC (rq_MACAddress req) = Some m \<and>
        rq_Interface req \<notin> set (st_inflight (ag_store a)) \<and>
        created (env_G E) req m l r a (with_locks fl a'))
     else (\<exists>i e. not_added i e a (with_locks fl a')))
    (with_locks (rq_Interface req # st_inflight (ag_store a)) a)"
    by (intro wp_mono [OF wp_allocate_locked])
      (auto simp: created_locks added_locks created_def split: if_splits)
qed (auto simp: http_status_defs not_added_def)

subsection \<open>The table of links\<close>

definition env_links :: "('p, 'w) agent_env \<Rightarrow> ('w \<Rightarrow> string set) \<Rightarrow> bool" where
  "env_links E links \<longleftrightarrow> netlink_spec (env_K E) links \<and> netlink_reliable (env_K E) links \<and>
     dhcp_leaves (env_D E) links \<and> keeps links (env_Now E)"

lemma keeps_SendGratuitousARP:
  assumes "netlink_spec K links"
  shows "keeps links (SendGratuitousARP K i p m n)"
proof -
  have "keeps links (garp_loop K fd b s k n)" for fd b s k n
    by (induction n arbitrary: k) (auto intro!: keeps_intros netlink_keeps [OF assms])
  then show ?thesis
    unfolding SendGratuitousARP_def by (intro keeps_intros netlink_keeps [OF assms])
qed

lemma wp_links_allocateLease:
  assumes E: "env_links E links"
  shows "wp (allocateLease E i p m) (\<lambda>r a'. links (ag_world a') =
     (if is_err r then links (ag_world a) else insert i (links (ag_world a)))) a"
proof -
  have K: "netlink_spec (env_K E) links" "netlink_reliable (env_K E) links"
    and D: "dhcp_leaves (env_D E) links" "keeps links (env_Now E)"
    using E by (simp_all add: env_links_def)
  have steps: "keeps (\<lambda>a. links (ag_world a)) (allocate_steps E i p m)"
    unfolding allocate_steps_def
    by (intro keeps_agent keeps_on_world keeps_dhcp_ops D keeps_SetupInterface
        keeps_SendGratuitousARP K)
  have del: "wp (on_world (DeleteMacvlan (env_K E) i)) (\<lambda>_ a'. links (ag_world a') = links (ag_world a)) b"
    if "links (ag_world b) = insert i (links (ag_world a))" "i \<notin> links (ag_world a)" for b
    by (rule wp_on_worldI [OF wp_DeleteMacvlan_reliable [OF K]]) (use that in auto)
  show ?thesis
    unfolding allocateLease_def wp_bind
    by (rule wp_on_worldI [OF wp_CreateMacvlan_reliable [OF K]])
      (auto simp: wp_simps is_err_def intro!: wp_keeps [OF steps] del split: sum.splits if_splits)
qed

text \<open>Where the kernel's lookups and deletions work, an allocation that is not answered 201 leaves
  the table of links as it was: no interface is left behind on any error path.\<close>

lemma wp_links_handleAllocateLease:
  assumes E: "env_links E links"
  shows "wp (handleAllocateLease E body) (\<lambda>r a'. if resp_status r = StatusCreated
     then (\<exists>req. LeaseRequest_decode body = Some req \<and>
        links (ag_world a') = insert (rq_Interface req) (links (ag_world a)))
     else links (ag_world a') = links (ag_world a)) a"
proof (rule allocate_rule)
  fix req m
  assume "LeaseRequest_decode body = Some req"
  then show "wp (allocate_locked E req m) (\<lambda>r a'. \<forall>fl. if resp_status r = StatusCreated
     then (\<exists>req. LeaseRequest_decode body = Some req \<and>
        links (ag_world (with_locks fl a')) = insert (rq_Interface req) (links (ag_world a)))
     else links (ag_world (with_locks fl a')) = links (ag_world a))
    (with_locks (rq_Interface req # st_inflight (ag_store a)) a)"
    unfolding allocate_locked_def
    by (auto simp: wp_simps http_status_defs is_err_def split: option.split sum.splits
        intro!: wp_mono [OF wp_links_allocateLease [OF E]])
qed (auto simp: http_status_defs)

subsection \<open>The result of a release\<close>

definition cancelled_loops :: "string \<Rightarrow> 'w agent \<Rightarrow> (nat \<times> renewal_loop) list" where
  "cancelled_loops i a = (case map_of (ag_cancels a) i of
      None \<Rightarrow> ag_loops a
    | Some g \<Rightarrow> AList.map_entry g (\<lambda>rl. rl\<lparr>rl_cancelled := True\<rparr>) (ag_loops a))"

text \<open>The lease is gone from memory and its goroutine is cancelled, whatever failed on the way; it
  is gone from the state file too when there was no error.\<close>

definition removed :: "golib \<Rightarrow> string \<Rightarrow> bool \<Rightarrow> 'w agent \<Rightarrow> 'w agent \<Rightarrow> bool" where
  "removed G i durable a a' \<longleftrightarrow>
     (\<forall>k. Get k (ag_store a') = (if k = i then None else Get k (ag_store a))) \<and>
     map_of (ag_cancels a') = (map_of (ag_cancels a))(i := None) \<and>
     ag_loops a' = cancelled_loops i a \<and> ag_next a' = ag_next a \<and>
     (if durable then \<exists>j. leases_marshal G (st_leases (ag_store a')) = Inr j \<and>
          state_file (ag_store a') = Some (Doc j)
      else state_file (ag_store a') = state_file (ag_store a))"

lemma wp_releaseLease:
  "wp (releaseLease E l) (\<lambda>r a'. removed (env_G E) (ls_Interface l) (\<not> is_err r) a a') a"
proof -
  let ?a = "case map_of (ag_cancels a) (ls_Interface l) of None \<Rightarrow> a
    | Some g \<Rightarrow> a\<lparr>ag_loops := AList.map_entry g (\<lambda>rl. rl\<lparr>rl_cancelled := True\<rparr>) (ag_loops a),
        ag_cancels := AList.delete (ls_Interface l) (ag_cancels a)\<rparr>"
  have stop: "ag_store ?a = ag_store a" "ag_loops ?a = cancelled_loops (ls_Interface l) a"
    "ag_next ?a = ag_next a" "map_of (ag_cancels ?a) = (map_of (ag_cancels a))(ls_Interface l := None)"
    by (auto simp: cancelled_loops_def fun_eq_iff split: option.split)
  have del: "wp (on_store (Delete (env_G E) (ls_Interface l)))
      (\<lambda>r. wp (case r of Inl e \<Rightarrow> ret (Inl (wrapf ''failed to delete lease from store'' e))
          | Inr _ \<Rightarrow> ret (Inr ())) (\<lambda>r a'. removed (env_G E) (ls_Interface l) (\<not> is_err r) a a'))
      (?a\<lparr>ag_world := w\<rparr>)" for w
    by (rule wp_on_store_Delete)
      (auto simp: wp_simps removed_def saved_as_def Get_def stop split: sum.splits)
  show ?thesis
    unfolding releaseLease_def stopRenewalLoop_def wp_bind wp_modify
    by (intro wp_on_world) (use del in simp)
qed

definition unchanged_but_locks :: "'w agent \<Rightarrow> 'w agent \<Rightarrow> bool" where
  "unchanged_but_locks a a' \<longleftrightarrow> (\<exists>fl. a' = with_locks fl a)"

lemma cancelled_loops_locks [simp]: "cancelled_loops i (with_locks fl a) = cancelled_loops i a"
  by (simp add: cancelled_loops_def split: option.split)

lemma removed_locks:
  "removed G i d (with_locks fl a) a' = removed G i d a a'"
  "removed G i d a (with_locks fl a') = removed G i d a a'"
  by (simp_all add: removed_def)

lemma unchanged_but_locks_locks: "unchanged_but_locks a (with_locks fl a)"
  by (auto simp: unchanged_but_locks_def)

lemma wp_handleReleaseLease:
  assumes "store_wf (ag_store a)"
  shows "wp (handleReleaseLease E i) (\<lambda>r a'.
     if i \<in> set (st_inflight (ag_store a)) then resp_status r = StatusConflict \<and> a' = a
     else if Get i (ag_store a) = None then resp_status r = StatusNotFound \<and> unchanged_but_locks a a'
     else resp_status r \<in> {StatusNoContent, StatusInternalServerError} \<and>
       removed (env_G E) i (resp_status r = StatusNoContent) a a') a"
proof (rule release_rule)
  assume free: "i \<notin> set (st_inflight (ag_store a))"
  let ?a = "with_locks (i # st_inflight (ag_store a)) a"
  have rel: "wp (releaseLease E l) (\<lambda>r. wp (case r of
          Inl e \<Rightarrow> ret (sendError StatusInternalServerError (wrapf ''failed to release lease'' e))
        | Inr _ \<Rightarrow> ret \<lparr>resp_status = StatusNoContent, resp_body = Torn\<rparr>)
      (\<lambda>r a'. \<forall>fl. resp_status r \<in> {StatusNoContent, StatusInternalServerError} \<and>
         removed (env_G E) i (resp_status r = StatusNoContent) a (with_locks fl a'))) ?a"
    if "Get i (ag_store a) = Some l" for l
    by (rule wp_mono [OF wp_releaseLease])
      (use store_wf_Get [OF assms that] in
        \<open>auto simp: wp_simps removed_locks http_status_defs split: sum.splits\<close>)
  then show "wp (release_locked E i) (\<lambda>r a'. \<forall>fl.
     if i \<in> set (st_inflight (ag_store a)) then resp_status r = StatusConflict \<and> with_locks fl a' = a
     else if Get i (ag_store a) = None
       then resp_status r = StatusNotFound \<and> unchanged_but_locks a (with_locks fl a')
     else resp_status r \<in> {StatusNoContent, StatusInternalServerError} \<and>
       removed (env_G E) i (resp_status r = StatusNoContent) a (with_locks fl a')) ?a"
    unfolding release_locked_def wp_bind wp_gets
    by (cases "Get i (ag_store a)")
      (simp_all add: free wp_simps unchanged_but_locks_locks)
qed simp

lemma wp_links_handleReleaseLease:
  assumes E: "env_links E links" and "store_wf (ag_store a)"
  shows "wp (handleReleaseLease E i) (\<lambda>r a'. links (ag_world a') =
     (if resp_status r \<in> {StatusConflict, StatusNotFound} then links (ag_world a)
      else links (ag_world a) - {i})) a"
proof (rule release_rule)
  have K: "netlink_spec (env_K E) links" "netlink_reliable (env_K E) links"
    and D: "dhcp_leaves (env_D E) links"
    using E by (simp_all add: env_links_def)
  have del: "wp (on_world (DeleteMacvlan (env_K E) i)) Q b"
    if "\<And>x b'. links (ag_world b') = links (ag_world b) - {i} \<Longrightarrow> Q x b'" for Q b
    by (rule wp_on_worldI [OF wp_DeleteMacvlan_reliable [OF K]]) (use that in simp)
  have rel: "wp (releaseLease E l) Q b"
    if l: "ls_Interface l = i" and Q: "\<And>x b'. links (ag_world b') = links (ag_world b) - {i} \<Longrightarrow> Q x b'" for l Q b
    unfolding releaseLease_def wp_bind wp_return l
  proof (rule wp_keeps [OF keeps_loops(3) [where h = links]],
      rule wp_keeps [OF keeps_on_world [OF keeps_dhcp_ops(3) [OF D]]],
      rule wp_keeps [OF keeps_on_world [OF keeps_CleanupInterface [OF K(1)]]],
      rule del, rule wp_keeps [OF keeps_on_store_world [where f = links]])
  qed (auto simp: wp_simps intro: Q split: sum.split)
  show "wp (release_locked E i) (\<lambda>r a'. \<forall>fl. links (ag_world (with_locks fl a')) =
     (if resp_status r \<in> {StatusConflict, StatusNotFound} then links (ag_world a)
      else links (ag_world a) - {i})) (with_locks (i # st_inflight (ag_store a)) a)"
  proof (cases "Get i (ag_store a)")
    case (Some l)
    then show ?thesis
      unfolding release_locked_def
      by (simp add: wp_bind wp_gets)
        (rule rel, auto simp: wp_simps http_status_defs store_wf_Get [OF assms(2)] split: sum.split)
  qed (simp add: release_locked_def wp_simps)
qed simp

subsection \<open>Renewal\<close>

text \<open>What no renewal, successful or not, changes of a lease.\<close>

definition same_identity :: "lease \<Rightarrow> lease \<Rightarrow> bool" where
  "same_identity l l' \<longleftrightarrow> ls_Interface l' = ls_Interface l \<and> ls_WanParent l' = ls_WanParent l \<and>
     ls_IPAddress l' = ls_IPAddress l \<and> ls_MACAddress l' = ls_MACAddress l \<and>
     ls_CreatedAt l' = ls_CreatedAt l"

lemma same_identity_refl [simp]: "same_identity l l"
  by (simp add: same_identity_def)

lemma same_identity_trans: "same_identity l l' \<Longrightarrow> same_identity l' l'' \<Longrightarrow> same_identity l l''"
  by (simp add: same_identity_def)

lemma same_identity_updates [simp]:
  "same_identity l (l'\<lparr>ls_Status := x\<rparr>) = same_identity l l'"
  "same_identity l (l'\<lparr>ls_InterfaceExists := b\<rparr>) = same_identity l l'"
  "same_identity l (l'\<lparr>ls_DHCPServerIP := p\<rparr>) = same_identity l l'"
  "same_identity l (renewed D now li l') = same_identity l l'"
  by (simp_all add: same_identity_def renewed_def)

lemma renewed_status [simp]: "ls_Status (renewed D now li l) = StatusActive"
  "ls_Interface (renewed D now li l) = ls_Interface l"
  by (simp_all add: renewed_def)

text \<open>One attempt (RENEW or REBIND): an error of the exchange changes nothing; otherwise the lease is
  updated in memory, and in the file unless the error is one of saving.\<close>

definition attempted :: "golib \<Rightarrow> lease \<Rightarrow> unit result \<times> lease \<Rightarrow> 'w agent \<Rightarrow> 'w agent \<Rightarrow> bool" where
  "attempted G l rl a a' \<longleftrightarrow> (case rl of (r, l') \<Rightarrow>
     same_identity l l' \<and> ag_loops a' = ag_loops a \<and> ag_cancels a' = ag_cancels a \<and>
     ag_next a' = ag_next a \<and>
     (\<forall>k. k \<noteq> ls_Interface l \<longrightarrow> Get k (ag_store a') = Get k (ag_store a)) \<and>
     (is_err r \<and> l' = l \<and> ag_store a' = ag_store a \<or>
      ls_Status l' = StatusActive \<and> Get (ls_Interface l) (ag_store a') = Some l' \<and>
      (is_err r \<or> (\<exists>j. leases_marshal G (st_leases (ag_store a')) = Inr j \<and>
          state_file (ag_store a') = Some (Doc j)))))"

lemma wp_renewLease: "wp (renewLease E l) (\<lambda>rl a'. attempted (env_G E) l rl a a') a"
  unfolding renewLease_def wp_bind
proof (rule wp_on_world)
  fix r and w
  show "wp (case r of Inl e \<Rightarrow> ret (Inl e, l) | Inr li \<Rightarrow> do {
          now \<leftarrow> on_world (env_Now E);
          let l = renewed (env_D E) now li l;
          r \<leftarrow> on_store (Set (env_G E) l);
          ret (r, l)
        }) (\<lambda>rl a'. attempted (env_G E) l rl a a') (a\<lparr>ag_world := w\<rparr>)"
    by (cases r) (auto simp: wp_simps Let_def attempted_def saved_as_def Get_def split: sum.splits
        intro!: wp_on_world wp_on_store_Set)
qed

lemma wp_rebindLease: "wp (rebindLease E l) (\<lambda>rl a'. attempted (env_G E) l rl a a') a"
  unfolding rebindLease_def wp_bind
proof (rule wp_on_world)
  fix r and w
  show "wp (case r of Inl e \<Rightarrow> ret (Inl e, l) | Inr li \<Rightarrow> do {
          now \<leftarrow> on_world (env_Now E);
          let l = (renewed (env_D E) now li l)\<lparr>ls_DHCPServerIP := li_DHCPServerIP li\<rparr>;
          r \<leftarrow> on_store (Set (env_G E) l);
          ret (r, l)
        }) (\<lambda>rl a'. attempted (env_G E) l rl a a') (a\<lparr>ag_world := w\<rparr>)"
    by (cases r) (auto simp: wp_simps Let_def attempted_def saved_as_def Get_def split: sum.splits
        intro!: wp_on_world wp_on_store_Set)
qed

text \<open>One expiry of the timer: the loop's lease is what the store holds afterwards, and either it was
  renewed and saved, the backoff is reset and the next attempt is due at half of the lease time;
  or it is stale, and the next attempt is due after the current backoff.\<close>

definition turned :: "golib \<Rightarrow> renewal_loop \<Rightarrow> 'w agent \<Rightarrow> renewal_loop \<Rightarrow> 'w agent \<Rightarrow> bool" where
  "turned G rl a rl' a' \<longleftrightarrow>
     same_identity (rl_lease rl) (rl_lease rl') \<and> rl_cancelled rl' = rl_cancelled rl \<and>
     ag_loops a' = ag_loops a \<and> ag_cancels a' = ag_cancels a \<and> ag_next a' = ag_next a \<and>
     (\<forall>k. k \<noteq> ls_Interface (rl_lease rl) \<longrightarrow> Get k (ag_store a') = Get k (ag_store a)) \<and>
     Get (ls_Interface (rl_lease rl)) (ag_store a') = Some (rl_lease rl') \<and>
     (ls_Status (rl_lease rl') = StatusActive \<and> rl_backoff rl' = minute \<and>
        rl_timer rl' = ls_LeaseTime (rl_lease rl') sdiv 2 \<and>
        (\<exists>j. leases_marshal G (st_leases (ag_store a')) = Inr j \<and> state_file (ag_store a') = Some (Doc j)) \<or>
      ls_Status (rl_lease rl') = StatusStale \<and> rl_timer rl' = rl_backoff rl \<and>
        rl_backoff rl' = next_backoff (rl_backoff rl))"

lemma attempted_trans:
  assumes "attempted G l (Inl e, l1) a b" and "attempted G l1 (r, l2) b c"
  shows "same_identity l l2 \<and> ag_loops c = ag_loops a \<and> ag_cancels c = ag_cancels a \<and>
     ag_next c = ag_next a \<and>
     (\<forall>k. k \<noteq> ls_Interface l \<longrightarrow> Get k (ag_store c) = Get k (ag_store a)) \<and>
     (\<not> is_err r \<longrightarrow> attempted G l1 (r, l2) b c)"
  using assms by (auto simp: attempted_def same_identity_def)

lemma wp_renewal_finish:
  assumes "same_identity (rl_lease rl) l" "ag_loops b = ag_loops a" "ag_cancels b = ag_cancels a"
    "ag_next b = ag_next a"
    "\<forall>k. k \<noteq> ls_Interface (rl_lease rl) \<longrightarrow> Get k (ag_store b) = Get k (ag_store a)"
    and "\<not> is_err r \<Longrightarrow> ls_Status l = StatusActive \<and> Get (ls_Interface (rl_lease rl)) (ag_store b) = Some l \<and>
      (\<exists>j. leases_marshal (env_G E) (st_leases (ag_store b)) = Inr j \<and> state_file (ag_store b) = Some (Doc j))"
  shows "wp (renewal_finish E rl (r, l)) (turned (env_G E) rl a) b"
proof (cases r)
  case Inl
  have i: "ls_Interface (rl_lease rl) = ls_Interface l" using assms(1) by (simp add: same_identity_def)
  from Inl show ?thesis
    unfolding renewal_finish_def
    by (auto simp: wp_simps Let_def intro!: wp_on_store_Set)
      (use assms in \<open>auto simp: turned_def saved_as_def Get_def i\<close>)
next
  case (Inr u)
  then show ?thesis
    unfolding renewal_finish_def using assms by (auto simp: wp_simps turned_def)
qed

lemma wp_renewal_body: "wp (renewal_body E rl) (turned (env_G E) rl a) a"
proof -
  let ?G = "env_G E" and ?l = "rl_lease rl"
  have fin1: "wp (renewal_finish E rl (Inr u, l1)) (turned ?G rl a) b"
    if "attempted ?G ?l (Inr u, l1) a b" for u l1 b
    by (rule wp_renewal_finish) (use that in \<open>auto simp: attempted_def\<close>)
  have fin2: "wp (renewal_finish E rl (r, l2)) (turned ?G rl a) c"
    if at: "attempted ?G ?l (Inl e, l1) a b" "attempted ?G l1 (r, l2) b c" for e r l1 l2 b c
    using attempted_trans [OF at] at
    by (intro wp_renewal_finish) (auto simp: attempted_def same_identity_def)
  have reb: "wp (rebindLease E l1) (\<lambda>rr. wp (renewal_finish E rl rr) (turned ?G rl a)) b"
    if "attempted ?G ?l (Inl e, l1) a b" for e l1 b
    by (rule wp_mono [OF wp_rebindLease]) (use fin2 [OF that] in auto)
  show ?thesis
    unfolding renewal_body_def wp_bind
    by (rule wp_mono [OF wp_renewLease])
      (auto simp: wp_simps fin1 reb split: prod.split sum.split)
qed

text \<open>The waits between failed attempts: 1, 2, 4, 8 and then 15 minutes.\<close>

interpretation renewal_backoff: capped_doubling minute maxBackoff next_backoff
proof
  fix b :: int
  assume "0 < b" "b \<le> max minute maxBackoff"
  then show "next_backoff b = min (2 * b) maxBackoff"
    by (simp add: next_backoff_def wrap64_id maxBackoff_def time_defs)
qed (simp_all add: maxBackoff_def time_defs)

lemma renewal_delay: "renewal_backoff.delay n = min (minute * 2 ^ n) maxBackoff"
proof -
  have "minute \<le> maxBackoff" by (simp add: maxBackoff_def time_defs)
  then show ?thesis
    by (cases "n = 0") (simp_all add: renewal_backoff.delay_closed renewal_backoff.delay_0)
qed

text \<open>\<open>n\<close> expiries of one goroutine's timer, with nothing in between.\<close>

fun ticks :: "('p, 'w) agent_env \<Rightarrow> nat \<Rightarrow> renewal_loop \<Rightarrow> ('w agent, renewal_loop list) state" where
  "ticks E 0 rl = ret []"
| "ticks E (Suc n) rl = do {
     rl' \<leftarrow> renewal_body E rl;
     rls \<leftarrow> ticks E n rl';
     ret (rl' # rls)
   }"

text \<open>A DHCP server that does not answer this lease's exchanges.\<close>

definition exchange_fails :: "('p, 'w) dhcp_lib \<Rightarrow> lease \<Rightarrow> bool" where
  "exchange_fails D l \<longleftrightarrow> (\<forall>w. wp (RenewLease D (NewClient (ls_Interface l) (ls_MACAddress l))
        (ls_IPAddress l) (ls_DHCPServerIP l) (ls_DHCPOffer l) (ls_DHCPAck l)) (\<lambda>r _. is_err r) w \<and>
      wp (RebindLease D (NewClient (ls_Interface l) (ls_MACAddress l)) (ls_IPAddress l)) (\<lambda>r _. is_err r) w)"

lemma exchange_fails_stale [simp]: "exchange_fails D (l\<lparr>ls_Status := x\<rparr>) = exchange_fails D l"
  by (simp add: exchange_fails_def)

lemma wp_renewal_body_fails:
  assumes "exchange_fails (env_D E) (rl_lease rl)"
  shows "wp (renewal_body E rl) (\<lambda>rl' _. rl_lease rl' = (rl_lease rl)\<lparr>ls_Status := StatusStale\<rparr> \<and>
     rl_timer rl' = rl_backoff rl \<and> rl_backoff rl' = next_backoff (rl_backoff rl)) a"
proof -
  let ?l = "rl_lease rl"
  have ren: "wp (on_world (RenewLease (env_D E) (NewClient (ls_Interface ?l) (ls_MACAddress ?l))
        (ls_IPAddress ?l) (ls_DHCPServerIP ?l) (ls_DHCPOffer ?l) (ls_DHCPAck ?l))) Q b"
    if "\<And>e b'. Q (Inl e) b'" for Q b
    by (rule wp_on_worldI [where P = "\<lambda>r _. is_err r"])
      (use assms that in \<open>auto simp: exchange_fails_def is_err_def split: sum.splits\<close>)
  have reb: "wp (on_world (RebindLease (env_D E) (NewClient (ls_Interface ?l) (ls_MACAddress ?l))
        (ls_IPAddress ?l))) Q b" if "\<And>e b'. Q (Inl e) b'" for Q b
    by (rule wp_on_worldI [where P = "\<lambda>r _. is_err r"])
      (use assms that in \<open>auto simp: exchange_fails_def is_err_def split: sum.splits\<close>)
  show ?thesis
    unfolding renewal_body_def renewLease_def rebindLease_def renewal_finish_def
    by (auto simp: wp_simps Let_def intro!: ren reb wp_on_store_Set)
qed

lemma wp_ticks_fail:
  assumes "exchange_fails (env_D E) (rl_lease rl)" and "rl_backoff rl = renewal_backoff.delay k"
  shows "wp (ticks E n rl) (\<lambda>rls _. map rl_timer rls = map (\<lambda>i. renewal_backoff.delay (k + i)) [0..<n] \<and>
     (\<forall>rl' \<in> set rls. ls_Status (rl_lease rl') = StatusStale)) a"
  using assms
proof (induction n arbitrary: rl k a)
  case 0
  then show ?case by (simp add: wp_simps)
next
  case (Suc n)
  have step: "wp (ticks E n rl') (\<lambda>rls _. map rl_timer (rl' # rls) =
         map (\<lambda>i. renewal_backoff.delay (k + i)) [0..<Suc n] \<and>
         (\<forall>x \<in> set (rl' # rls). ls_Status (rl_lease x) = StatusStale)) b"
    if "rl_lease rl' = (rl_lease rl)\<lparr>ls_Status := StatusStale\<rparr>" "rl_timer rl' = rl_backoff rl"
      "rl_backoff rl' = next_backoff (rl_backoff rl)" for rl' b
  proof (rule wp_mono [OF Suc.IH [of rl' "Suc k"]])
    show "exchange_fails (env_D E) (rl_lease rl')" using Suc.prems that by simp
    show "rl_backoff rl' = renewal_backoff.delay (Suc k)"
      using Suc.prems that by (simp add: renewal_backoff.delay_def)
  qed (use Suc.prems that in \<open>auto simp: upt_conv_Cons map_Suc_upt [symmetric] comp_def simp del: upt_Suc\<close>)
  show ?case
    unfolding ticks.simps wp_bind wp_return
    by (rule wp_mono [OF wp_renewal_body_fails [OF Suc.prems(1)]]) (use step in auto)
qed

subsection \<open>Restart\<close>

text \<open>What the check of one lease leaves: the lease as it was (when the kernel could not be asked),
  stale, or active with its goroutine running.\<close>

definition verdict :: "lease \<Rightarrow> 'w agent \<Rightarrow> bool" where
  "verdict l a \<longleftrightarrow> (\<exists>l'. Get (ls_Interface l) (ag_store a) = Some l' \<and> same_identity l l' \<and>
     (l' = l \<or> ls_Status l' = StatusStale \<or> ls_Status l' = StatusActive \<and> ls_InterfaceExists l' \<and>
       (\<exists>g. map_of (ag_cancels a) (ls_Interface l) = Some g \<and> map_of (ag_loops a) g = Some (loop_of l'))))"

definition loops_below :: "'w agent \<Rightarrow> bool" where
  "loops_below a \<longleftrightarrow> (\<forall>(g, _) \<in> set (ag_loops a). g < ag_next a)"

text \<open>Interface \<open>k\<close> is left alone.\<close>

definition kept_iface :: "string \<Rightarrow> 'w agent \<Rightarrow> 'w agent \<Rightarrow> bool" where
  "kept_iface k a a' \<longleftrightarrow> Get k (ag_store a') = Get k (ag_store a) \<and>
     map_of (ag_cancels a') k = map_of (ag_cancels a) k \<and>
     (\<forall>g < ag_next a. map_of (ag_loops a') g = map_of (ag_loops a) g) \<and> ag_next a \<le> ag_next a'"

lemma kept_iface_trans: "kept_iface k a b \<Longrightarrow> kept_iface k b c \<Longrightarrow> kept_iface k a c"
  by (auto simp: kept_iface_def)

lemma verdict_kept:
  assumes "verdict l a" "kept_iface (ls_Interface l) a a'" "loops_below a"
  shows "verdict l a'"
proof -
  from assms(3) have "map_of (ag_loops a) g = Some rl \<Longrightarrow> g < ag_next a" for g rl
    by (auto simp: loops_below_def dest!: map_of_SomeD)
  with assms(1,2) show ?thesis
    unfolding verdict_def kept_iface_def by fastforce
qed

lemma wp_verifyLease:
  assumes "loops_below a" "Get (ls_Interface l) (ag_store a) = Some l"
  shows "wp (verifyLease E l) (\<lambda>_ a'. loops_below a' \<and> verdict l a' \<and>
     (\<forall>k. k \<noteq> ls_Interface l \<longrightarrow> kept_iface k a a')) a"
proof -
  let ?P = "\<lambda>a'. loops_below a' \<and> verdict l a' \<and> (\<forall>k. k \<noteq> ls_Interface l \<longrightarrow> kept_iface k a a')"
  have same: "?P (a\<lparr>ag_world := w\<rparr>)" for w
    using assms by (auto simp: loops_below_def verdict_def kept_iface_def)
  have stale: "wp (on_store (Set G l')) (\<lambda>_. ?P) (a\<lparr>ag_world := w\<rparr>)"
    if "same_identity l l'" "ls_Status l' = StatusStale" for G l' w
    using that assms(1)
    by (intro wp_on_store_Set)
      (auto simp: loops_below_def verdict_def kept_iface_def saved_as_def Get_def same_identity_def)
  have active: "wp (on_store (Set G l')) (\<lambda>_. wp (startRenewalLoop l') (\<lambda>_. ?P)) (a\<lparr>ag_world := w\<rparr>)"
    if "same_identity l l'" "ls_Status l' = StatusActive" "ls_InterfaceExists l'" for G l' w
    using that assms(1)
    unfolding startRenewalLoop_def wp_modify loop_of_def [symmetric]
    by (intro wp_on_store_Set)
      (auto simp: loops_below_def verdict_def kept_iface_def saved_as_def Get_def same_identity_def)
  have ex: "ls_InterfaceExists (renewed D now li (l\<lparr>ls_InterfaceExists := True\<rparr>))" for D now li
    by (simp add: renewed_def)
  show ?thesis
    unfolding verifyLease_def
    by (auto simp: wp_simps Let_def same ex intro!: wp_on_world stale active split: sum.split bool.split)
qed

lemma wp_verify_all:
  assumes "loops_below a" "\<forall>l \<in> set ls. Get (ls_Interface l) (ag_store a) = Some l"
    "distinct (map ls_Interface ls)"
  shows "wp (verify_all E ls) (\<lambda>_ a'. loops_below a' \<and> (\<forall>l \<in> set ls. verdict l a') \<and>
     (\<forall>k. k \<notin> ls_Interface ` set ls \<longrightarrow> kept_iface k a a')) a"
  using assms
proof (induction ls arbitrary: a)
  case Nil
  then show ?case by (simp add: wp_simps kept_iface_def)
next
  case (Cons l ls)
  have "wp (verify_all E ls) (\<lambda>_ c. loops_below c \<and> (\<forall>l' \<in> set (l # ls). verdict l' c) \<and>
     (\<forall>k. k \<notin> ls_Interface ` set (l # ls) \<longrightarrow> kept_iface k a c)) b"
    if b: "loops_below b" "verdict l b" "\<forall>k. k \<noteq> ls_Interface l \<longrightarrow> kept_iface k a b" for b
  proof (rule wp_mono [OF Cons.IH [of b]])
    show "loops_below b" by (rule b)
    show "\<forall>l \<in> set ls. Get (ls_Interface l) (ag_store b) = Some l"
    proof
      fix l'
      assume "l' \<in> set ls"
      with Cons.prems(3) have "ls_Interface l' \<noteq> ls_Interface l" by (metis distinct.simps(2) image_eqI list.set_map list.simps(9))
      with b(3) have "Get (ls_Interface l') (ag_store b) = Get (ls_Interface l') (ag_store a)"
        by (simp add: kept_iface_def)
      with Cons.prems(2) \<open>l' \<in> set ls\<close> show "Get (ls_Interface l') (ag_store b) = Some l'" by simp
    qed
    show "distinct (map ls_Interface ls)" using Cons.prems(3) by simp
  next
    fix c
    assume "loops_below c \<and> (\<forall>l \<in> set ls. verdict l c) \<and>
      (\<forall>k. k \<notin> ls_Interface ` set ls \<longrightarrow> kept_iface k b c)"
    with b Cons.prems(3) show "loops_below c \<and> (\<forall>l' \<in> set (l # ls). verdict l' c) \<and>
      (\<forall>k. k \<notin> ls_Interface ` set (l # ls) \<longrightarrow> kept_iface k a c)"
      by (auto intro: verdict_kept kept_iface_trans)
  qed
  then show ?case
    unfolding verify_all.simps wp_bind
    by (intro wp_mono [OF wp_verifyLease]) (use Cons.prems in auto)
qed

text \<open>\<^verbatim>\<open>Start\<close> on the agent that \<open>New\<close> built: every lease that was loaded gets its verdict, and no
  other interface appears.\<close>

lemma wp_Start:
  assumes "store_wf (ag_store a)" "ag_loops a = []"
    and perm: "\<And>ls. mset (env_perm E ls) = mset ls"
  shows "wp (Start E) (\<lambda>_ a'. (\<forall>k. case Get k (ag_store a) of
      None \<Rightarrow> Get k (ag_store a') = None | Some l \<Rightarrow> verdict l a')) a"
proof -
  let ?ls = "List (env_perm E) (ag_store a)"
  have set_perm: "set (env_perm E ls) = set ls" for ls
    using perm [of ls] by (metis set_mset_mset)
  have wf: "distinct (map fst (st_leases (ag_store a)))"
    "\<forall>(k, l) \<in> set (st_leases (ag_store a)). ls_Interface l = k"
    using assms(1) by (simp_all add: store_wf_def)
  have "map ls_Interface ?ls = map fst (env_perm E (st_leases (ag_store a)))"
    using wf(2) by (auto simp: List_def set_perm comp_def intro!: map_cong)
  moreover have "distinct (map fst (env_perm E (st_leases (ag_store a))))"
    using wf(1) perm by (metis mset_map mset_eq_imp_distinct_iff)
  ultimately have d: "distinct (map ls_Interface ?ls)" by simp
  have mem: "l \<in> set ?ls \<longleftrightarrow> Get (ls_Interface l) (ag_store a) = Some l" for l
    using wf by (auto simp: List_def set_perm Get_def dest: map_of_SomeD intro!: image_eqI)
  have below: "loops_below a" using assms(2) by (simp add: loops_below_def)
  show ?thesis
    unfolding Start_def verifyLeases_def wp_bind wp_gets wp_return
  proof (rule wp_mono [OF wp_verify_all [OF below _ d]])
    fix a'
    assume post: "loops_below a' \<and> (\<forall>l \<in> set ?ls. verdict l a') \<and>
      (\<forall>k. k \<notin> ls_Interface ` set ?ls \<longrightarrow> kept_iface k a a')"
    show "\<forall>k. case Get k (ag_store a) of None \<Rightarrow> Get k (ag_store a') = None | Some l \<Rightarrow> verdict l a'"
    proof
      fix k
      show "case Get k (ag_store a) of None \<Rightarrow> Get k (ag_store a') = None | Some l \<Rightarrow> verdict l a'"
      proof (cases "Get k (ag_store a)")
        case None
        with mem have "k \<notin> ls_Interface ` set ?ls" by auto
        with post None show ?thesis by (simp add: kept_iface_def)
      next
        case (Some l)
        with store_wf_Get [OF assms(1)] have "ls_Interface l = k" by blast
        with Some mem have "l \<in> set ?ls" by simp
        with post Some show ?thesis by simp
      qed
    qed
  qed (use mem in auto)
qed

subsection \<open>A run\<close>

definition sim_E :: "(sim_packet, sim_world) agent_env" where
  "sim_E = \<lparr>env_K = sim_K, env_D = sim_D, env_G = sim_G, env_Now = sim_Now, env_perm = id\<rparr>"

definition sim_agent :: "sim_world agent" where
  "sim_agent = \<lparr>ag_store = sim_store, ag_cancels = [], ag_loops = [], ag_next = 0,
     ag_shutdown = False, ag_world = sim_init\<rparr>"

definition sim_request :: content where
  "sim_request = Doc (LeaseRequest_json \<lparr>rq_Interface = ''wan0'', rq_WanParent = ''eth8'',
     rq_MACAddress = ''02:00:00:00:00:01''\<rparr>)"

lemmas agent_run = handleAllocateLease_def handleReleaseLease_def release_locked_def releaseLease_def
  stopRenewalLoop_def sim_request_def sim_E_def sim_agent_def allocate_locked_def allocateLease_def
  allocate_steps_def CreateMacvlan_def DeleteMacvlan_def CleanupInterface_def tolerate_not_exist_def
  sim_defs sim_init_def on_world_def on_store_def AcquireLease_def ReleaseLease_def with_client_def
  NewClient_def sim_D_def extract_lease_def sim_ack_def lease_info_of_def SendGratuitousARP_def
  garp_loop.simps SetupInterface_def Set_def Delete_def save_def new_lease_def startRenewalLoop_def
  AcquireInflight_def ReleaseInflight_def on_disk_def os_WriteFile_def os_Rename_def next_io_def
  sim_store_def Let_def leases_marshal_def lease_marshal_def ip_marshal_def Get_def eval_nat_numeral

lemma sim_mac: "ParseMAC ''02:00:00:00:00:01'' = Some [2, 0, 0, 0, 0, 1]"
  by code_simp

lemma sim_addrs: "\<not> no_addr [203, 0, 113, 7]" "\<not> no_addr [203, 0, 113, 1]"
  by code_simp+

lemma sim_env_links: "env_links sim_E sim_linkset"
  by (simp add: env_links_def sim_E_def sim_netlink sim_reliable sim_dhcp_leaves sim_Now_keeps)

lemma sim_created:
  "resp_status (fst (run_state (handleAllocateLease sim_E sim_request) sim_agent)) = StatusCreated"
  by (simp add: agent_run sim_mac sim_addrs)

definition sim_agent1 :: "sim_world agent" where
  "sim_agent1 = snd (run_state (handleAllocateLease sim_E sim_request) sim_agent)"

lemma sim_agent1: "store_wf (ag_store sim_agent1)" "Get ''wan0'' (ag_store sim_agent1) \<noteq> None"
  "st_inflight (ag_store sim_agent1) = []" "sim_linkset (ag_world sim_agent1) = {''wan0'', ''eth8''}"
  unfolding sim_agent1_def by (simp_all add: agent_run sim_mac sim_addrs store_wf_def)

text \<open>The same run on a disk that fails to write.\<close>

definition sim_full_agent :: "sim_world agent" where
  "sim_full_agent = sim_agent\<lparr>ag_store := sim_store\<lparr>st_disk := \<lparr>disk_files = [],
     disk_script = [IoFail ''no space left on device'']\<rparr>\<rparr>\<rparr>"

lemma sim_full:
  "\<exists>r a'. run_state (handleAllocateLease sim_E sim_request) sim_full_agent = (r, a') \<and>
     Get ''wan0'' (ag_store a') \<noteq> None \<and> resp_status r = StatusServiceUnavailable"
  by (simp add: agent_run sim_mac sim_addrs sim_full_agent_def)

subsection \<open>Properties\<close>

text \<open>C3: \<^verbatim>\<open>POST /leases\<close>. A 201 means that the interface had no lease and no operation in flight, that
  a new active lease with a usable address for exactly the requested interface, parent and MAC is
  in memory and in the state file, that its renewal goroutine runs with its timer at half of the
  lease time and can be cancelled, and that the body names that lease. Any other answer starts no
  goroutine, leaves the state file and every other interface alone.\<close>

theorem allocate_answers:
  "wp (handleAllocateLease E body) (\<lambda>r a'. if resp_status r = StatusCreated
     then (\<exists>req m l. LeaseRequest_decode body = Some req \<and> ParseMAC (rq_MACAddress req) = Some m \<and>
        rq_Interface req \<notin> set (st_inflight (ag_store a)) \<and> created (env_G E) req m l r a a')
     else (\<exists>i e. not_added i e a a')) a"
  by (rule wp_handleAllocateLease)

text \<open>C6: No interface is left behind: where the kernel's lookups and deletions work, an allocation
  answered 201 adds exactly the requested interface to the kernel's table of links, and one answered
  otherwise leaves the table as it was, whichever of its steps failed.\<close>

theorem allocate_leaves_no_interface:
  assumes "env_links E links"
  shows "wp (handleAllocateLease E body) (\<lambda>r a'. if resp_status r = StatusCreated
     then (\<exists>req. LeaseRequest_decode body = Some req \<and>
        links (ag_world a') = insert (rq_Interface req) (links (ag_world a)))
     else links (ag_world a') = links (ag_world a)) a"
  using assms by (rule wp_links_handleAllocateLease)

theorem allocate_leaves_no_interface_witness:
  "sim_linkset (ag_world (snd (run_state (handleAllocateLease sim_E sim_request) sim_agent))) = {''wan0'', ''eth8''}"
  using allocate_leaves_no_interface [OF sim_env_links, of sim_request sim_agent] sim_created
  by (auto simp: wp_def sim_request_def split: prod.splits) (auto simp: sim_agent_def sim_init_def)

text \<open>C12: Operations on one interface exclude each other: while one is in flight, a release and a
  valid allocation for it are answered 409 and change nothing at all, not even by a call to the
  kernel or the DHCP server; and every handler gives back the locks it took, on every path.\<close>

theorem operations_exclude_each_other:
  assumes "i \<in> set (st_inflight (ag_store a))" and "i \<noteq> []" and "p \<noteq> []" and "ParseMAC mc = Some m"
    and "mc \<noteq> []"
  shows "run_state (handleReleaseLease E i) a = (busy_response i, a) \<and>
     run_state (handleAllocateLease E (Doc (LeaseRequest_json
        \<lparr>rq_Interface = i, rq_WanParent = p, rq_MACAddress = mc\<rparr>))) a = (busy_response i, a) \<and>
     wp (handleReleaseLease E k) (\<lambda>_ a'. set (st_inflight (ag_store a')) = set (st_inflight (ag_store a))) a \<and>
     wp (handleAllocateLease E body) (\<lambda>_ a'. set (st_inflight (ag_store a')) = set (st_inflight (ag_store a))) a"
  by (intro conjI busy_refused [OF assms(1)] busy_refused(2) [OF assms(1) LeaseRequest_roundtrip]
      allocate_restores_locks release_restores_locks) (use assms in simp_all)

theorem operations_exclude_each_other_witness:
  "run_state (handleReleaseLease sim_E ''wan0'') (with_locks [''wan0''] sim_agent) =
     (busy_response ''wan0'', with_locks [''wan0''] sim_agent)"
  using operations_exclude_each_other [of "''wan0''" "with_locks [''wan0''] sim_agent" "''eth8''"
      "''02:00:00:00:00:01''" _ sim_E] sim_mac
  by simp

text \<open>C7: \<^verbatim>\<open>DELETE /leases/{interface}\<close> on a free interface with a lease forgets the lease and cancels its
  renewal goroutine whatever fails on the way (DHCP RELEASE, kernel cleanup, saving); 204 means that
  the state file was rewritten without it and 500 that only the file is behind. Without a lease the
  answer is 404 and nothing changed.\<close>

theorem release_answers:
  assumes "store_wf (ag_store a)"
  shows "wp (handleReleaseLease E i) (\<lambda>r a'.
     if i \<in> set (st_inflight (ag_store a)) then resp_status r = StatusConflict \<and> a' = a
     else if Get i (ag_store a) = None then resp_status r = StatusNotFound \<and> unchanged_but_locks a a'
     else resp_status r \<in> {StatusNoContent, StatusInternalServerError} \<and>
       removed (env_G E) i (resp_status r = StatusNoContent) a a') a"
  using assms by (rule wp_handleReleaseLease)

theorem release_answers_witness:
  "resp_status (fst (run_state (handleReleaseLease sim_E ''wan0'') sim_agent1)) \<in>
     {StatusNoContent, StatusInternalServerError} \<and>
   Get ''wan0'' (ag_store (snd (run_state (handleReleaseLease sim_E ''wan0'') sim_agent1))) = None"
  using release_answers [OF sim_agent1(1), of sim_E "''wan0''"] sim_agent1(2,3)
  by (auto simp: wp_def removed_def split: prod.splits if_splits)

text \<open>Where the kernel works, a release removes the interface from the kernel's table of links
  and nothing else, and a refused release touches no link.\<close>

theorem release_removes_interface:
  assumes "env_links E links" and "store_wf (ag_store a)"
  shows "wp (handleReleaseLease E i) (\<lambda>r a'. links (ag_world a') =
     (if resp_status r \<in> {StatusConflict, StatusNotFound} then links (ag_world a)
      else links (ag_world a) - {i})) a"
  using assms by (rule wp_links_handleReleaseLease)

theorem release_removes_interface_witness:
  "wp (handleReleaseLease sim_E ''wan0'') (\<lambda>r a'. sim_linkset (ag_world a') =
     (if resp_status r \<in> {StatusConflict, StatusNotFound} then {''wan0'', ''eth8''}
      else {''wan0'', ''eth8''} - {''wan0''})) sim_agent1"
  using release_removes_interface [OF sim_env_links sim_agent1(1), of "''wan0''"]
  unfolding sim_agent1(4) .

text \<open>C13: One expiry of a renewal timer: the store then holds the goroutine's lease with its interface,
  parent, address, MAC and creation time unchanged, and no other lease changes. Either the lease is
  active and saved, the backoff is back at a minute and the timer at half of the lease time, or it
  is stale, the timer is set to the current backoff and the backoff is doubled up to its ceiling.\<close>

theorem renewal_turn: "wp (renewal_body E rl) (turned (env_G E) rl a) a"
  by (rule wp_renewal_body)

text \<open>C14: While the DHCP server does not answer, the attempts of a freshly started renewal goroutine
  are spaced 1, 2, 4 and 8 minutes and then 15 minutes for ever, and the lease is stale after
  each.\<close>

theorem renewal_backoff_sequence:
  assumes "exchange_fails (env_D E) (rl_lease rl)" and "rl_backoff rl = minute"
  shows "wp (ticks E n rl) (\<lambda>rls _. map rl_timer rls = map (\<lambda>k. min (minute * 2 ^ k) (15 * minute)) [0..<n] \<and>
     list_all (\<lambda>rl'. ls_Status (rl_lease rl') = StatusStale) rls) a"
  using wp_ticks_fail [OF assms(1), of 0 n a] assms(2) renewal_backoff.delay_0
  by (simp add: renewal_delay maxBackoff_def list_all_iff)

definition sim_down_E :: "(sim_packet, sim_world) agent_env" where
  "sim_down_E = sim_E\<lparr>env_D := sim_D\<lparr>nclient4_New := (\<lambda>_ _. ret (Inl ''network is down''))\<rparr>\<rparr>"

theorem renewal_backoff_sequence_witness:
  "wp (ticks sim_down_E 6 (loop_of sim_lease)) (\<lambda>rls _.
     map rl_timer rls = map (\<lambda>k. k * minute) [1, 2, 4, 8, 15, 15]) sim_agent"
proof -
  have "exchange_fails (env_D sim_down_E) (rl_lease (loop_of sim_lease))"
    by (simp add: exchange_fails_def sim_down_E_def RenewLease_def RebindLease_def with_client_def wp_simps)
  from renewal_backoff_sequence [OF this, of 6 sim_agent] show ?thesis
    by (rule wp_mono) (auto simp: loop_of_def upt_rec time_defs)
qed

text \<open>Restart: \<^verbatim>\<open>Start\<close> gives every lease that was loaded a verdict and invents none. A lease keeps its
  identity and is either left as it was (the kernel could not be asked), stale, or active with its
  interface present and its own renewal goroutine running and cancellable.\<close>

theorem start_judges_every_lease:
  assumes "store_wf (ag_store a)" and "ag_loops a = []" and "\<And>ls. mset (env_perm E ls) = mset ls"
  shows "wp (Start E) (\<lambda>_ a'. \<forall>k. case Get k (ag_store a) of
      None \<Rightarrow> Get k (ag_store a') = None | Some l \<Rightarrow> verdict l a') a"
  using assms by (rule wp_Start)

theorem start_judges_every_lease_witness:
  "wp (Start sim_E) (\<lambda>_ a'. verdict sim_lease a')
     (sim_agent\<lparr>ag_store := sim_store\<lparr>st_leases := [(''wan0'', sim_lease)]\<rparr>\<rparr>)"
  using start_judges_every_lease [of "sim_agent\<lparr>ag_store := sim_store\<lparr>st_leases := [(''wan0'', sim_lease)]\<rparr>\<rparr>" sim_E]
  by (auto simp: sim_E_def sim_agent_def sim_store_def store_wf_def sim_lease_def zero_lease_def Get_def
      elim!: wp_mono dest!: spec [of _ "''wan0''"])



end
