(* ===== verification/AgentClient.thy ===== *)
theory AgentClient
  imports Agent
begin

text \<open>
  \<^verbatim>\<open>internal/router/agent_client.go\<close>: the operator's client of the router agent, and the HTTP
  routes of the agent it talks to (\<^verbatim>\<open>New\<close> in \<^verbatim>\<open>internal/agent/agent.go\<close>). The transport is a parameter:
  \<open>http_Do\<close> sends a request and answers a response or an error, \<open>url_error\<close> is the error that
  \<^verbatim>\<open>http.NewRequestWithContext\<close> finds in a URL. \<open>direct\<close> is the transport that reaches an agent
  without loss; on it the client's calls and the agent's handlers are one program, and the
  theorems at the end say what a caller of the client learns about the agent's state.

  The tunnel is modelled as the life cycle of its sockets: dial, listen, the turns of the goroutine
  that accepts and forwards connections, close. What \<^verbatim>\<open>copyConn\<close> does with a connection is in
  theory \<open>CopyConn\<close>.
\<close>

record http_request =
  hq_method :: string
  hq_path :: string
  hq_body :: "content option"

record 'w http_lib =
  url_error :: "string \<Rightarrow> string option"
  http_Do :: "http_request \<Rightarrow> ('w, response result) state"

record tunnel =
  tn_ssh :: nat
  tn_listener :: nat
  tn_localAddr :: string

definition NewRequest :: "'w http_lib \<Rightarrow> tunnel \<Rightarrow> string \<Rightarrow> string \<Rightarrow> content option \<Rightarrow> http_request result" where
  "NewRequest H c meth path body = (case url_error H (''http://'' @ tn_localAddr c @ path) of
      Some e \<Rightarrow> Inl (wrapf ''failed to create request'' e)
    | None \<Rightarrow> Inr \<lparr>hq_method = meth, hq_path = path, hq_body = body\<rparr>)"

definition agent_returned :: "response \<Rightarrow> string" where
  "agent_returned resp = ''agent returned '' @ fmt_d (resp_status resp) @ '': '' @
     er_Error (ErrorResponse_decode (resp_body resp))"

text \<open>The request is built and sent; \<open>k\<close> reads the response.\<close>

definition call :: "'w http_lib \<Rightarrow> http_request result \<Rightarrow> (response \<Rightarrow> 'a result) \<Rightarrow> ('w, 'a result) state" where
  "call H req k = (case req of
      Inl e \<Rightarrow> ret (Inl e)
    | Inr req \<Rightarrow> do {
        resp \<leftarrow> http_Do H req;
        ret (case resp of Inl e \<Rightarrow> Inl (wrapf ''agent request failed'' e) | Inr resp \<Rightarrow> k resp)
      })"

definition AllocateLease :: "golib \<Rightarrow> 'w http_lib \<Rightarrow> tunnel \<Rightarrow> string \<Rightarrow> string \<Rightarrow> string \<Rightarrow> ('w, string result) state" where
  "AllocateLease G H c iface wanParent macAddr =
     (let body = LeaseRequest_json \<lparr>rq_Interface = iface, rq_WanParent = wanParent, rq_MACAddress = macAddr\<rparr>
      in call H (NewRequest H c ''POST'' ''/leases'' (Some (Doc body))) (\<lambda>resp.
        if resp_status resp \<noteq> StatusCreated then Inl (agent_returned resp)
        else (case LeaseResponse_decode G (resp_body resp) of
            None \<Rightarrow> Inl (wrapf ''decode response failed'' (json_error G (resp_body resp)))
          | Some result \<Rightarrow> Inr (rs_IPAddress result))))"

definition ListLeases :: "golib \<Rightarrow> 'w http_lib \<Rightarrow> tunnel \<Rightarrow> ('w, LeaseStatus list result) state" where
  "ListLeases G H c = call H (NewRequest H c ''GET'' ''/leases'' None) (\<lambda>resp.
     if resp_status resp \<noteq> StatusOK then Inl (agent_returned resp)
     else (case LeaseListResponse_decode G (resp_body resp) of
         None \<Rightarrow> Inl (wrapf ''decode response failed'' (json_error G (resp_body resp)))
       | Some result \<Rightarrow> Inr (ll_Leases result)))"

text \<open>\<^verbatim>\<open>nil, nil\<close> for an interface the agent does not know is \<open>Inr None\<close>.\<close>

definition GetLease :: "golib \<Rightarrow> 'w http_lib \<Rightarrow> tunnel \<Rightarrow> string \<Rightarrow> ('w, LeaseStatus option result) state" where
  "GetLease G H c iface = call H (NewRequest H c ''GET'' (''/leases/'' @ iface) None) (\<lambda>resp.
     if resp_status resp = StatusNotFound then Inr None
     else if resp_status resp \<noteq> StatusOK then Inl (agent_returned resp)
     else (case LeaseStatus_decode G (resp_body resp) of
         None \<Rightarrow> Inl (wrapf ''decode response failed'' (json_error G (resp_body resp)))
       | Some status \<Rightarrow> Inr (Some status)))"

definition client_ReleaseLease :: "'w http_lib \<Rightarrow> tunnel \<Rightarrow> string \<Rightarrow> ('w, unit result) state" where
  "client_ReleaseLease H c iface = call H (NewRequest H c ''DELETE'' (''/leases/'' @ iface) None) (\<lambda>resp.
     if resp_status resp = StatusNotFound then Inr ()
     else if resp_status resp \<noteq> StatusNoContent then Inl (agent_returned resp)
     else Inr ())"

subsection \<open>The tunnel\<close>

text \<open>A handle is an open socket: the SSH connection, the local listener, an accepted connection or a
  connection through the tunnel.\<close>

datatype accepted = AcceptTimeout | AcceptError | Accepted nat

record 'w tunnel_lib =
  ssh_Dial :: "string \<Rightarrow> ('w, nat result) state"
  ssh_Forward :: "nat \<Rightarrow> string \<Rightarrow> ('w, nat result) state"
  net_Listen :: "string \<Rightarrow> ('w, (nat \<times> string) result) state"
  net_Accept :: "nat \<Rightarrow> ('w, accepted) state"
  sock_Close :: "nat \<Rightarrow> ('w, unit result) state"

definition NewAgentClient :: "'w tunnel_lib \<Rightarrow> string \<Rightarrow> ('w, tunnel result) state" where
  "NewAgentClient T routerAddr = do {
     sshClient \<leftarrow> ssh_Dial T (routerAddr @ '':22'');
     (case sshClient of
        Inl e \<Rightarrow> ret (Inl (wrapf ''ssh dial failed'' e))
      | Inr sshClient \<Rightarrow> do {
          l \<leftarrow> net_Listen T ''127.0.0.1:0'';
          (case l of
             Inl e \<Rightarrow> do {
               _ \<leftarrow> sock_Close T sshClient;
               ret (Inl (wrapf ''local listen failed'' e))
             }
           | Inr (listener, localAddr) \<Rightarrow>
               ret (Inr \<lparr>tn_ssh = sshClient, tn_listener = listener, tn_localAddr = localAddr\<rparr>))
        })
   }"

text \<open>One turn of the goroutine that forwards connections. \<open>before\<close> and \<open>after\<close> say whether the context
  is cancelled at the head of the loop and after \<^verbatim>\<open>Accept\<close>. The result says whether the loop goes on,
  and which pair of connections was handed to \<^verbatim>\<open>copyConn\<close>.\<close>

definition tunnel_turn ::
  "'w tunnel_lib \<Rightarrow> tunnel \<Rightarrow> bool \<Rightarrow> bool \<Rightarrow> ('w, bool \<times> (nat \<times> nat) option) state" where
  "tunnel_turn T c before after =
     (if before then ret (False, None)
      else do {
        a \<leftarrow> net_Accept T (tn_listener c);
        (case a of
           AcceptTimeout \<Rightarrow> ret (True, None)
         | AcceptError \<Rightarrow> ret (False, None)
         | Accepted localConn \<Rightarrow>
             if after then do { _ \<leftarrow> sock_Close T localConn; ret (False, None) }
             else do {
               r \<leftarrow> ssh_Forward T (tn_ssh c) ''127.0.0.1:8692'';
               (case r of
                  Inl _ \<Rightarrow> do { _ \<leftarrow> sock_Close T localConn; ret (True, None) }
                | Inr remoteConn \<Rightarrow> ret (True, Some (localConn, remoteConn)))
             })
      })"

text \<open>\<^verbatim>\<open>Close\<close>: the context is cancelled, then the goroutine finishes. \<open>mid\<close> says where the
  cancellation meets it: \<open>None\<close> at the head of its loop, \<open>Some after\<close> inside a turn. At the next
  head it sees the cancellation and returns, and its deferred call closes the listener. Then the SSH
  connection is closed.\<close>

definition tunnel_finish ::
  "'w tunnel_lib \<Rightarrow> tunnel \<Rightarrow> bool option \<Rightarrow> ('w, (nat \<times> nat) option) state" where
  "tunnel_finish T c mid = do {
     t \<leftarrow> (case mid of None \<Rightarrow> ret (True, None) | Some after \<Rightarrow> tunnel_turn T c False after);
     _ \<leftarrow> (if fst t then tunnel_turn T c True True else ret t);
     _ \<leftarrow> sock_Close T (tn_listener c);
     ret (snd t)
   }"

definition client_Close ::
  "'w tunnel_lib \<Rightarrow> bool option \<Rightarrow> tunnel \<Rightarrow> ('w, unit result \<times> (nat \<times> nat) option) state" where
  "client_Close T mid c = do {
     forwarded \<leftarrow> tunnel_finish T c mid;
     r \<leftarrow> sock_Close T (tn_ssh c);
     ret (r, forwarded)
   }"

subsection \<open>The agent's routes\<close>

text \<open>A path element that the server's router passes on unchanged.\<close>

definition plain_char :: "char \<Rightarrow> bool" where
  "plain_char ch \<longleftrightarrow> (let n = of_char ch :: nat in (97 \<le> n \<and> n \<le> 122) \<or> (65 \<le> n \<and> n \<le> 90) \<or> (48 \<le> n \<and> n \<le> 57) \<or>
     n = 45 \<or> n = 95)"

definition plain_segment :: "string \<Rightarrow> bool" where
  "plain_segment s \<longleftrightarrow> s \<noteq> [] \<and> list_all plain_char s"

text \<open>The patterns registered in \<^verbatim>\<open>New\<close>; \<open>other\<close> is what the standard library's multiplexer answers to
  every other request.\<close>

definition serve ::
  "('p, 'w) agent_env \<Rightarrow> (http_request \<Rightarrow> response) \<Rightarrow> http_request \<Rightarrow> ('w agent, response) state" where
  "serve E other req =
     (let path = hq_path req; meth = hq_method req; seg = drop 8 path;
          body = (case hq_body req of None \<Rightarrow> Torn | Some b \<Rightarrow> b)
      in if path = ''/leases'' \<and> meth = ''POST'' then handleAllocateLease E body
         else if path = ''/leases'' \<and> meth = ''GET'' then handleListLeases E
         else if path = ''/health'' \<and> meth = ''GET'' then handleHealth
         else if take 8 path = ''/leases/'' \<and> plain_segment seg \<and> meth = ''GET'' then handleGetLease E seg
         else if take 8 path = ''/leases/'' \<and> plain_segment seg \<and> meth = ''DELETE'' then handleReleaseLease E seg
         else ret (other req))"

text \<open>The transport without loss.\<close>

definition direct :: "('p, 'w) agent_env \<Rightarrow> (http_request \<Rightarrow> response) \<Rightarrow> 'w agent http_lib" where
  "direct E other = \<lparr>url_error = (\<lambda>_. None), http_Do = (\<lambda>req. do { r \<leftarrow> serve E other req; ret (Inr r) })\<rparr>"

lemma serve_routes:
  "serve E other \<lparr>hq_method = ''POST'', hq_path = ''/leases'', hq_body = Some b\<rparr> = handleAllocateLease E b"
  "serve E other \<lparr>hq_method = ''GET'', hq_path = ''/leases'', hq_body = None\<rparr> = handleListLeases E"
  "plain_segment i \<Longrightarrow>
     serve E other \<lparr>hq_method = ''GET'', hq_path = ''/leases/'' @ i, hq_body = None\<rparr> = handleGetLease E i"
  "plain_segment i \<Longrightarrow>
     serve E other \<lparr>hq_method = ''DELETE'', hq_path = ''/leases/'' @ i, hq_body = None\<rparr> = handleReleaseLease E i"
  by (simp_all add: serve_def Let_def)

lemma wp_direct: "wp (http_Do (direct E other) req) Q = wp (serve E other req) (\<lambda>r. Q (Inr r))"
  by (simp add: direct_def wp_simps)

lemma wp_call_direct:
  "wp (call (direct E other) (NewRequest (direct E other) c meth path body) k) Q =
     wp (serve E other \<lparr>hq_method = meth, hq_path = path, hq_body = body\<rparr>) (\<lambda>resp. Q (k resp))"
  by (simp add: call_def NewRequest_def direct_def wp_simps)

subsection \<open>Client and agent together\<close>

lemma decode_created:
  assumes "times_roundtrip G" "created G req m l r a a'"
  shows "LeaseResponse_decode G (resp_body r) = Some \<lparr>rs_IPAddress = IP_String (ls_IPAddress l),
     rs_ExpiresAt = ls_ExpiresAt l\<rparr>"
  using assms by (simp add: created_def times_roundtrip_def LeaseResponse_roundtrip)

definition obtained :: "golib \<Rightarrow> string \<Rightarrow> string \<Rightarrow> string \<Rightarrow> string \<Rightarrow> 'w agent \<Rightarrow> 'w agent \<Rightarrow> bool" where
  "obtained G iface wanParent macAddr p a a' \<longleftrightarrow> (\<exists>m l. ParseMAC macAddr = Some m \<and>
     fresh_lease iface wanParent m l \<and> p = IP_String (ls_IPAddress l) \<and> added G l a a' \<and>
     Get iface (ag_store a) = None)"

lemma wp_client_AllocateLease:
  assumes G: "times_roundtrip (env_G E)"
  shows "wp (AllocateLease (env_G E) (direct E other) c iface wanParent macAddr) (\<lambda>r a'. case r of
      Inr p \<Rightarrow> obtained (env_G E) iface wanParent macAddr p a a'
    | Inl _ \<Rightarrow> (\<exists>i e. not_added i e a a')) a"
proof -
  let ?req = "\<lparr>rq_Interface = iface, rq_WanParent = wanParent, rq_MACAddress = macAddr\<rparr>"
  have "LeaseResponse_decode (env_G E) (resp_body r) = Some \<lparr>rs_IPAddress = IP_String (ls_IPAddress l),
      rs_ExpiresAt = ls_ExpiresAt l\<rparr> \<and> obtained (env_G E) iface wanParent macAddr (IP_String (ls_IPAddress l)) a a'"
    if "created (env_G E) ?req m l r a a'" "ParseMAC macAddr = Some m" for m l r a'
    using that decode_created [OF G that(1)] by (auto simp: obtained_def created_def)
  then show ?thesis
    unfolding AllocateLease_def Let_def wp_call_direct serve_routes
    by (intro wp_mono [OF wp_handleAllocateLease]) (auto split: if_splits option.splits)
qed

lemma unchanged_Get: "unchanged_but_locks a a' \<Longrightarrow> Get k (ag_store a') = Get k (ag_store a)"
  by (auto simp: unchanged_but_locks_def)

lemma removed_Get: "removed G i d a a' \<Longrightarrow> Get i (ag_store a') = None"
  by (simp add: removed_def)

lemma wp_client_ReleaseLease:
  assumes "store_wf (ag_store a)" "plain_segment iface"
  shows "wp (client_ReleaseLease (direct E other) c iface) (\<lambda>r a'.
     if is_err r \<and> iface \<in> set (st_inflight (ag_store a)) then a' = a
     else Get iface (ag_store a') = None) a"
  unfolding client_ReleaseLease_def wp_call_direct serve_routes(4) [OF assms(2)]
proof (rule wp_mono [OF wp_handleReleaseLease [OF assms(1)]])
  fix resp :: response and a'
  assume post: "if iface \<in> set (st_inflight (ag_store a)) then resp_status resp = StatusConflict \<and> a' = a
     else if Get iface (ag_store a) = None
       then resp_status resp = StatusNotFound \<and> unchanged_but_locks a a'
     else resp_status resp \<in> {StatusNoContent, StatusInternalServerError} \<and>
       removed (env_G E) iface (resp_status resp = StatusNoContent) a a'"
  show "if is_err (if resp_status resp = StatusNotFound then Inr ()
       else if resp_status resp \<noteq> StatusNoContent then Inl (agent_returned resp) else Inr ()) \<and>
       iface \<in> set (st_inflight (ag_store a)) then a' = a else Get iface (ag_store a') = None"
  proof (cases "iface \<in> set (st_inflight (ag_store a))")
    case True
    with post show ?thesis by (simp add: http_status_defs)
  next
    case False
    with post show ?thesis
      by (cases "Get iface (ag_store a)") (auto dest: unchanged_Get [of _ _ iface] removed_Get)
  qed
qed

lemma wp_client_GetLease:
  assumes "times_roundtrip (env_G E)" "plain_segment iface"
    and "\<And>l. Get iface (ag_store a) = Some l \<Longrightarrow> - (2 ^ 63) \<le> ls_RenewalCount l \<and> ls_RenewalCount l < 2 ^ 63"
  shows "wp (GetLease (env_G E) (direct E other) c iface) (\<lambda>r a'. a' = a \<and>
     r = Inr (map_option lease_status (Get iface (ag_store a)))) a"
proof (cases "Get iface (ag_store a)")
  case None
  then show ?thesis
    unfolding GetLease_def wp_call_direct serve_routes(3) [OF assms(2)]
    by (simp add: handleGetLease_def wp_simps)
next
  case (Some l)
  have "LeaseStatus_decode (env_G E) (Doc (LeaseStatus_json (env_G E) (lease_status l))) = Some (lease_status l)"
    using assms(1) assms(3) [OF Some]
    by (intro LeaseStatus_roundtrip) (simp_all add: times_roundtrip_def lease_status_def)
  with Some show ?thesis
    unfolding GetLease_def wp_call_direct serve_routes(3) [OF assms(2)]
    by (simp add: handleGetLease_def wp_simps http_status_defs)
qed

lemma wp_client_ListLeases:
  assumes "times_roundtrip (env_G E)"
    and "\<forall>l \<in> set (List (env_perm E) (ag_store a)). - (2 ^ 63) \<le> ls_RenewalCount l \<and> ls_RenewalCount l < 2 ^ 63"
  shows "wp (ListLeases (env_G E) (direct E other) c) (\<lambda>r a'. a' = a \<and>
     r = Inr (map lease_status (List (env_perm E) (ag_store a)))) a"
proof -
  let ?L = "\<lparr>ll_Leases = map lease_status (List (env_perm E) (ag_store a))\<rparr>"
  have "LeaseListResponse_decode (env_G E) (Doc (LeaseListResponse_json (env_G E) ?L)) = Some ?L"
    using assms by (intro LeaseListResponse_roundtrip) (auto simp: times_roundtrip_def lease_status_def)
  then show ?thesis
    unfolding ListLeases_def wp_call_direct serve_routes(2)
    by (simp add: handleListLeases_def wp_simps)
qed

text \<open>The handles that are open: opening adds a new one when it succeeds, closing removes it.\<close>

definition opens :: "('w \<Rightarrow> nat set) \<Rightarrow> ('a \<Rightarrow> nat option) \<Rightarrow> ('w, 'a) state \<Rightarrow> bool" where
  "opens conns h m \<longleftrightarrow> (\<forall>w. wp m (\<lambda>r w'. case h r of None \<Rightarrow> conns w' = conns w
     | Some i \<Rightarrow> i \<notin> conns w \<and> conns w' = insert i (conns w)) w)"

definition of_accept :: "accepted \<Rightarrow> nat option" where
  "of_accept a = (case a of Accepted i \<Rightarrow> Some i | _ \<Rightarrow> None)"

definition of_result :: "'a result \<Rightarrow> 'a option" where
  "of_result r = (case r of Inl _ \<Rightarrow> None | Inr x \<Rightarrow> Some x)"

definition tunnel_spec :: "'w tunnel_lib \<Rightarrow> ('w \<Rightarrow> nat set) \<Rightarrow> bool" where
  "tunnel_spec T conns \<longleftrightarrow>
     (\<forall>p. opens conns of_result (ssh_Dial T p)) \<and>
     (\<forall>c p. opens conns of_result (ssh_Forward T c p)) \<and>
     (\<forall>p. opens conns (map_option fst \<circ> of_result) (net_Listen T p)) \<and>
     (\<forall>l. opens conns of_accept (net_Accept T l)) \<and>
     (\<forall>h w. wp (sock_Close T h) (\<lambda>_ w'. conns w' = conns w - {h}) w)"

lemma wp_opens:
  assumes "opens conns h m"
    and "\<And>r w'. h r = None \<Longrightarrow> conns w' = conns w \<Longrightarrow> Q r w'"
    and "\<And>r i w'. h r = Some i \<Longrightarrow> i \<notin> conns w \<Longrightarrow> conns w' = insert i (conns w) \<Longrightarrow> Q r w'"
  shows "wp m Q w"
proof -
  have "wp m (\<lambda>r w'. case h r of None \<Rightarrow> conns w' = conns w
     | Some i \<Rightarrow> i \<notin> conns w \<and> conns w' = insert i (conns w)) w"
    using assms(1) by (simp add: opens_def)
  then show ?thesis by (rule wp_mono) (auto split: option.splits intro: assms(2,3))
qed

text \<open>\<open>handed t\<close>: the handles that now belong to \<^verbatim>\<open>copyConn\<close>.\<close>

definition handed :: "(nat \<times> nat) option \<Rightarrow> nat set" where
  "handed t = (case t of None \<Rightarrow> {} | Some (i, j) \<Rightarrow> {i, j})"

lemma wp_sock_Close:
  assumes "tunnel_spec T conns" "\<And>x w'. conns w' = conns w - {h} \<Longrightarrow> Q x w'"
  shows "wp (sock_Close T h) Q w"
proof -
  have "wp (sock_Close T h) (\<lambda>_ w'. conns w' = conns w - {h}) w"
    using assms(1) by (simp add: tunnel_spec_def)
  then show ?thesis by (rule wp_mono) (rule assms(2))
qed

lemma wp_tunnel_turn:
  assumes T: "tunnel_spec T conns"
  shows "wp (tunnel_turn T c before after) (\<lambda>t w'. conns w' = conns w \<union> handed (snd t) \<and>
     handed (snd t) \<inter> conns w = {} \<and> (before \<longrightarrow> t = (False, None) \<and> w' = w)) w"
proof -
  have accept: "opens conns of_accept (net_Accept T l)" and fwd: "opens conns of_result (ssh_Forward T k p)" for l k p
    using T by (simp_all add: tunnel_spec_def)
  show ?thesis
    unfolding tunnel_turn_def
    by (auto simp: of_accept_def of_result_def wp_simps handed_def split: accepted.splits sum.splits
        intro!: wp_sock_Close [OF T] wp_opens [OF fwd] wp_opens [OF accept])
qed

lemma wp_tunnel_finish:
  assumes T: "tunnel_spec T conns"
  shows "wp (tunnel_finish T c mid) (\<lambda>t w'. conns w' = (conns w \<union> handed t) - {tn_listener c} \<and>
     handed t \<inter> conns w = {}) w"
  unfolding tunnel_finish_def
  by (cases mid) (auto simp: wp_simps handed_def tunnel_turn_def [of T c True] intro!: wp_sock_Close [OF T]
      wp_mono [OF wp_tunnel_turn [OF T]])

definition opened :: "nat set \<Rightarrow> nat set \<Rightarrow> tunnel \<Rightarrow> bool" where
  "opened before now c \<longleftrightarrow> now = {tn_ssh c, tn_listener c} \<union> before \<and> tn_ssh c \<noteq> tn_listener c \<and>
     tn_ssh c \<notin> before \<and> tn_listener c \<notin> before"

lemma wp_NewAgentClient:
  assumes T: "tunnel_spec T conns"
  shows "wp (NewAgentClient T addr) (\<lambda>r w'. case r of Inl _ \<Rightarrow> conns w' = conns w
     | Inr c \<Rightarrow> opened (conns w) (conns w') c) w"
proof -
  have dial: "opens conns of_result (ssh_Dial T p)"
    and listen: "opens conns (map_option fst \<circ> of_result) (net_Listen T p)" for p
    using T by (simp_all add: tunnel_spec_def)
  show ?thesis
    unfolding NewAgentClient_def
    by (auto simp: wp_simps of_result_def opened_def split: sum.splits
      intro!: wp_opens [OF dial] wp_opens [OF listen] wp_sock_Close [OF T])
qed

lemma wp_client_Close:
  assumes "tunnel_spec T conns" "opened before (conns w) c"
  shows "wp (client_Close T mid c) (\<lambda>(_, t) w'. conns w' = before \<union> handed t \<and> handed t \<inter> before = {}) w"
  unfolding client_Close_def using assms(2)
  by (auto simp: wp_simps opened_def intro!: wp_mono [OF wp_tunnel_finish [OF assms(1)]] wp_sock_Close [OF assms(1)])

subsection \<open>Properties\<close>

text \<open>Client and agent agree: an address that \<^verbatim>\<open>AllocateLease\<close> returns through a transport without
  loss is the address of a new active lease for exactly the requested interface, parent and MAC,
  which the agent holds in memory and on disk with its renewal goroutine running; after an error the
  agent started no goroutine and changed neither its file nor another interface.\<close>

theorem client_allocation_agrees:
  assumes "times_roundtrip (env_G E)"
  shows "wp (AllocateLease (env_G E) (direct E other) c iface wanParent macAddr) (\<lambda>r a'. case r of
      Inr p \<Rightarrow> obtained (env_G E) iface wanParent macAddr p a a'
    | Inl _ \<Rightarrow> (\<exists>i e. not_added i e a a')) a"
  using assms by (rule wp_client_AllocateLease)

definition sim_tunnel :: tunnel where
  "sim_tunnel = \<lparr>tn_ssh = 1, tn_listener = 2, tn_localAddr = ''127.0.0.1:40000''\<rparr>"

definition sim_other :: "http_request \<Rightarrow> response" where
  "sim_other _ = \<lparr>resp_status = 404, resp_body = Torn\<rparr>"

lemma sim_env_G: "env_G sim_E = sim_G"
  by (simp add: sim_E_def)

theorem client_allocation_agrees_witness:
  "wp (AllocateLease sim_G (direct sim_E sim_other) sim_tunnel ''wan0'' ''eth8'' ''02:00:00:00:00:01'')
     (\<lambda>r a'. case r of
        Inr p \<Rightarrow> obtained sim_G ''wan0'' ''eth8'' ''02:00:00:00:00:01'' p sim_agent a'
      | Inl _ \<Rightarrow> (\<exists>i e. not_added i e sim_agent a')) sim_agent"
  by (rule client_allocation_agrees [of sim_E, unfolded sim_env_G, OF sim_times])

text \<open>Releasing through the client is idempotent and final: unless another operation on the
  interface is in flight (then nothing changed), the agent has no lease for the interface
  afterwards, also when it had none before and also when the call returns an error.\<close>

theorem client_release_idempotent:
  assumes "store_wf (ag_store a)" and "plain_segment iface"
  shows "wp (client_ReleaseLease (direct E other) c iface) (\<lambda>r a'.
     if is_err r \<and> iface \<in> set (st_inflight (ag_store a)) then a' = a
     else Get iface (ag_store a') = None) a"
  using assms by (rule wp_client_ReleaseLease)

lemma sim_segment: "plain_segment ''wan0''"
  by (simp add: plain_segment_def plain_char_def)

theorem client_release_idempotent_witness:
  "wp (client_ReleaseLease (direct sim_E sim_other) sim_tunnel ''wan0'')
     (\<lambda>_ a'. Get ''wan0'' (ag_store a') = None) sim_agent1"
  using client_release_idempotent [OF sim_agent1(1) sim_segment, of sim_E sim_other sim_tunnel]
  by (simp add: sim_agent1(3))

text \<open>Renewal counters that are 64-bit integers, as they are in the program.\<close>

definition counts_ok :: "store \<Rightarrow> bool" where
  "counts_ok s \<longleftrightarrow> (\<forall>(k, l) \<in> set (st_leases s). - (2 ^ 63) \<le> ls_RenewalCount l \<and> ls_RenewalCount l < 2 ^ 63)"

text \<open>\<^verbatim>\<open>GetLease\<close> and \<^verbatim>\<open>ListLeases\<close> read the agent's store exactly and change nothing: an unknown
  interface is the nil status without an error.\<close>

theorem client_reads_exactly:
  assumes "times_roundtrip (env_G E)" and "plain_segment iface" and "counts_ok (ag_store a)"
    and "\<And>ls. set (env_perm E ls) = set ls"
  shows "wp (GetLease (env_G E) (direct E other) c iface) (\<lambda>r a'. a' = a \<and>
       r = Inr (map_option lease_status (Get iface (ag_store a)))) a \<and>
     wp (ListLeases (env_G E) (direct E other) c) (\<lambda>r a'. a' = a \<and>
       r = Inr (map lease_status (List (env_perm E) (ag_store a)))) a"
proof
  show "wp (GetLease (env_G E) (direct E other) c iface) (\<lambda>r a'. a' = a \<and>
       r = Inr (map_option lease_status (Get iface (ag_store a)))) a"
    by (rule wp_client_GetLease [OF assms(1,2)])
      (use assms(3) in \<open>auto simp: counts_ok_def Get_def dest!: map_of_SomeD\<close>)
  show "wp (ListLeases (env_G E) (direct E other) c) (\<lambda>r a'. a' = a \<and>
       r = Inr (map lease_status (List (env_perm E) (ag_store a)))) a"
    by (rule wp_client_ListLeases [OF assms(1)])
      (use assms(3,4) in \<open>auto simp: counts_ok_def List_def\<close>)
qed

theorem client_reads_exactly_witness:
  "wp (GetLease sim_G (direct sim_E sim_other) sim_tunnel ''wan0'') (\<lambda>r a'. a' = sim_agent \<and> r = Inr None) sim_agent"
proof -
  have "Get ''wan0'' (ag_store sim_agent) = None" "counts_ok (ag_store sim_agent)" "env_perm sim_E = id"
    by (simp_all add: sim_agent_def sim_store_def Get_def sim_E_def counts_ok_def)
  then show ?thesis
    using client_reads_exactly [of sim_E "''wan0''" sim_agent sim_other sim_tunnel] sim_times sim_segment
    by (simp add: sim_env_G)
qed


text \<open>A system that numbers its sockets, can be out of ports and has a connection waiting.\<close>

definition sim_open :: "(nat list, nat) state" where
  "sim_open = State (\<lambda>w. (Suc (sum_list w), Suc (sum_list w) # w))"

definition sim_T :: "bool \<Rightarrow> nat list tunnel_lib" where
  "sim_T ports = \<lparr>ssh_Dial = (\<lambda>_. do { h \<leftarrow> sim_open; ret (Inr h) }),
     ssh_Forward = (\<lambda>_ _. do { h \<leftarrow> sim_open; ret (Inr h) }),
     net_Listen = (\<lambda>_. if ports then do { h \<leftarrow> sim_open; ret (Inr (h, ''127.0.0.1:40000'')) }
       else ret (Inl ''address already in use'')),
     net_Accept = (\<lambda>_. do { h \<leftarrow> sim_open; ret (Accepted h) }),
     sock_Close = (\<lambda>h. do { _ \<leftarrow> modify (removeAll h); ret (Inr ()) })\<rparr>"

lemma wp_sim_open: "(\<And>i. i \<notin> set w \<Longrightarrow> Q i (i # w)) \<Longrightarrow> wp sim_open Q w"
  using fresh_handle [of w] by (simp add: sim_open_def wp_def)

lemma sim_tunnel_spec: "tunnel_spec (sim_T ports) set"
  by (auto simp: tunnel_spec_def opens_def sim_T_def of_result_def of_accept_def wp_simps intro!: wp_sim_open)


end
