(* ===== verification/SshManager.thy ===== *)
theory SshManager
  imports GoNet GoTime KernelOps "HOL-Library.Multiset"
begin

text \<open>
  \<^verbatim>\<open>internal/ssh/manager.go\<close>: the manager of one persistent SSH connection. Its state is the record
  \<open>manager\<close>: the guarded fields of the struct, the metrics, the goroutines it has started
  (\<open>sm_gos\<close>), the contexts that are cancelled, and the events handed to handlers so far
  (\<open>sm_notes\<close>; every handler runs in a goroutine of its own). Between two accesses to the locked
  fields a goroutine is at one of the points of \<open>goroutine\<close>, and each step from one point to the
  next is a program: so an interleaving of the manager's goroutines with its methods is a sequence
  of such programs (\<open>mstep\<close>).

  Dialling, running a command and closing a client are parameters (\<open>ssh_lib\<close>), as are the
  floating-point numbers that \<^verbatim>\<open>/proc/uptime\<close> is read into (\<open>float_ops\<close>). A handler is a value of
  type \<open>'h\<close>. A context is a number; \<open>bg\<close> is \<^verbatim>\<open>context.Background()\<close>.
\<close>

subsection \<open>Configuration\<close>

text \<open>\<^verbatim>\<open>net.SplitHostPort\<close>: what is wrong with an address, if anything.\<close>

definition split_host_port_error :: "string \<Rightarrow> string option" where
  "split_host_port_error s =
     (let last = length (takeWhile (\<lambda>c. c \<noteq> CHR '':'') (rev s));
          i = length s - 1 - last;
          e = length (takeWhile (\<lambda>c. c \<noteq> CHR '']'') s);
          err = (\<lambda>why. Some (''address '' @ s @ '': '' @ why))
      in if CHR '':'' \<notin> set s then err ''missing port in address''
         else if take 1 s = ''['' then
           (if CHR '']'' \<notin> set s then err ''missing ']' in address''
            else if e + 1 = length s then err ''missing port in address''
            else if e + 1 \<noteq> i then
              (if s ! (e + 1) = CHR '':'' then err ''too many colons in address''
               else err ''missing port in address'')
            else if CHR ''['' \<in> set (drop 1 s) then err ''unexpected '[' in address''
            else if CHR '']'' \<in> set (drop (e + 1) s) then err ''unexpected ']' in address''
            else None)
         else if CHR '':'' \<in> set (take i s) then err ''too many colons in address''
         else if CHR ''['' \<in> set s then err ''unexpected '[' in address''
         else if CHR '']'' \<in> set s then err ''unexpected ']' in address''
         else None)"

text \<open>Interface and function values are known by their identity; \<open>None\<close> is nil.\<close>

record router_config =
  cfg_Address :: string
  cfg_Username :: string
  cfg_AuthMethod :: "nat option"
  cfg_HostKeyCallback :: "nat option"
  cfg_Timeout :: int
  cfg_KeepAliveInterval :: int
  cfg_KeepAliveCommand :: string
  cfg_Dial :: "nat option"
  cfg_Runner :: "nat option"
  cfg_MaxBackoff :: int
  cfg_InitialBackoff :: int

text \<open>\<open>quote\<close> is the verb \<^verbatim>\<open>%q\<close>.\<close>

definition Validate :: "(string \<Rightarrow> string) \<Rightarrow> router_config \<Rightarrow> unit result" where
  "Validate quote c =
     (if cfg_Address c = [] then Inl ''address must be provided''
      else case split_host_port_error (cfg_Address c) of
        Some e \<Rightarrow> Inl (wrapf (''address '' @ quote (cfg_Address c) @ '' must be host:port'') e)
      | None \<Rightarrow>
          if cfg_Username c = [] then Inl ''username must be provided''
          else if cfg_AuthMethod c = None then Inl ''auth method must be provided''
          else Inr ())"

subsection \<open>State\<close>

datatype event_reason = ReasonReboot | ReasonConnectionDrop | ReasonReconnectSuccess

record ssh_event =
  ev_Reason :: event_reason
  ev_Err :: "string option"

record metrics =
  mt_active :: int
  mt_drops :: int
  mt_reconnects :: int

definition defaultMetrics :: metrics where
  "defaultMetrics = \<lparr>mt_active = 0, mt_drops = 0, mt_reconnects = 0\<rparr>"

definition IncActive :: "metrics \<Rightarrow> metrics" where
  "IncActive m = m\<lparr>mt_active := wrap64 (mt_active m + 1)\<rparr>"
definition DecActive :: "metrics \<Rightarrow> metrics" where
  "DecActive m = m\<lparr>mt_active := wrap64 (mt_active m - 1)\<rparr>"
definition IncDrops :: "metrics \<Rightarrow> metrics" where
  "IncDrops m = m\<lparr>mt_drops := wrap64 (mt_drops m + 1)\<rparr>"
definition IncReconnects :: "metrics \<Rightarrow> metrics" where
  "IncReconnects m = m\<lparr>mt_reconnects := wrap64 (mt_reconnects m + 1)\<rparr>"

text \<open>\<^verbatim>\<open>Metrics.Snapshot\<close> reads the three counters.\<close>

definition Snapshot :: "metrics \<Rightarrow> int \<times> int \<times> int" where
  "Snapshot m = (mt_active m, mt_drops m, mt_reconnects m)"

type_synonym ctx = nat

definition bg :: ctx where "bg = 0"

text \<open>
  Where a goroutine of the manager is:
  \<^item> \<open>Entering\<close>: in \<^verbatim>\<open>keepAliveLoop\<close>, about to evaluate its \<^verbatim>\<open>select\<close>;
  \<^item> \<open>KeepAlive c\<close>: in the \<^verbatim>\<open>select\<close> of \<^verbatim>\<open>keepAliveLoop\<close>, on the channel of context \<open>c\<close>;
  \<^item> \<open>Checked r\<close>: in \<^verbatim>\<open>checkConnection\<close>, with the answer of the keep-alive command;
  \<^item> \<open>Attempting p b\<close>: at the head of \<^verbatim>\<open>reconnectLoop\<close> with parent context \<open>p\<close> and backoff \<open>b\<close>;
  \<^item> \<open>Backoff p b\<close>: waiting in it for the timer or for \<open>p\<close>.
\<close>

datatype goroutine = Entering | KeepAlive ctx | Checked "string result" | Attempting ctx int | Backoff ctx int

record ('h, 'f) manager =
  sm_config :: router_config
  sm_conn :: "nat option"
  sm_connected :: bool
  sm_reconnecting :: bool
  sm_lastUptime :: 'f
  sm_started :: bool
  sm_handlers :: "(64 word \<times> 'h) list"
  sm_handlerSeq :: "64 word"
  sm_baseCtx :: "ctx option"
  sm_baseCancel :: bool
  sm_ctx :: "ctx option"
  sm_cancel :: bool
  sm_metrics :: metrics
  sm_gos :: "goroutine list"
  sm_nextCtx :: ctx
  sm_parents :: "(ctx \<times> ctx) list"
  sm_done :: "ctx list"
  sm_notes :: "('h \<times> ssh_event) list"
  sm_panic :: bool

record 'f float_ops =
  fl_parse :: "string \<Rightarrow> 'f result"
  fl_zero :: 'f
  fl_add1 :: "'f \<Rightarrow> 'f"
  fl_less :: "'f \<Rightarrow> 'f \<Rightarrow> bool"
  fl_duration :: "'f \<Rightarrow> int"

record 'w ssh_lib =
  sl_Dial :: "router_config \<Rightarrow> ('w, nat result) state"
  sl_Run :: "router_config \<Rightarrow> nat \<Rightarrow> string \<Rightarrow> ('w, string result) state"
  sl_Close :: "nat \<Rightarrow> ('w, unit) state"

record ('h, 'f, 'w) msys =
  ms_mgr :: "('h, 'f) manager"
  ms_world :: 'w

abbreviation on_mgr :: "(('h, 'f) manager \<Rightarrow> ('h, 'f) manager) \<Rightarrow> (('h, 'f, 'w) msys, unit) state" where
  "on_mgr f \<equiv> modify (\<lambda>s. s\<lparr>ms_mgr := f (ms_mgr s)\<rparr>)"

abbreviation get_mgr :: "(('h, 'f) manager \<Rightarrow> 'a) \<Rightarrow> (('h, 'f, 'w) msys, 'a) state" where
  "get_mgr f \<equiv> gets (\<lambda>s. f (ms_mgr s))"

definition in_world :: "('w, 'a) state \<Rightarrow> (('h, 'f, 'w) msys, 'a) state" where
  "in_world = zoom ms_world (\<lambda>w s. s\<lparr>ms_world := w\<rparr>)"

text \<open>A context is done when it or an ancestor is cancelled; a context of the manager has at most
  one ancestor of the manager's and one outside, so two steps up are enough.\<close>

definition ctx_parent :: "('h, 'f) manager \<Rightarrow> ctx \<Rightarrow> ctx" where
  "ctx_parent m c = (case map_of (sm_parents m) c of None \<Rightarrow> bg | Some p \<Rightarrow> p)"

definition ctx_done :: "('h, 'f) manager \<Rightarrow> ctx \<Rightarrow> bool" where
  "ctx_done m c \<longleftrightarrow> c \<in> set (sm_done m) \<or> ctx_parent m c \<in> set (sm_done m) \<or>
     ctx_parent m (ctx_parent m c) \<in> set (sm_done m)"

text \<open>\<^verbatim>\<open>context.WithCancel(parent)\<close>: a new context below \<open>p\<close>.\<close>

definition with_cancel :: "ctx \<Rightarrow> ('h, 'f) manager \<Rightarrow> ctx \<times> ('h, 'f) manager" where
  "with_cancel p m = (sm_nextCtx m,
     m\<lparr>sm_nextCtx := Suc (sm_nextCtx m), sm_parents := (sm_nextCtx m, p) # sm_parents m\<rparr>)"

definition spawn :: "goroutine \<Rightarrow> ('h, 'f) manager \<Rightarrow> ('h, 'f) manager" where
  "spawn g m = m\<lparr>sm_gos := g # sm_gos m\<rparr>"

definition exit_go :: "goroutine \<Rightarrow> ('h, 'f) manager \<Rightarrow> ('h, 'f) manager" where
  "exit_go g m = m\<lparr>sm_gos := remove1 g (sm_gos m)\<rparr>"

definition with_defaults :: "router_config \<Rightarrow> router_config" where
  "with_defaults cfg = cfg\<lparr>
     cfg_Timeout := (if cfg_Timeout cfg = 0 then 30 * second else cfg_Timeout cfg),
     cfg_KeepAliveInterval := (if cfg_KeepAliveInterval cfg = 0 then 30 * second else cfg_KeepAliveInterval cfg),
     cfg_KeepAliveCommand := (if cfg_KeepAliveCommand cfg = [] then ''cat /proc/uptime'' else cfg_KeepAliveCommand cfg),
     cfg_InitialBackoff := (if cfg_InitialBackoff cfg \<le> 0 then 2 * second else cfg_InitialBackoff cfg),
     cfg_MaxBackoff := (if cfg_MaxBackoff cfg \<le> 0 then minute else cfg_MaxBackoff cfg)\<rparr>"

definition NewSSHConnectionManager ::
  "(string \<Rightarrow> string) \<Rightarrow> 'f float_ops \<Rightarrow> router_config \<Rightarrow> ('h, 'f) manager result" where
  "NewSSHConnectionManager quote F cfg = (case Validate quote cfg of
      Inl e \<Rightarrow> Inl e
    | Inr _ \<Rightarrow> Inr \<lparr>
        sm_config = with_defaults cfg,
        sm_conn = None, sm_connected = False, sm_reconnecting = False, sm_lastUptime = fl_zero F,
        sm_started = False, sm_handlers = [], sm_handlerSeq = 0, sm_baseCtx = None, sm_baseCancel = False,
        sm_ctx = None, sm_cancel = False, sm_metrics = defaultMetrics, sm_gos = [],
        sm_nextCtx = 2, sm_parents = [], sm_done = [], sm_notes = [], sm_panic = False\<rparr>)"

subsection \<open>Handlers\<close>

definition RegisterHandler :: "'h option \<Rightarrow> ('h, 'f) manager \<Rightarrow> 64 word \<times> ('h, 'f) manager" where
  "RegisterHandler handler m = (case handler of
      None \<Rightarrow> (0, m)
    | Some h \<Rightarrow> let i = sm_handlerSeq m + 1 in
        (i, m\<lparr>sm_handlerSeq := i, sm_handlers := AList.update i h (sm_handlers m)\<rparr>))"

definition UnregisterHandler :: "64 word \<Rightarrow> ('h, 'f) manager \<Rightarrow> ('h, 'f) manager" where
  "UnregisterHandler i m = (if i = 0 then m else m\<lparr>sm_handlers := AList.delete i (sm_handlers m)\<rparr>)"

definition HandlerCount :: "('h, 'f) manager \<Rightarrow> nat" where
  "HandlerCount m = length (sm_handlers m)"

definition notifyHandlers :: "ssh_event \<Rightarrow> ('h, 'f) manager \<Rightarrow> ('h, 'f) manager" where
  "notifyHandlers ev m = m\<lparr>sm_notes := sm_notes m @ map (\<lambda>(_, h). (h, ev)) (sm_handlers m)\<rparr>"

definition IsConnected :: "('h, 'f) manager \<Rightarrow> bool" where "IsConnected m = sm_connected m"
definition IsReconnecting :: "('h, 'f) manager \<Rightarrow> bool" where "IsReconnecting m = sm_reconnecting m"

subsection \<open>The connection\<close>

definition establishConnection :: "'w ssh_lib \<Rightarrow> (('h, 'f, 'w) msys, unit result) state" where
  "establishConnection L = do {
     cfg \<leftarrow> get_mgr sm_config;
     r \<leftarrow> in_world (sl_Dial L cfg);
     (case r of
        Inl e \<Rightarrow> ret (Inl (wrapf ''ssh dial failed'' e))
      | Inr conn \<Rightarrow> do {
          oldConn \<leftarrow> get_mgr sm_conn;
          wasConnected \<leftarrow> get_mgr sm_connected;
          _ \<leftarrow> on_mgr (\<lambda>m. m\<lparr>sm_conn := Some conn, sm_connected := True, sm_reconnecting := False\<rparr>);
          _ \<leftarrow> (case oldConn of None \<Rightarrow> ret () | Some c \<Rightarrow> in_world (sl_Close L c));
          _ \<leftarrow> on_mgr (\<lambda>m. m\<lparr>sm_metrics := IncReconnects
                 (if wasConnected then sm_metrics m else IncActive (sm_metrics m))\<rparr>);
          _ \<leftarrow> on_mgr (notifyHandlers \<lparr>ev_Reason = ReasonReconnectSuccess, ev_Err = None\<rparr>);
          ret (Inr ())
        })
   }"

definition transitionToReconnecting :: "'w ssh_lib \<Rightarrow> string \<Rightarrow> (('h, 'f, 'w) msys, unit) state" where
  "transitionToReconnecting L err = do {
     m \<leftarrow> get_mgr id;
     (if sm_reconnecting m then ret ()
      else do {
        _ \<leftarrow> on_mgr (\<lambda>m. m\<lparr>sm_reconnecting := True, sm_connected := False, sm_conn := None,
               sm_ctx := None, sm_cancel := False\<rparr>);
        _ \<leftarrow> on_mgr (\<lambda>m'. case (sm_cancel m, sm_ctx m) of
               (True, Some c) \<Rightarrow> m'\<lparr>sm_done := c # sm_done m'\<rparr> | _ \<Rightarrow> m');
        _ \<leftarrow> (case sm_conn m of None \<Rightarrow> ret () | Some c \<Rightarrow> in_world (sl_Close L c));
        _ \<leftarrow> on_mgr (\<lambda>m'. m'\<lparr>sm_metrics := IncDrops
               (if sm_connected m then DecActive (sm_metrics m') else sm_metrics m')\<rparr>);
        _ \<leftarrow> on_mgr (notifyHandlers \<lparr>ev_Reason = ReasonConnectionDrop, ev_Err = Some err\<rparr>);
        on_mgr (\<lambda>m'. spawn (Attempting (case sm_baseCtx m of None \<Rightarrow> bg | Some b \<Rightarrow> b)
               (cfg_InitialBackoff (sm_config m'))) m')
      })
   }"

text \<open>\<open>parent\<close> is the context the caller passes.\<close>

definition Start :: "'w ssh_lib \<Rightarrow> ctx \<Rightarrow> (('h, 'f, 'w) msys, unit result) state" where
  "Start L parent = do {
     started \<leftarrow> get_mgr sm_started;
     (if started then ret (Inl ''ssh manager already started'')
      else do {
        _ \<leftarrow> on_mgr (\<lambda>m. case with_cancel parent m of (b, m) \<Rightarrow> (case with_cancel b m of (c, m) \<Rightarrow>
               m\<lparr>sm_started := True, sm_baseCtx := Some b, sm_baseCancel := True,
                 sm_ctx := Some c, sm_cancel := True\<rparr>));
        r \<leftarrow> establishConnection L;
        (case r of
           Inl e \<Rightarrow> do {
             _ \<leftarrow> transitionToReconnecting L e;
             ret (Inl (wrapf ''initial connection failed, reconnecting in background'' e))
           }
         | Inr _ \<Rightarrow> do {
             _ \<leftarrow> on_mgr (spawn Entering);
             ret (Inr ())
           })
      })
   }"

text \<open>\<^verbatim>\<open>RunCommand\<close> with a context that is not nil.\<close>

definition RunCommand :: "'w ssh_lib \<Rightarrow> string \<Rightarrow> (('h, 'f, 'w) msys, string result) state" where
  "RunCommand L command = do {
     conn \<leftarrow> get_mgr sm_conn;
     cfg \<leftarrow> get_mgr sm_config;
     (case conn of
        None \<Rightarrow> ret (Inl ''ssh connection not established'')
      | Some client \<Rightarrow> in_world (sl_Run L cfg client command))
   }"

definition parseFloat :: "'f float_ops \<Rightarrow> string \<Rightarrow> 'f result" where
  "parseFloat F value = (case fl_parse F (TrimSpace value) of
      Inl e \<Rightarrow> Inl (wrapf ''parse uptime'' e) | Inr v \<Rightarrow> Inr v)"

definition parseUptime :: "'f float_ops \<Rightarrow> string \<Rightarrow> 'f result" where
  "parseUptime F out = (case Fields out of
      [] \<Rightarrow> Inl ''empty uptime output'' | f # _ \<Rightarrow> parseFloat F f)"

text \<open>The two halves of \<^verbatim>\<open>checkConnection\<close>: running the keep-alive command, and what follows.\<close>

definition check_run :: "'w ssh_lib \<Rightarrow> (('h, 'f, 'w) msys, string result) state" where
  "check_run L = do {
     c \<leftarrow> get_mgr sm_ctx;
     cfg \<leftarrow> get_mgr sm_config;
     (case c of
        None \<Rightarrow> ret (Inl ''manager context unavailable'')
      | Some _ \<Rightarrow> RunCommand L (cfg_KeepAliveCommand cfg))
   }"

definition check_answer :: "'f float_ops \<Rightarrow> string result \<Rightarrow> (('h, 'f, 'w) msys, unit result) state" where
  "check_answer F r = (case r of
      Inl e \<Rightarrow> ret (Inl e)
    | Inr out \<Rightarrow> (case parseUptime F out of
          Inl e \<Rightarrow> ret (Inl e)
        | Inr uptime \<Rightarrow> do {
            previous \<leftarrow> get_mgr sm_lastUptime;
            _ \<leftarrow> on_mgr (\<lambda>m. m\<lparr>sm_lastUptime := uptime\<rparr>);
            _ \<leftarrow> (if fl_less F (fl_zero F) previous \<and> fl_less F (fl_add1 F uptime) previous
                   then on_mgr (notifyHandlers \<lparr>ev_Reason = ReasonReboot, ev_Err = None\<rparr>)
                   else ret ());
            ret (Inr ())
          }))"

definition checkConnection :: "'f float_ops \<Rightarrow> 'w ssh_lib \<Rightarrow> (('h, 'f, 'w) msys, unit result) state" where
  "checkConnection F L = do { r \<leftarrow> check_run L; check_answer F r }"

subsection \<open>Steps of the goroutines\<close>

text \<open>\<^verbatim>\<open>keepAliveLoop\<close>: entering the \<^verbatim>\<open>select\<close> evaluates \<^verbatim>\<open>m.ctx.Done()\<close>, a nil dereference when \<^verbatim>\<open>m.ctx\<close> is
  nil; then the ticker fires or the context is done.\<close>

definition ka_enter :: "(('h, 'f, 'w) msys, unit) state" where
  "ka_enter = on_mgr (\<lambda>m. case sm_ctx m of
      None \<Rightarrow> (exit_go Entering m)\<lparr>sm_panic := True\<rparr>
    | Some c \<Rightarrow> spawn (KeepAlive c) (exit_go Entering m))"

definition ka_tick :: "'w ssh_lib \<Rightarrow> ctx \<Rightarrow> (('h, 'f, 'w) msys, unit) state" where
  "ka_tick L c = do {
     r \<leftarrow> check_run L;
     on_mgr (\<lambda>m. spawn (Checked r) (exit_go (KeepAlive c) m))
   }"

text \<open>The answer is in: drop the connection and return, or go round the loop.\<close>

definition ka_answer :: "'f float_ops \<Rightarrow> 'w ssh_lib \<Rightarrow> string result \<Rightarrow> (('h, 'f, 'w) msys, unit) state" where
  "ka_answer F L r = do {
     _ \<leftarrow> on_mgr (exit_go (Checked r));
     res \<leftarrow> check_answer F r;
     (case res of
        Inl e \<Rightarrow> transitionToReconnecting L e
      | Inr _ \<Rightarrow> on_mgr (spawn Entering))
   }"

definition ka_done :: "ctx \<Rightarrow> (('h, 'f, 'w) msys, unit) state" where
  "ka_done c = on_mgr (exit_go (KeepAlive c))"

text \<open>One turn of \<^verbatim>\<open>reconnectLoop\<close>.\<close>

definition reconnect_next :: "int \<Rightarrow> int \<Rightarrow> int" where
  "reconnect_next maxb backoff = (let backoff = wrap64 (backoff * 2) in if backoff > maxb then maxb else backoff)"

definition rc_attempt :: "'w ssh_lib \<Rightarrow> ctx \<Rightarrow> int \<Rightarrow> (('h, 'f, 'w) msys, unit) state" where
  "rc_attempt L p b = do {
     _ \<leftarrow> on_mgr (exit_go (Attempting p b));
     m \<leftarrow> get_mgr id;
     (if ctx_done m p then ret ()
      else do {
        r \<leftarrow> establishConnection L;
        (case r of
           Inl _ \<Rightarrow> on_mgr (spawn (Backoff p b))
         | Inr _ \<Rightarrow> do {
             _ \<leftarrow> on_mgr (\<lambda>m. if sm_ctx m = None \<or> \<not> sm_cancel m
                    then (case with_cancel p m of (c, m) \<Rightarrow> m\<lparr>sm_ctx := Some c, sm_cancel := True\<rparr>) else m);
             _ \<leftarrow> on_mgr (\<lambda>m. m\<lparr>sm_reconnecting := False\<rparr>);
             on_mgr (spawn Entering)
           })
      })
   }"

definition rc_timer :: "ctx \<Rightarrow> int \<Rightarrow> (('h, 'f, 'w) msys, unit) state" where
  "rc_timer p b = on_mgr (\<lambda>m.
     spawn (Attempting p (reconnect_next (cfg_MaxBackoff (sm_config m)) b)) (exit_go (Backoff p b) m))"

definition rc_stop :: "ctx \<Rightarrow> int \<Rightarrow> (('h, 'f, 'w) msys, unit) state" where
  "rc_stop p b = on_mgr (exit_go (Backoff p b))"

text \<open>\<^verbatim>\<open>Close\<close> up to \<^verbatim>\<open>wg.Wait()\<close>, which waits for every goroutine, and from there on.\<close>

record closing =
  cl_started :: bool
  cl_conn :: "nat option"
  cl_wasConnected :: bool

definition close_begin :: "(('h, 'f, 'w) msys, closing) state" where
  "close_begin = do {
     m \<leftarrow> get_mgr id;
     (if \<not> sm_started m then ret \<lparr>cl_started = False, cl_conn = None, cl_wasConnected = False\<rparr>
      else do {
        _ \<leftarrow> on_mgr (\<lambda>m. m\<lparr>sm_cancel := False, sm_baseCancel := False, sm_baseCtx := None,
               sm_started := False, sm_conn := None, sm_connected := False, sm_ctx := None,
               sm_reconnecting := False\<rparr>);
        _ \<leftarrow> on_mgr (\<lambda>m'. case (sm_cancel m, sm_ctx m) of
               (True, Some c) \<Rightarrow> m'\<lparr>sm_done := c # sm_done m'\<rparr> | _ \<Rightarrow> m');
        _ \<leftarrow> on_mgr (\<lambda>m'. case (sm_baseCancel m, sm_baseCtx m) of
               (True, Some c) \<Rightarrow> m'\<lparr>sm_done := c # sm_done m'\<rparr> | _ \<Rightarrow> m');
        ret \<lparr>cl_started = True, cl_conn = sm_conn m, cl_wasConnected = sm_connected m\<rparr>
      })
   }"

definition close_end :: "'w ssh_lib \<Rightarrow> closing \<Rightarrow> (('h, 'f, 'w) msys, unit) state" where
  "close_end L k = do {
     _ \<leftarrow> (case cl_conn k of None \<Rightarrow> ret () | Some c \<Rightarrow> in_world (sl_Close L c));
     (if cl_wasConnected k then on_mgr (\<lambda>m. m\<lparr>sm_metrics := DecActive (sm_metrics m)\<rparr>) else ret ())
   }"

subsection \<open>Interleavings\<close>

text \<open>
  A step of the manager: a method called from outside, a goroutine going on, or the caller's
  context being cancelled. The second component holds the calls of \<^verbatim>\<open>Close\<close> that wait for the
  goroutines. \<open>calm\<close> marks the steps other than \<^verbatim>\<open>Close\<close> and that cancellation.
\<close>

inductive mstep :: "'f float_ops \<Rightarrow> 'w ssh_lib \<Rightarrow> bool \<Rightarrow>
    ('h, 'f, 'w) msys \<times> closing list \<Rightarrow> ('h, 'f, 'w) msys \<times> closing list \<Rightarrow> bool"
  for F L where
  start: "run_state (Start L 1) s = (r, s') \<Longrightarrow> mstep F L True (s, ks) (s', ks)"
| register: "mstep F L True (s, ks) (s\<lparr>ms_mgr := snd (RegisterHandler h (ms_mgr s))\<rparr>, ks)"
| unregister: "mstep F L True (s, ks) (s\<lparr>ms_mgr := UnregisterHandler i (ms_mgr s)\<rparr>, ks)"
| command: "run_state (RunCommand L cmd) s = (r, s') \<Longrightarrow> mstep F L True (s, ks) (s', ks)"
| enter: "Entering \<in> set (sm_gos (ms_mgr s)) \<Longrightarrow> run_state ka_enter s = (r, s') \<Longrightarrow>
    mstep F L True (s, ks) (s', ks)"
| tick: "KeepAlive c \<in> set (sm_gos (ms_mgr s)) \<Longrightarrow> run_state (ka_tick L c) s = (r, s') \<Longrightarrow>
    mstep F L True (s, ks) (s', ks)"
| answer: "Checked out \<in> set (sm_gos (ms_mgr s)) \<Longrightarrow> run_state (ka_answer F L out) s = (r, s') \<Longrightarrow>
    mstep F L True (s, ks) (s', ks)"
| stopped: "KeepAlive c \<in> set (sm_gos (ms_mgr s)) \<Longrightarrow> ctx_done (ms_mgr s) c \<Longrightarrow>
    run_state (ka_done c) s = (r, s') \<Longrightarrow> mstep F L True (s, ks) (s', ks)"
| attempt: "Attempting p b \<in> set (sm_gos (ms_mgr s)) \<Longrightarrow> run_state (rc_attempt L p b) s = (r, s') \<Longrightarrow>
    mstep F L True (s, ks) (s', ks)"
| timer: "Backoff p b \<in> set (sm_gos (ms_mgr s)) \<Longrightarrow> run_state (rc_timer p b) s = (r, s') \<Longrightarrow>
    mstep F L True (s, ks) (s', ks)"
| given_up: "Backoff p b \<in> set (sm_gos (ms_mgr s)) \<Longrightarrow> ctx_done (ms_mgr s) p \<Longrightarrow>
    run_state (rc_stop p b) s = (r, s') \<Longrightarrow> mstep F L True (s, ks) (s', ks)"
| caller_cancels: "mstep F L False (s, ks) (s\<lparr>ms_mgr := (ms_mgr s)\<lparr>sm_done := 1 # sm_done (ms_mgr s)\<rparr>\<rparr>, ks)"
| closes: "run_state close_begin s = (k, s') \<Longrightarrow> mstep F L False (s, ks) (s', k # ks)"
| closed: "k \<in> set ks \<Longrightarrow> sm_gos (ms_mgr s) = [] \<Longrightarrow> run_state (close_end L k) s = (r, s') \<Longrightarrow>
    mstep F L False (s, ks) (s', remove1 k ks)"

definition mrun :: "'f float_ops \<Rightarrow> 'w ssh_lib \<Rightarrow>
    ('h, 'f, 'w) msys \<times> closing list \<Rightarrow> ('h, 'f, 'w) msys \<times> closing list \<Rightarrow> bool" where
  "mrun F L x y \<longleftrightarrow> (\<exists>b. mstep F L b x y)"

lemma mrunI: "mstep F L b x y \<Longrightarrow> mrun F L x y"
  by (auto simp: mrun_def)

subsection \<open>State and metrics agree\<close>

text \<open>Whatever the interleaving, the manager is connected exactly when it has a client, is never
  connected and reconnecting at once, and the gauge of active connections is the connections that
  are up or about to be closed.\<close>

definition minv :: "nat \<Rightarrow> ('h, 'f) manager \<Rightarrow> bool" where
  "minv n m \<longleftrightarrow> (sm_connected m \<longleftrightarrow> sm_conn m \<noteq> None) \<and> \<not> (sm_connected m \<and> sm_reconnecting m) \<and>
     mt_active (sm_metrics m) = wrap64 (int n + of_bool (sm_connected m))"

lemma wrap64_add: "wrap64 (wrap64 a + b) = wrap64 (a + b)"
  unfolding wrap64_def by (simp add: mod_simps algebra_simps)

lemma wrap64_diff: "wrap64 (wrap64 a - b) = wrap64 (a - b)"
  using wrap64_add [of a "- b"] by simp

lemma minv_gos [simp]:
  "minv n (spawn g m) = minv n m" "minv n (exit_go g m) = minv n m"
  "minv n (notifyHandlers ev m) = minv n m"
  "minv n (m\<lparr>sm_lastUptime := u\<rparr>) = minv n m" "minv n (m\<lparr>sm_panic := b\<rparr>) = minv n m"
  "minv n (m\<lparr>sm_done := ds\<rparr>) = minv n m" "minv n (UnregisterHandler i m) = minv n m"
  "minv n (snd (RegisterHandler h m)) = minv n m" "minv n (snd (with_cancel p m)) = minv n m"
  by (auto simp: minv_def spawn_def exit_go_def notifyHandlers_def UnregisterHandler_def
      RegisterHandler_def with_cancel_def Let_def split: option.split)

lemma wp_in_world: "(\<And>x w. Q x (s\<lparr>ms_world := w\<rparr>)) \<Longrightarrow> wp (in_world m) Q s"
  by (simp add: in_world_def wp_zoom wp_any)

lemma minv_establish:
  assumes inv: "minv n (ms_mgr s)"
  shows "wp (establishConnection L) (\<lambda>_ s'. minv n (ms_mgr s')) s"
proof -
  have new: "minv n (notifyHandlers ev ((ms_mgr s)\<lparr>sm_conn := Some c, sm_connected := True, sm_reconnecting := False,
      sm_metrics := IncReconnects (if sm_connected (ms_mgr s) then sm_metrics (ms_mgr s)
        else IncActive (sm_metrics (ms_mgr s)))\<rparr>))" for c ev
    using inv by (auto simp: minv_def notifyHandlers_def IncReconnects_def IncActive_def wrap64_add)
  show ?thesis
    unfolding establishConnection_def
    by (auto simp: wp_simps inv intro!: wp_in_world split: sum.split option.split) (use new in simp_all)
qed

lemma minv_transition:
  assumes inv: "minv n (ms_mgr s)"
  shows "wp (transitionToReconnecting L err) (\<lambda>_ s'. minv n (ms_mgr s')) s"
  unfolding transitionToReconnecting_def
  by (auto simp: wp_simps inv intro!: wp_in_world split: sum.split option.split bool.split)
    (use inv in \<open>auto simp: minv_def notifyHandlers_def IncDrops_def DecActive_def wrap64_diff\<close>)

lemma minv_Start:
  assumes "minv n (ms_mgr s)"
  shows "wp (Start L p) (\<lambda>_ s'. minv n (ms_mgr s')) s"
proof -
  let ?m = "snd (with_cancel (sm_nextCtx (ms_mgr s)) (snd (with_cancel p (ms_mgr s))))"
  have "minv n (m\<lparr>sm_started := b, sm_baseCtx := c, sm_baseCancel := d, sm_ctx := e, sm_cancel := f\<rparr>)"
    if "minv n m" for m :: "('a, 'b) manager" and b c d e f
    using that by (auto simp: minv_def)
  with assms show ?thesis
    unfolding Start_def
    by (auto simp: wp_simps split: sum.split prod.split
        intro!: wp_mono [OF minv_establish [of n]] wp_mono [OF minv_transition [of n]])
      (metis minv_gos(9) snd_conv)
qed

lemma minv_command:
  assumes "minv n (ms_mgr s)"
  shows "wp (RunCommand L cmd) (\<lambda>_ s'. minv n (ms_mgr s')) s"
    "wp (check_run L) (\<lambda>_ s'. minv n (ms_mgr s')) s"
  using assms unfolding RunCommand_def check_run_def
  by (auto simp: wp_simps split: option.split intro!: wp_in_world)

lemma minv_answer:
  assumes "minv n (ms_mgr s)"
  shows "wp (check_answer F r) (\<lambda>_ s'. minv n (ms_mgr s')) s"
  using assms unfolding check_answer_def by (auto simp: wp_simps split: sum.split)

lemma minv_gostep:
  assumes "minv n (ms_mgr s)"
  shows "wp ka_enter (\<lambda>_ s'. minv n (ms_mgr s')) s" "wp (ka_tick L c) (\<lambda>_ s'. minv n (ms_mgr s')) s"
    "wp (ka_answer F L r) (\<lambda>_ s'. minv n (ms_mgr s')) s" "wp (ka_done c) (\<lambda>_ s'. minv n (ms_mgr s')) s"
    "wp (rc_timer p b) (\<lambda>_ s'. minv n (ms_mgr s')) s" "wp (rc_stop p b) (\<lambda>_ s'. minv n (ms_mgr s')) s"
  using assms unfolding ka_enter_def ka_tick_def ka_answer_def ka_done_def rc_timer_def rc_stop_def
  by (auto simp: wp_simps split: option.split sum.split intro!: wp_mono [OF minv_command(2) [of n]]
      wp_mono [OF minv_answer [of n]] minv_transition)

lemma minv_attempt:
  assumes "minv n (ms_mgr s)"
  shows "wp (rc_attempt L p b) (\<lambda>_ s'. minv n (ms_mgr s')) s"
proof -
  have "minv n (m\<lparr>sm_reconnecting := False, sm_ctx := c, sm_cancel := d\<rparr>)"
    "minv n (m\<lparr>sm_reconnecting := False\<rparr>)" if "minv n m" for m :: "('a, 'b) manager" and c d
    using that by (auto simp: minv_def)
  with assms show ?thesis
    unfolding rc_attempt_def
    by (auto simp: wp_simps with_cancel_def split: sum.split intro!: wp_mono [OF minv_establish [of n]])
      (auto simp: minv_def)
qed

definition pending :: "closing list \<Rightarrow> nat" where
  "pending ks = length (filter cl_wasConnected ks)"

lemma minv_close_begin:
  assumes "minv (pending ks) (ms_mgr s)"
  shows "wp close_begin (\<lambda>k s'. minv (pending (k # ks)) (ms_mgr s')) s"
  unfolding close_begin_def using assms
  by (auto simp: wp_simps split: option.split bool.split) (auto simp: minv_def pending_def algebra_simps)

lemma minv_close_end:
  assumes "minv (pending ks) (ms_mgr s)" "k \<in> set ks"
  shows "wp (close_end L k) (\<lambda>_ s'. minv (pending (remove1 k ks)) (ms_mgr s')) s"
proof -
  have "pending ks = pending (remove1 k ks) + of_bool (cl_wasConnected k)"
    using assms(2) by (induction ks) (auto simp: pending_def)
  with assms(1) show ?thesis
    unfolding close_end_def
    by (auto simp: wp_simps split: option.split intro!: wp_in_world)
      (auto simp: minv_def DecActive_def wrap64_diff algebra_simps)
qed

lemma mstep_minv:
  assumes "mstep F L b (s, ks) (s', ks')" "minv (pending ks) (ms_mgr s)"
  shows "minv (pending ks') (ms_mgr s')"
  using assms(1)
proof (cases rule: mstep.cases)
  case (closes k)
  then show ?thesis using wpD [OF minv_close_begin [OF assms(2)]] by simp
next
  case (closed k r)
  then show ?thesis using wpD [OF minv_close_end [OF assms(2)]] by blast
next
  case (start r)
  then show ?thesis using wpD [OF minv_Start [OF assms(2)]] by blast
next
  case (command cmd r)
  then show ?thesis using wpD [OF minv_command(1) [OF assms(2)]] by blast
next
  case (enter r)
  then show ?thesis using wpD [OF minv_gostep(1) [OF assms(2)]] by blast
next
  case (tick c r)
  then show ?thesis using wpD [OF minv_gostep(2) [OF assms(2)]] by blast
next
  case (answer out r)
  then show ?thesis using wpD [OF minv_gostep(3) [OF assms(2)]] by blast
next
  case (stopped c r)
  then show ?thesis using wpD [OF minv_gostep(4) [OF assms(2)]] by blast
next
  case (attempt p b r)
  then show ?thesis using wpD [OF minv_attempt [OF assms(2)]] by blast
next
  case (timer p b r)
  then show ?thesis using wpD [OF minv_gostep(5) [OF assms(2)]] by blast
next
  case (given_up p b r)
  then show ?thesis using wpD [OF minv_gostep(6) [OF assms(2)]] by blast
qed (use assms(2) in simp_all)

lemma mstep_star_minv:
  "(mrun F L)\<^sup>*\<^sup>* (s, ks) (s', ks') \<Longrightarrow> minv (pending ks) (ms_mgr s) \<Longrightarrow>
     minv (pending ks') (ms_mgr s')"
  by (induction rule: rtranclp_induct2) (auto simp: mrun_def dest: mstep_minv)

subsection \<open>The connection is always watched\<close>

text \<open>The contexts: everything that was cancelled is an old context of the manager's own.\<close>

definition ctxs_ok :: "('h, 'f) manager \<Rightarrow> bool" where
  "ctxs_ok m \<longleftrightarrow> 2 \<le> sm_nextCtx m \<and> (\<forall>d \<in> set (sm_done m). 2 \<le> d \<and> d < sm_nextCtx m) \<and>
     (\<forall>(c, p) \<in> set (sm_parents m). 2 \<le> c \<and> c < sm_nextCtx m)"

text \<open>\<open>live b m\<close>: the base context \<open>b\<close> hangs below the caller's and is not cancelled, and \<^verbatim>\<open>Close\<close> can cancel it.\<close>

definition live :: "ctx \<Rightarrow> ('h, 'f) manager \<Rightarrow> bool" where
  "live b m \<longleftrightarrow> sm_baseCancel m \<and> 2 \<le> b \<and> b < sm_nextCtx m \<and> b \<notin> set (sm_done m) \<and> map_of (sm_parents m) b = Some 1"

definition watched :: "ctx \<Rightarrow> ('h, 'f) manager \<Rightarrow> bool" where
  "watched b m \<longleftrightarrow>
     sm_connected m \<and> \<not> sm_reconnecting m \<and> sm_cancel m \<and>
       (\<exists>c. sm_ctx m = Some c \<and> c \<noteq> b \<and> 2 \<le> c \<and> c < sm_nextCtx m \<and> c \<notin> set (sm_done m) \<and>
          map_of (sm_parents m) c = Some b \<and>
          (sm_gos m = [Entering] \<or> sm_gos m = [KeepAlive c] \<or> (\<exists>r. sm_gos m = [Checked r]))) \<or>
     \<not> sm_connected m \<and> sm_reconnecting m \<and> sm_ctx m = None \<and>
       (\<exists>k. sm_gos m = [Attempting b k] \<or> sm_gos m = [Backoff b k])"

definition mon :: "('h, 'f) manager \<Rightarrow> bool" where
  "mon m \<longleftrightarrow> \<not> sm_panic m \<and> ctxs_ok m \<and>
     (if sm_started m then \<exists>b. sm_baseCtx m = Some b \<and> live b m \<and> watched b m
      else sm_gos m = [] \<and> \<not> sm_connected m \<and> \<not> sm_reconnecting m)"

lemma live_not_done: "ctxs_ok m \<Longrightarrow> live b m \<Longrightarrow> \<not> ctx_done m b"
  by (auto simp: ctxs_ok_def live_def ctx_done_def ctx_parent_def bg_def split: option.splits
      dest!: map_of_SomeD)

lemma watched_not_done:
  "ctxs_ok m \<Longrightarrow> live b m \<Longrightarrow> map_of (sm_parents m) c = Some b \<Longrightarrow> c \<notin> set (sm_done m) \<Longrightarrow> \<not> ctx_done m c"
  by (auto simp: ctxs_ok_def live_def ctx_done_def ctx_parent_def)

lemma mon_notify [simp]: "mon (notifyHandlers ev m) = mon m"
  by (simp add: mon_def ctxs_ok_def live_def watched_def notifyHandlers_def)

lemma mon_handlers [simp]: "mon (UnregisterHandler i m) = mon m" "mon (snd (RegisterHandler h m)) = mon m"
  by (auto simp: mon_def ctxs_ok_def live_def watched_def UnregisterHandler_def RegisterHandler_def Let_def
      split: option.split)

lemma mon_uptime [simp]: "mon (m\<lparr>sm_lastUptime := u\<rparr>) = mon m"
  by (simp add: mon_def ctxs_ok_def live_def watched_def)

text \<open>What dialling and dropping do to the manager.\<close>

lemma wp_establish:
  assumes "\<And>e s'. ms_mgr s' = ms_mgr s \<Longrightarrow> Q (Inl e) s'"
    and "\<And>c mt s'. ms_mgr s' = notifyHandlers \<lparr>ev_Reason = ReasonReconnectSuccess, ev_Err = None\<rparr>
       ((ms_mgr s)\<lparr>sm_conn := Some c, sm_connected := True, sm_reconnecting := False, sm_metrics := mt\<rparr>) \<Longrightarrow>
       Q (Inr ()) s'"
  shows "wp (establishConnection L) Q s"
  unfolding establishConnection_def
  by (auto simp: wp_simps intro!: wp_in_world assms split: sum.split option.split)

text \<open>The manager after a drop, as one update.\<close>

definition dropped :: "string \<Rightarrow> ('h, 'f) manager \<Rightarrow> ('h, 'f) manager" where
  "dropped err m = spawn (Attempting (case sm_baseCtx m of None \<Rightarrow> bg | Some b \<Rightarrow> b) (cfg_InitialBackoff (sm_config m)))
     (notifyHandlers \<lparr>ev_Reason = ReasonConnectionDrop, ev_Err = Some err\<rparr>
       (m\<lparr>sm_reconnecting := True, sm_connected := False, sm_conn := None, sm_ctx := None, sm_cancel := False,
          sm_done := (case (sm_cancel m, sm_ctx m) of (True, Some c) \<Rightarrow> c # sm_done m | _ \<Rightarrow> sm_done m),
          sm_metrics := IncDrops (if sm_connected m then DecActive (sm_metrics m) else sm_metrics m)\<rparr>))"

lemma sm_config_notify [simp]: "sm_config (notifyHandlers ev m) = sm_config m"
  by (simp add: notifyHandlers_def)

lemma wp_transition:
  assumes "\<not> sm_reconnecting (ms_mgr s)"
    and "\<And>s'. ms_mgr s' = dropped err (ms_mgr s) \<Longrightarrow> Q () s'"
  shows "wp (transitionToReconnecting L err) Q s"
  unfolding transitionToReconnecting_def using assms(1)
  by (cases "sm_conn (ms_mgr s)"; cases "sm_ctx (ms_mgr s)"; cases "sm_cancel (ms_mgr s)")
    (simp_all add: wp_simps, (intro conjI impI wp_in_world | rule assms(2) | simp add: dropped_def)+)

lemma mon_drop:
  assumes "ctxs_ok m" "live b m" "sm_baseCtx m = Some b" "sm_started m" "\<not> sm_panic m" "sm_gos m = []"
    "sm_ctx m = Some c" "c \<noteq> b" "2 \<le> c" "c < sm_nextCtx m" "\<not> sm_reconnecting m"
  shows "wp (transitionToReconnecting L err) (\<lambda>_ s'. mon (ms_mgr s')) (s\<lparr>ms_mgr := m\<rparr>)"
  using assms
  by (intro wp_transition)
    (auto simp: dropped_def mon_def ctxs_ok_def live_def watched_def spawn_def notifyHandlers_def split: bool.split)

lemma mon_Start:
  assumes "mon (ms_mgr s)"
  shows "wp (Start L 1) (\<lambda>_ s'. mon (ms_mgr s')) s"
proof (cases "sm_started (ms_mgr s)")
  case True
  then show ?thesis using assms by (simp add: Start_def wp_simps)
next
  case False
  let ?m = "ms_mgr s" and ?b = "sm_nextCtx (ms_mgr s)"
  let ?m1 = "?m\<lparr>sm_nextCtx := Suc (Suc ?b), sm_parents := (Suc ?b, ?b) # (?b, 1) # sm_parents ?m,
     sm_started := True, sm_baseCtx := Some ?b, sm_baseCancel := True, sm_ctx := Some (Suc ?b), sm_cancel := True\<rparr>"
  have ok: "ctxs_ok ?m1" "live ?b ?m1" "sm_gos ?m1 = []" "\<not> sm_panic ?m1" "\<not> sm_reconnecting ?m1"
    "Suc ?b \<notin> set (sm_done ?m)"
    using assms False by (auto simp: mon_def ctxs_ok_def live_def)
  have drop: "wp (transitionToReconnecting L e) (\<lambda>_ s'. mon (ms_mgr s')) s'" if "ms_mgr s' = ?m1" for e s'
  proof -
    have "wp (transitionToReconnecting L e) (\<lambda>_ s'. mon (ms_mgr s')) (s'\<lparr>ms_mgr := ?m1\<rparr>)"
      by (rule mon_drop [OF ok(1,2)]) (use ok in \<open>auto simp: ctxs_ok_def\<close>)
    then show ?thesis using that by (metis msys.surjective msys.update_convs(1) )
  qed
  show ?thesis
    unfolding Start_def using False
    by (auto simp: wp_simps with_cancel_def intro!: wp_establish drop)
      (use ok in \<open>auto simp: mon_def ctxs_ok_def live_def watched_def spawn_def notifyHandlers_def\<close>)
qed

text \<open>What a started, watched manager looks like at each point of its goroutine.\<close>

lemma mon_startedE:
  assumes "mon m" "g \<in> set (sm_gos m)"
  obtains b where "sm_started m" "\<not> sm_panic m" "ctxs_ok m" "sm_baseCtx m = Some b" "live b m" "watched b m" "sm_gos m = [g]"
  using assms by (auto simp: mon_def watched_def split: if_splits)

lemma mon_command:
  assumes "mon (ms_mgr s)"
  shows "wp (RunCommand L cmd) (\<lambda>_ s'. ms_mgr s' = ms_mgr s) s" "wp (check_run L) (\<lambda>_ s'. ms_mgr s' = ms_mgr s) s"
  unfolding RunCommand_def check_run_def
  by (auto simp: wp_simps split: option.split intro!: wp_in_world)

lemma mon_enter:
  assumes "mon (ms_mgr s)" "Entering \<in> set (sm_gos (ms_mgr s))"
  shows "wp ka_enter (\<lambda>_ s'. mon (ms_mgr s')) s"
proof -
  obtain b where b: "sm_started (ms_mgr s)" "\<not> sm_panic (ms_mgr s)" "ctxs_ok (ms_mgr s)"
    "sm_baseCtx (ms_mgr s) = Some b" "live b (ms_mgr s)" "watched b (ms_mgr s)" "sm_gos (ms_mgr s) = [Entering]"
    using assms by (rule mon_startedE)
  then obtain c where "sm_ctx (ms_mgr s) = Some c" by (auto simp: watched_def)
  with b show ?thesis
    unfolding ka_enter_def
    by (auto simp: wp_simps mon_def ctxs_ok_def live_def watched_def spawn_def exit_go_def)
qed

lemma mon_tick:
  assumes "mon (ms_mgr s)" "KeepAlive c \<in> set (sm_gos (ms_mgr s))"
  shows "wp (ka_tick L c) (\<lambda>_ s'. mon (ms_mgr s')) s"
proof -
  obtain b where b: "sm_started (ms_mgr s)" "\<not> sm_panic (ms_mgr s)" "ctxs_ok (ms_mgr s)"
    "sm_baseCtx (ms_mgr s) = Some b" "live b (ms_mgr s)" "watched b (ms_mgr s)" "sm_gos (ms_mgr s) = [KeepAlive c]"
    using assms by (rule mon_startedE)
  show ?thesis
    unfolding ka_tick_def wp_bind wp_modify
    by (rule wp_mono [OF mon_command(2) [OF assms(1)]])
      (use b in \<open>auto simp: mon_def ctxs_ok_def live_def watched_def spawn_def exit_go_def\<close>)
qed

lemma wp_check_answer:
  assumes "\<And>e s'. ms_mgr s' = ms_mgr s \<Longrightarrow> Q (Inl e) s'"
    and "\<And>u s' ns. ms_mgr s' = (ms_mgr s)\<lparr>sm_lastUptime := u, sm_notes := ns\<rparr> \<Longrightarrow> Q (Inr ()) s'"
  shows "wp (check_answer F r) Q s"
proof -
  have "Q (Inr ()) s'" if "ms_mgr s' = (ms_mgr s)\<lparr>sm_lastUptime := u\<rparr>" for u s'
    by (rule assms(2) [where u = u and ns = "sm_notes (ms_mgr s)"]) (simp add: that)
  then show ?thesis
    unfolding check_answer_def using assms(1)
    by (auto simp: wp_simps notifyHandlers_def intro!: assms(2) split: sum.split)
qed

lemma mon_answer:
  assumes "mon (ms_mgr s)" "Checked out \<in> set (sm_gos (ms_mgr s))"
  shows "wp (ka_answer F L out) (\<lambda>_ s'. mon (ms_mgr s')) s"
proof -
  obtain b where b: "sm_started (ms_mgr s)" "\<not> sm_panic (ms_mgr s)" "ctxs_ok (ms_mgr s)"
    "sm_baseCtx (ms_mgr s) = Some b" "live b (ms_mgr s)" "watched b (ms_mgr s)" "sm_gos (ms_mgr s) = [Checked out]"
    using assms by (rule mon_startedE)
  then obtain c where c: "sm_ctx (ms_mgr s) = Some c" "c \<noteq> b" "2 \<le> c" "c < sm_nextCtx (ms_mgr s)"
    "\<not> sm_reconnecting (ms_mgr s)"
    by (auto simp: watched_def)
  have drop: "wp (transitionToReconnecting L e) (\<lambda>_ s'. mon (ms_mgr s')) s'"
    if "ms_mgr s' = exit_go (Checked out) (ms_mgr s)" for e s'
  proof -
    have "wp (transitionToReconnecting L e) (\<lambda>_ s'. mon (ms_mgr s')) (s'\<lparr>ms_mgr := exit_go (Checked out) (ms_mgr s)\<rparr>)"
      by (rule mon_drop [of _ b c]) (use b c in \<open>simp_all add: exit_go_def ctxs_ok_def live_def\<close>)
    then show ?thesis using that by (metis msys.surjective msys.update_convs(1))
  qed
  show ?thesis
    unfolding ka_answer_def wp_bind wp_modify
  proof (rule wp_check_answer)
    fix u and s' :: "('a, 'b, 'c) msys" and ns
    assume "ms_mgr s' = (ms_mgr (s\<lparr>ms_mgr := exit_go (Checked out) (ms_mgr s)\<rparr>))\<lparr>sm_lastUptime := u, sm_notes := ns\<rparr>"
    with b show "wp (case Inr () of Inl e \<Rightarrow> transitionToReconnecting L e | Inr _ \<Rightarrow> on_mgr (spawn Entering))
        (\<lambda>_ s'. mon (ms_mgr s')) s'"
      by (auto simp: wp_simps mon_def ctxs_ok_def live_def watched_def spawn_def exit_go_def)
  qed (simp add: drop)
qed

lemma mon_attempt:
  assumes "mon (ms_mgr s)" "Attempting p k \<in> set (sm_gos (ms_mgr s))"
  shows "wp (rc_attempt L p k) (\<lambda>_ s'. mon (ms_mgr s')) s"
proof -
  obtain b where b: "sm_started (ms_mgr s)" "\<not> sm_panic (ms_mgr s)" "ctxs_ok (ms_mgr s)"
    "sm_baseCtx (ms_mgr s) = Some b" "live b (ms_mgr s)" "watched b (ms_mgr s)" "sm_gos (ms_mgr s) = [Attempting p k]"
    using assms by (rule mon_startedE)
  then have p: "p = b" "sm_ctx (ms_mgr s) = None" by (auto simp: watched_def)
  have "\<not> ctx_done (exit_go (Attempting p k) (ms_mgr s)) p"
    using live_not_done [OF b(3,5)] p by (simp add: ctx_done_def ctx_parent_def exit_go_def)
  then show ?thesis
    unfolding rc_attempt_def
    by (auto simp: wp_simps with_cancel_def intro!: wp_establish)
      (use b p in \<open>auto simp: mon_def ctxs_ok_def live_def watched_def spawn_def exit_go_def notifyHandlers_def\<close>)
qed

lemma mon_timer:
  assumes "mon (ms_mgr s)" "Backoff p k \<in> set (sm_gos (ms_mgr s))"
  shows "wp (rc_timer p k) (\<lambda>_ s'. mon (ms_mgr s')) s"
proof -
  obtain b where "sm_started (ms_mgr s)" "\<not> sm_panic (ms_mgr s)" "ctxs_ok (ms_mgr s)"
    "sm_baseCtx (ms_mgr s) = Some b" "live b (ms_mgr s)" "watched b (ms_mgr s)" "sm_gos (ms_mgr s) = [Backoff p k]"
    using assms by (rule mon_startedE)
  then show ?thesis
    unfolding rc_timer_def
    by (auto simp: wp_simps mon_def ctxs_ok_def live_def watched_def spawn_def exit_go_def)
qed

text \<open>No goroutine of a watched manager sees its context done.\<close>

lemma mon_not_stopped:
  assumes "mon m"
  shows "KeepAlive c \<in> set (sm_gos m) \<Longrightarrow> \<not> ctx_done m c" "Backoff p k \<in> set (sm_gos m) \<Longrightarrow> \<not> ctx_done m p"
proof -
  assume g: "KeepAlive c \<in> set (sm_gos m)"
  obtain b where "ctxs_ok m" "live b m" "watched b m" "sm_gos m = [KeepAlive c]"
    using assms g by (rule mon_startedE)
  then show "\<not> ctx_done m c" by (intro watched_not_done) (auto simp: watched_def)
next
  assume g: "Backoff p k \<in> set (sm_gos m)"
  obtain b where "ctxs_ok m" "live b m" "watched b m" "sm_gos m = [Backoff p k]"
    using assms g by (rule mon_startedE)
  then show "\<not> ctx_done m p" using live_not_done by (auto simp: watched_def)
qed

lemma mstep_mon:
  assumes "mstep F L True (s, ks) (s', ks')" "mon (ms_mgr s)"
  shows "mon (ms_mgr s') \<and> ks' = ks"
  using assms(1)
proof (cases rule: mstep.cases)
  case (start r)
  then show ?thesis using wpD [OF mon_Start [OF assms(2)]] by blast
next
  case (command cmd r)
  then show ?thesis using wpD [OF mon_command(1) [OF assms(2)]] assms(2) by metis
next
  case (enter r)
  then show ?thesis using wpD [OF mon_enter [OF assms(2)]] by blast
next
  case (tick c r)
  then show ?thesis using wpD [OF mon_tick [OF assms(2)]] by blast
next
  case (answer out r)
  then show ?thesis using wpD [OF mon_answer [OF assms(2)]] by blast
next
  case (attempt p b r)
  then show ?thesis using wpD [OF mon_attempt [OF assms(2)]] by blast
next
  case (timer p b r)
  then show ?thesis using wpD [OF mon_timer [OF assms(2)]] by blast
next
  case (stopped c r)
  then show ?thesis using mon_not_stopped(1) [OF assms(2)] by blast
next
  case (given_up p b r)
  then show ?thesis using mon_not_stopped(2) [OF assms(2)] by blast
qed (use assms(2) in simp_all)

lemma mstep_star_mon:
  "(mstep F L True)\<^sup>*\<^sup>* (s, ks) (s', ks') \<Longrightarrow> mon (ms_mgr s) \<Longrightarrow> mon (ms_mgr s') \<and> ks' = ks"
proof (induction rule: rtranclp_induct2)
  case (step s1 k1 s2 k2)
  then show ?case using mstep_mon [of F L s1 k1 s2 k2] by blast
qed simp

lemma new_manager_fields:
  assumes "NewSSHConnectionManager quote F cfg = Inr m"
  shows "\<not> sm_started m" "sm_gos m = []" "\<not> sm_connected m" "\<not> sm_reconnecting m" "sm_conn m = None"
    "\<not> sm_panic m" "sm_nextCtx m = 2" "sm_done m = []" "sm_parents m = []" "sm_metrics m = defaultMetrics"
    "sm_handlers m = []" "sm_handlerSeq m = 0" "sm_config m = with_defaults cfg"
  using assms by (auto simp: NewSSHConnectionManager_def split: sum.splits)

lemma new_manager_mon:
  assumes "NewSSHConnectionManager quote F cfg = Inr m"
  shows "mon m \<and> minv 0 m"
  using new_manager_fields [OF assms] by (simp add: mon_def ctxs_ok_def minv_def defaultMetrics_def wrap64_def)

subsection \<open>Reconnecting\<close>

lemma reconnect_doubling:
  assumes "0 < i" "0 < c" "i < 2 ^ 62" "c < 2 ^ 62"
  shows "capped_doubling i c (reconnect_next c)"
  using assms by unfold_locales (auto simp: reconnect_next_def Let_def wrap64_id)

text \<open>The defaults: 2 seconds, doubling up to a minute.\<close>

interpretation default_reconnect: capped_doubling "2 * second" minute "reconnect_next minute"
  by (rule reconnect_doubling) (simp_all add: time_defs)

lemma reconnect_delays:
  assumes "0 < i" "0 < c" "i < 2 ^ 62" "c < 2 ^ 62"
  shows "(reconnect_next c ^^ n) i = (if n = 0 then i else min (i * 2 ^ n) c)"
proof -
  have delay: "capped_doubling.delay i (reconnect_next c) n = (reconnect_next c ^^ n) i"
    by (rule capped_doubling.delay_def [OF reconnect_doubling [OF assms]])
  show ?thesis
    using capped_doubling.delay_closed [OF reconnect_doubling [OF assms], of n]
    by (cases "n = 0") (simp_all add: delay)
qed

lemma wp_establish_up:
  assumes dial: "wp (sl_Dial L (sm_config (ms_mgr s))) (\<lambda>r _. \<not> is_err r) (ms_world s)"
    and Q: "\<And>c mt s'. ms_mgr s' = notifyHandlers \<lparr>ev_Reason = ReasonReconnectSuccess, ev_Err = None\<rparr>
       ((ms_mgr s)\<lparr>sm_conn := Some c, sm_connected := True, sm_reconnecting := False, sm_metrics := mt\<rparr>) \<Longrightarrow>
       Q (Inr ()) s'"
  shows "wp (establishConnection L) Q s"
  unfolding establishConnection_def wp_bind wp_gets
proof (rule wp_mono [of _ "\<lambda>r s'. \<not> is_err r \<and> (\<exists>w. s' = s\<lparr>ms_world := w\<rparr>)"])
  show "wp (in_world (sl_Dial L (sm_config (ms_mgr s)))) (\<lambda>r s'. \<not> is_err r \<and> (\<exists>w. s' = s\<lparr>ms_world := w\<rparr>)) s"
    unfolding in_world_def wp_zoom by (rule wp_mono [OF dial]) auto
  fix r :: "nat result" and s'
  assume "\<not> is_err r \<and> (\<exists>w. s' = s\<lparr>ms_world := w\<rparr>)"
  then obtain conn w where r: "r = Inr conn" and s': "s' = s\<lparr>ms_world := w\<rparr>" by (auto elim: not_is_errE)
  show "wp (case r of Inl e \<Rightarrow> ret (Inl (wrapf ''ssh dial failed'' e))
      | Inr conn \<Rightarrow> do {
          oldConn \<leftarrow> get_mgr sm_conn;
          wasConnected \<leftarrow> get_mgr sm_connected;
          _ \<leftarrow> on_mgr (\<lambda>m. m\<lparr>sm_conn := Some conn, sm_connected := True, sm_reconnecting := False\<rparr>);
          _ \<leftarrow> (case oldConn of None \<Rightarrow> ret () | Some c \<Rightarrow> in_world (sl_Close L c));
          _ \<leftarrow> on_mgr (\<lambda>m. m\<lparr>sm_metrics := IncReconnects
                 (if wasConnected then sm_metrics m else IncActive (sm_metrics m))\<rparr>);
          _ \<leftarrow> on_mgr (notifyHandlers \<lparr>ev_Reason = ReasonReconnectSuccess, ev_Err = None\<rparr>);
          ret (Inr ())
        }) Q s'"
    by (auto simp: r s' wp_simps intro!: wp_in_world Q split: option.split)
qed

text \<open>An attempt that reaches the router ends the reconnecting, and the watch starts again.\<close>

lemma wp_attempt_succeeds:
  assumes "mon (ms_mgr s)" "Attempting p k \<in> set (sm_gos (ms_mgr s))"
    and dial: "wp (sl_Dial L (sm_config (ms_mgr s))) (\<lambda>r _. \<not> is_err r) (ms_world s)"
  shows "wp (rc_attempt L p k) (\<lambda>_ s'. sm_connected (ms_mgr s') \<and> \<not> sm_reconnecting (ms_mgr s') \<and>
     sm_gos (ms_mgr s') = [Entering]) s"
proof -
  obtain b where b: "ctxs_ok (ms_mgr s)" "live b (ms_mgr s)" "watched b (ms_mgr s)"
    "sm_gos (ms_mgr s) = [Attempting p k]"
    using assms(1,2) by (rule mon_startedE)
  then have "p = b" by (auto simp: watched_def)
  then have nd: "\<not> ctx_done (exit_go (Attempting p k) (ms_mgr s)) p"
    using live_not_done [OF b(1,2)] by (simp add: ctx_done_def ctx_parent_def exit_go_def)
  have dial': "wp (sl_Dial L (sm_config (exit_go (Attempting p k) (ms_mgr s)))) (\<lambda>r _. \<not> is_err r) (ms_world s)"
    using dial by (simp add: exit_go_def)
  show ?thesis
    unfolding rc_attempt_def using nd dial'
    by (auto simp: wp_simps intro!: wp_establish_up)
      (auto simp: with_cancel_def spawn_def notifyHandlers_def exit_go_def b(4))
qed

subsection \<open>A router to run against\<close>

definition sim_F :: "int float_ops" where
  "sim_F = \<lparr>fl_parse = (\<lambda>s. if s \<noteq> [] \<and> list_all is_digit s then Inr (int (dec_val s)) else Inl ''invalid syntax''),
     fl_zero = 0, fl_add1 = (\<lambda>x. x + 1), fl_less = (<), fl_duration = (\<lambda>x. x * second)\<rparr>"

text \<open>The world is whether the router answers the dial.\<close>

definition sim_L :: "bool ssh_lib" where
  "sim_L = \<lparr>sl_Dial = (\<lambda>_. gets (\<lambda>up. if up then Inr 1 else Inl ''connection refused'')),
     sl_Run = (\<lambda>_ _ _. gets (\<lambda>up. if up then Inr ''42 17'' else Inl ''EOF'')), sl_Close = (\<lambda>_. ret ())\<rparr>"

definition sim_config :: router_config where
  "sim_config = \<lparr>cfg_Address = ''10.0.0.1:22'', cfg_Username = ''root'', cfg_AuthMethod = Some 1,
     cfg_HostKeyCallback = Some 2, cfg_Timeout = 0, cfg_KeepAliveInterval = 0, cfg_KeepAliveCommand = [],
     cfg_Dial = None, cfg_Runner = None, cfg_MaxBackoff = 0, cfg_InitialBackoff = 0\<rparr>"

definition sim_mgr :: "(string, int) manager" where
  "sim_mgr = (case NewSSHConnectionManager id sim_F sim_config of Inr m \<Rightarrow> m)"

lemma sim_new: "NewSSHConnectionManager id sim_F sim_config = Inr sim_mgr"
proof -
  have "\<not> is_err (NewSSHConnectionManager id sim_F sim_config :: (string, int) manager result)"
    by (simp add: NewSSHConnectionManager_def sim_config_def Validate_def split_host_port_error_def)
  then show ?thesis unfolding sim_mgr_def by (auto elim: not_is_errE)
qed

subsection \<open>Properties\<close>


lemma sim_start: "\<exists>r s. run_state (Start sim_L 1) \<lparr>ms_mgr = sim_mgr, ms_world = up\<rparr> = (r, s) \<and>
    sm_connected (ms_mgr s) = up"
  using sim_new
  by (auto simp: Start_def sim_L_def in_world_def establishConnection_def transitionToReconnecting_def
      sim_mgr_def NewSSHConnectionManager_def sim_config_def Validate_def split_host_port_error_def
      with_cancel_def notifyHandlers_def spawn_def)





definition sim_lost :: "(string, int) manager" where
  "sim_lost = (ms_mgr (snd (run_state (Start sim_L 1) \<lparr>ms_mgr = sim_mgr, ms_world = False\<rparr>)))"

lemma sim_lost: "mon sim_lost" "Attempting 2 (2 * second) \<in> set (sm_gos sim_lost)"
proof -
  let ?s = "\<lparr>ms_mgr = sim_mgr, ms_world = False\<rparr>"
  have "mon (ms_mgr ?s)" using new_manager_mon [OF sim_new] by simp
  then show "mon sim_lost"
    unfolding sim_lost_def by (metis mon_Start prod.collapse wpD)
  show "Attempting 2 (2 * second) \<in> set (sm_gos sim_lost)"
    unfolding sim_lost_def using new_manager_fields [OF sim_new]
    by (simp add: Start_def establishConnection_def transitionToReconnecting_def sim_L_def in_world_def
        with_cancel_def notifyHandlers_def spawn_def with_defaults_def sim_config_def)
qed


lemmas mgr_run = Start_def establishConnection_def sim_L_def in_world_def with_cancel_def notifyHandlers_def
  spawn_def exit_go_def ka_enter_def ka_tick_def ka_answer_def check_run_def check_answer_def RunCommand_def
  close_begin_def

lemma sim_uptime: "parseUptime sim_F ''42 17'' = Inr 42"
  by code_simp


end
