(* ===== verification/SshCommands.thy ===== *)
theory SshCommands
  imports SshManager
begin

text \<open>
  \<^verbatim>\<open>internal/ssh/commands.go\<close>: the commands the operator runs on a router. Each is a program of the
  connection manager: it validates the interface name, builds a shell command in which every
  variable part is quoted, runs it and reads the answer. \<open>sh_word\<close> is the part of the POSIX shell's
  quoting that the commands rely on: what a word of single- and double-quoted pieces denotes.
\<close>

subsection \<open>Names and quoting\<close>

definition iface_char :: "char \<Rightarrow> bool" where
  "iface_char ch \<longleftrightarrow> (let n = of_char ch :: nat in (97 \<le> n \<and> n \<le> 122) \<or> (65 \<le> n \<and> n \<le> 90) \<or> (48 \<le> n \<and> n \<le> 57) \<or>
     ch = CHR ''_'' \<or> ch = CHR ''.'' \<or> ch = CHR '':'' \<or> ch = CHR ''-'')"

text \<open>\<^verbatim>\<open>ifaceNamePattern\<close>\<close>

definition ifaceNamePattern :: "string \<Rightarrow> bool" where
  "ifaceNamePattern s \<longleftrightarrow> s \<noteq> [] \<and> list_all iface_char s"

definition validateInterfaceName :: "(string \<Rightarrow> string) \<Rightarrow> string \<Rightarrow> unit result" where
  "validateInterfaceName quote name =
     (if name = [] then Inl ''interface name must not be empty''
      else if \<not> ifaceNamePattern name then Inl (''invalid interface name '' @ quote name)
      else Inr ())"

abbreviation sq :: char where "sq \<equiv> CHR 0x27"
abbreviation dq :: char where "dq \<equiv> CHR 0x22"

definition shellQuote :: "string \<Rightarrow> string" where
  "shellQuote arg = (if arg = [] then [sq, sq]
     else [sq] @ ReplaceAll arg sq [sq, dq, sq, dq, sq] @ [sq])"

text \<open>A shell word, read from the left: \<open>sh_quoted\<close> is inside single quotes, where every character
  stands for itself; \<open>sh_dquoted\<close> inside double quotes, where a dollar, a backquote, a backslash and
  an exclamation mark would be special; outside, only quotes are accepted here. \<open>None\<close> is anything
  else, an unfinished quote included.\<close>

datatype sh_mode = Outside | SingleQuoted | DoubleQuoted

fun sh_scan :: "sh_mode \<Rightarrow> string \<Rightarrow> string option" where
  "sh_scan Outside [] = Some []"
| "sh_scan Outside (c # cs) =
     (if c = sq then sh_scan SingleQuoted cs else if c = dq then sh_scan DoubleQuoted cs else None)"
| "sh_scan SingleQuoted [] = None"
| "sh_scan SingleQuoted (c # cs) =
     (if c = sq then sh_scan Outside cs else map_option (\<lambda>w. c # w) (sh_scan SingleQuoted cs))"
| "sh_scan DoubleQuoted [] = None"
| "sh_scan DoubleQuoted (c # cs) =
     (if c = dq then sh_scan Outside cs
      else if c \<in> set [CHR ''$'', CHR 0x60, CHR 0x5C, CHR ''!''] then None
      else map_option (\<lambda>w. c # w) (sh_scan DoubleQuoted cs))"

definition sh_word :: "string \<Rightarrow> string option" where
  "sh_word s = sh_scan Outside s"

lemma sh_scan_replace:
  "sh_scan SingleQuoted (ReplaceAll arg sq [sq, dq, sq, dq, sq] @ [sq]) = Some arg"
  by (induction arg) auto

lemma sh_word_shellQuote: "sh_word (shellQuote arg) = Some arg"
  using sh_scan_replace [of arg] by (simp add: sh_word_def shellQuote_def)

subsection \<open>The commands\<close>

text \<open>\<open>checked\<close> is the common head: refuse an invalid name, else run the command and read its answer.\<close>

definition checked :: "(string \<Rightarrow> string) \<Rightarrow> 'w ssh_lib \<Rightarrow> string \<Rightarrow> string \<Rightarrow> (string \<Rightarrow> 'a result) \<Rightarrow>
    (('h, 'f, 'w) msys, 'a result) state" where
  "checked quote L iface cmd read = (case validateInterfaceName quote iface of
      Inl e \<Rightarrow> ret (Inl e)
    | Inr _ \<Rightarrow> do {
        out \<leftarrow> RunCommand L cmd;
        ret (case out of Inl e \<Rightarrow> Inl e | Inr out \<Rightarrow> read out)
      })"

definition GetRouterUptime :: "'f float_ops \<Rightarrow> 'w ssh_lib \<Rightarrow> (('h, 'f, 'w) msys, int result) state" where
  "GetRouterUptime F L = do {
     out \<leftarrow> RunCommand L ''cat /proc/uptime'';
     ret (case out of Inl e \<Rightarrow> Inl e
       | Inr out \<Rightarrow> (case parseUptime F out of Inl e \<Rightarrow> Inl e | Inr u \<Rightarrow> Inr (fl_duration F u)))
   }"

definition exists_command :: "string \<Rightarrow> string" where
  "exists_command iface = ''if [ -d '' @ shellQuote (''/sys/class/net/'' @ iface) @ '' ]; then echo true; else echo false; fi''"

definition InterfaceExists :: "(string \<Rightarrow> string) \<Rightarrow> 'w ssh_lib \<Rightarrow> string \<Rightarrow> (('h, 'f, 'w) msys, bool result) state" where
  "InterfaceExists quote L iface = checked quote L iface (exists_command iface) (\<lambda>out. Inr (Contains out ''true''))"

definition IsUdhcpcRunning :: "'w ssh_lib \<Rightarrow> (('h, 'f, 'w) msys, bool result) state" where
  "IsUdhcpcRunning L = do {
     out \<leftarrow> RunCommand L ''if pgrep -x udhcpc >/dev/null 2>&1; then echo true; else echo false; fi'';
     ret (case out of Inl e \<Rightarrow> Inl e | Inr out \<Rightarrow> Inr (Contains out ''true''))
   }"

definition GetInterfaceMAC :: "(string \<Rightarrow> string) \<Rightarrow> 'w ssh_lib \<Rightarrow> string \<Rightarrow> (('h, 'f, 'w) msys, string result) state" where
  "GetInterfaceMAC quote L iface = checked quote L iface
     (''cat '' @ shellQuote (''/sys/class/net/'' @ iface @ ''/address'')) (\<lambda>out. Inr (TrimSpace out))"

definition GetInterfaceIP :: "(string \<Rightarrow> string) \<Rightarrow> 'w ssh_lib \<Rightarrow> string \<Rightarrow> (('h, 'f, 'w) msys, string result) state" where
  "GetInterfaceIP quote L iface = checked quote L iface
     (''ip -4 -o addr show dev '' @ shellQuote iface @ '' scope global | awk '' @ [sq] @
      ''NR==1 {split($4, a, '' @ [dq] @ ''/'' @ [dq] @ ''); print a[1]}'' @ [sq])
     (\<lambda>out. let p = TrimSpace out in if p = [] then Inl ''interface has no IPv4 address'' else Inr p)"

definition IsProxyARPEnabled :: "(string \<Rightarrow> string) \<Rightarrow> 'w ssh_lib \<Rightarrow> string \<Rightarrow> (('h, 'f, 'w) msys, bool result) state" where
  "IsProxyARPEnabled quote L iface = checked quote L iface
     (''cat '' @ shellQuote (''/proc/sys/net/ipv4/conf/'' @ iface @ ''/proxy_arp'')) (\<lambda>out. Inr (TrimSpace out = ''1''))"

definition IsInterfaceUp :: "(string \<Rightarrow> string) \<Rightarrow> 'w ssh_lib \<Rightarrow> string \<Rightarrow> (('h, 'f, 'w) msys, bool result) state" where
  "IsInterfaceUp quote L iface = checked quote L iface
     (''cat '' @ shellQuote (''/sys/class/net/'' @ iface @ ''/operstate'')) (\<lambda>out. Inr (TrimSpace out = ''up''))"

definition ListManagedInterfaces :: "'w ssh_lib \<Rightarrow> (('h, 'f, 'w) msys, string list result) state" where
  "ListManagedInterfaces L = do {
     out \<leftarrow> RunCommand L ''ls /sys/class/net'';
     ret (case out of Inl e \<Rightarrow> Inl e | Inr out \<Rightarrow> Inr (filter ifaceNamePattern (Fields out)))
   }"

text \<open>A query leaves the manager alone, and an invalid name never reaches the router.\<close>

lemma checked_invalid: "\<not> ifaceNamePattern iface \<Longrightarrow> \<exists>e. checked quote L iface cmd read = ret (Inl e)"
  by (auto simp: checked_def validateInterfaceName_def)

lemma iface_query_invalid:
  assumes "\<not> ifaceNamePattern iface"
  shows "\<exists>e. InterfaceExists quote L iface = ret (Inl e)" "\<exists>e. IsInterfaceUp quote L iface = ret (Inl e)"
    "\<exists>e. IsProxyARPEnabled quote L iface = ret (Inl e)" "\<exists>e. GetInterfaceMAC quote L iface = ret (Inl e)"
    "\<exists>e. GetInterfaceIP quote L iface = ret (Inl e)"
  unfolding InterfaceExists_def IsInterfaceUp_def IsProxyARPEnabled_def GetInterfaceMAC_def GetInterfaceIP_def
  by (rule checked_invalid [OF assms])+

lemma keeps_mgr_RunCommand: "keeps ms_mgr (RunCommand L cmd)"
  unfolding RunCommand_def in_world_def
  by (intro keeps_intros keeps_zoom_other) simp

lemma keeps_mgr_commands:
  "keeps ms_mgr (InterfaceExists quote L i)" "keeps ms_mgr (GetRouterUptime F L)" "keeps ms_mgr (IsUdhcpcRunning L)"
  "keeps ms_mgr (IsProxyARPEnabled quote L i)" "keeps ms_mgr (IsInterfaceUp quote L i)"
  "keeps ms_mgr (GetInterfaceMAC quote L i)" "keeps ms_mgr (GetInterfaceIP quote L i)"
  "keeps ms_mgr (ListManagedInterfaces L)"
  unfolding GetInterfaceMAC_def GetInterfaceIP_def ListManagedInterfaces_def InterfaceExists_def GetRouterUptime_def IsUdhcpcRunning_def IsProxyARPEnabled_def IsInterfaceUp_def
    checked_def
  by (intro keeps_intros keeps_mgr_RunCommand)+

subsection \<open>Properties\<close>

text \<open>C18: Quoting is safe for every string: the shell reads what \<^verbatim>\<open>shellQuote\<close> produces as one word that
  denotes exactly the argument, whatever quotes, spaces, dollars or newlines it contains.\<close>

theorem shellQuote_is_one_word: "sh_word (shellQuote arg) = Some arg"
  by (rule sh_word_shellQuote)

text \<open>C31: The queries of an interface send nothing to the router for a name outside the allowed
  alphabet, and no query changes the connection manager.\<close>

theorem queries_validate_names:
  assumes "\<not> ifaceNamePattern iface"
  shows "(\<exists>e. InterfaceExists quote L iface = ret (Inl e)) \<and> (\<exists>e. IsInterfaceUp quote L iface = ret (Inl e)) \<and>
     (\<exists>e. IsProxyARPEnabled quote L iface = ret (Inl e)) \<and> (\<exists>e. GetInterfaceMAC quote L iface = ret (Inl e)) \<and>
     (\<exists>e. GetInterfaceIP quote L iface = ret (Inl e)) \<and>
     keeps ms_mgr (InterfaceExists quote L i) \<and> keeps ms_mgr (IsInterfaceUp quote L i) \<and>
     keeps ms_mgr (IsProxyARPEnabled quote L i) \<and> keeps ms_mgr (GetInterfaceMAC quote L i) \<and>
     keeps ms_mgr (GetInterfaceIP quote L i) \<and> keeps ms_mgr (GetRouterUptime F L)"
  by (intro conjI keeps_mgr_commands iface_query_invalid [OF assms])

theorem queries_validate_names_witness:
  "\<exists>e. (InterfaceExists id sim_L ''wan0; reboot'' :: ((string, int, bool) msys, bool result) state) = ret (Inl e)"
  by (rule queries_validate_names [THEN conjunct1]) (simp add: ifaceNamePattern_def iface_char_def)

end
