(* ===== verification/SshRegistry.thy ===== *)
theory SshRegistry
  imports SshCommands
begin

text \<open>
  \<^verbatim>\<open>internal/ssh/registry.go\<close>: the registry of connection managers. A manager is an object that is
  shared by reference, so the state \<open>rsys\<close> holds a heap of managers (\<open>rg_heap\<close>, a manager is known by
  its position) beside the registry's two-level map (\<open>rg_managers\<close>) and the world. \<open>with_mgr i\<close> runs
  a program of one manager on its object.

  The identity of a configuration is computed by reflection; \<open>reflection\<close> gives what \<^verbatim>\<open>reflect\<close> sees
  of the function and interface values in it.
\<close>

subsection \<open>Identity of a configuration\<close>

text \<open>An interface value as \<^verbatim>\<open>pointerIdentity\<close> distinguishes it: nil, a value whose kind is a function,
  pointer, map or channel (its type and address; of a function the address of its code), or any
  other value (its type and its Go syntax). A value in an interface has a concrete kind, so the
  case \<^verbatim>\<open>reflect.Interface\<close> does not arise.\<close>

datatype go_value = NilInterface | Referring string nat | Plain string string

definition pointerIdentity :: "go_value \<Rightarrow> string" where
  "pointerIdentity v = (case v of
      NilInterface \<Rightarrow> ''nil''
    | Referring t p \<Rightarrow> t @ '':0x'' @ nat_hex p
    | Plain t g \<Rightarrow> t @ '':'' @ g)"

record reflection =
  rf_AuthMethod :: "nat \<Rightarrow> go_value"
  rf_Runner :: "nat \<Rightarrow> go_value"
  rf_code :: "nat \<Rightarrow> nat"

text \<open>\<^verbatim>\<open>AuthMethod\<close> and \<^verbatim>\<open>Runner\<close> are interfaces; the two others are function types, whose nil still has a
  type.\<close>

definition iface_value :: "(nat \<Rightarrow> go_value) \<Rightarrow> nat option \<Rightarrow> go_value" where
  "iface_value f v = (case v of None \<Rightarrow> NilInterface | Some x \<Rightarrow> f x)"

definition func_value :: "reflection \<Rightarrow> string \<Rightarrow> nat option \<Rightarrow> go_value" where
  "func_value R t v = Referring t (case v of None \<Rightarrow> 0 | Some x \<Rightarrow> rf_code R x)"

definition configIdentity :: "reflection \<Rightarrow> router_config \<Rightarrow> string" where
  "configIdentity R cfg = Join
     [cfg_Address cfg,
      cfg_Username cfg,
      Duration_String (cfg_Timeout cfg),
      Duration_String (cfg_KeepAliveInterval cfg),
      cfg_KeepAliveCommand cfg,
      Duration_String (cfg_MaxBackoff cfg),
      Duration_String (cfg_InitialBackoff cfg),
      pointerIdentity (iface_value (rf_AuthMethod R) (cfg_AuthMethod cfg)),
      pointerIdentity (func_value R ''ssh.HostKeyCallback'' (cfg_HostKeyCallback cfg)),
      pointerIdentity (func_value R ''ssh.DialFunc'' (cfg_Dial cfg)),
      pointerIdentity (iface_value (rf_Runner R) (cfg_Runner cfg))] ''|''"

subsection \<open>State and operations\<close>

record ('h, 'f, 'w) rsys =
  rg_managers :: "(string \<times> (string \<times> nat) list) list"
  rg_heap :: "('h, 'f) manager list"
  rg_world :: 'w

definition with_mgr :: "nat \<Rightarrow> (('h, 'f, 'w) msys, 'a) state \<Rightarrow> (('h, 'f, 'w) rsys, 'a) state" where
  "with_mgr i = zoom (\<lambda>s. \<lparr>ms_mgr = rg_heap s ! i, ms_world = rg_world s\<rparr>)
     (\<lambda>t s. s\<lparr>rg_heap := (rg_heap s)[i := ms_mgr t], rg_world := ms_world t\<rparr>)"

definition entries_at :: "string \<Rightarrow> (string \<times> (string \<times> nat) list) list \<Rightarrow> (string \<times> nat) list" where
  "entries_at addr ms = (case map_of ms addr of None \<Rightarrow> [] | Some es \<Rightarrow> es)"

text \<open>The environment of the SSH package: the verb \<^verbatim>\<open>%q\<close>, floating point, the SSH library, reflection,
  and \<open>env_wait\<close>, what a manager's goroutines do until \<^verbatim>\<open>Close\<close> finds them gone.\<close>

record ('h, 'f, 'w) ssh_env =
  env_quote :: "string \<Rightarrow> string"
  env_F :: "'f float_ops"
  env_L :: "'w ssh_lib"
  env_R :: reflection
  env_wait :: "(('h, 'f, 'w) msys, unit) state"

definition GetOrCreate :: "('h, 'f, 'w) ssh_env \<Rightarrow> router_config \<Rightarrow> (('h, 'f, 'w) rsys, nat result) state" where
  "GetOrCreate V cfg = do {
     ms \<leftarrow> gets rg_managers;
     heap \<leftarrow> gets rg_heap;
     (let key = configIdentity (env_R V) cfg; entries = entries_at (cfg_Address cfg) ms
      in case map_of entries key of
        Some i \<Rightarrow> ret (Inr i)
      | None \<Rightarrow> (case NewSSHConnectionManager (env_quote V) (env_F V) cfg of
            Inl e \<Rightarrow> ret (Inl e)
          | Inr mgr \<Rightarrow> do {
              _ \<leftarrow> modify (\<lambda>s. s\<lparr>rg_heap := heap @ [mgr],
                    rg_managers := AList.update (cfg_Address cfg) (AList.update key (length heap) entries) ms\<rparr>);
              ret (Inr (length heap))
            }))
   }"

definition Remove :: "string \<Rightarrow> (('h, 'f, 'w) rsys, unit) state" where
  "Remove addr = modify (\<lambda>s. s\<lparr>rg_managers := AList.delete addr (rg_managers s)\<rparr>)"

definition Len :: "('h, 'f, 'w) rsys \<Rightarrow> nat" where
  "Len s = sum_list (map (\<lambda>(_, entries). length entries) (rg_managers s))"

text \<open>\<^verbatim>\<open>Close\<close> of a manager: a manager that is not started is left alone.\<close>

definition Close :: "('h, 'f, 'w) ssh_env \<Rightarrow> (('h, 'f, 'w) msys, unit) state" where
  "Close V = do {
     k \<leftarrow> close_begin;
     (if \<not> cl_started k then ret ()
      else do { _ \<leftarrow> env_wait V; close_end (env_L V) k })
   }"

primrec close_each :: "('h, 'f, 'w) ssh_env \<Rightarrow> nat list \<Rightarrow> (('h, 'f, 'w) rsys, unit) state" where
  "close_each V [] = ret ()"
| "close_each V (i # is) = do { _ \<leftarrow> with_mgr i (Close V); close_each V is }"

text \<open>The managers that are registered, in the order in which the iteration meets them.\<close>

definition reg_ids :: "(string \<times> (string \<times> nat) list) list \<Rightarrow> nat list" where
  "reg_ids ms = concat (map (\<lambda>(_, entries). map snd entries) ms)"

abbreviation registered :: "('h, 'f, 'w) rsys \<Rightarrow> nat list" where
  "registered s \<equiv> reg_ids (rg_managers s)"

lemma in_reg_ids: "i \<in> set (reg_ids ms) \<longleftrightarrow> (\<exists>a es k. (a, es) \<in> set ms \<and> (k, i) \<in> set es)"
  by (force simp: reg_ids_def)

definition CloseAll :: "('h, 'f, 'w) ssh_env \<Rightarrow> (('h, 'f, 'w) rsys, unit) state" where
  "CloseAll V = do {
     managers \<leftarrow> gets (\<lambda>s. registered s);
     _ \<leftarrow> modify (\<lambda>s. s\<lparr>rg_managers := []\<rparr>);
     close_each V managers
   }"

subsection \<open>Closing a manager at rest\<close>

text \<open>A goroutine at rest waits in its \<^verbatim>\<open>select\<close>; once its context is done it has nothing left to do but
  return. \<open>waits\<close> says that of \<open>env_wait\<close>.\<close>

fun at_rest :: "('h, 'f) manager \<Rightarrow> goroutine \<Rightarrow> bool" where
  "at_rest m (KeepAlive c) = ctx_done m c"
| "at_rest m (Backoff p b) = ctx_done m p"
| "at_rest m _ = False"

definition waits :: "('h, 'f, 'w) ssh_env \<Rightarrow> bool" where
  "waits V \<longleftrightarrow> (\<forall>s. list_all (at_rest (ms_mgr s)) (sm_gos (ms_mgr s)) \<longrightarrow>
     wp (env_wait V) (\<lambda>_ s'. s' = s\<lparr>ms_mgr := (ms_mgr s)\<lparr>sm_gos := []\<rparr>\<rparr>) s)"

text \<open>A manager that is idle: never started, closed, or watched by a goroutine in its \<^verbatim>\<open>select\<close>.\<close>

definition idle :: "('h, 'f) manager \<Rightarrow> bool" where
  "idle m \<longleftrightarrow> mon m \<and> minv 0 m \<and>
     (sm_started m \<longrightarrow> (\<exists>c p b. sm_gos m = [KeepAlive c] \<or> sm_gos m = [Backoff p b]))"

definition shut :: "('h, 'f) manager \<Rightarrow> bool" where
  "shut m \<longleftrightarrow> \<not> sm_started m \<and> \<not> sm_connected m \<and> \<not> sm_reconnecting m \<and> sm_conn m = None \<and>
     sm_gos m = [] \<and> mt_active (sm_metrics m) = 0"

lemma idle_not_started: "idle m \<Longrightarrow> \<not> sm_started m \<Longrightarrow> shut m"
  by (auto simp: idle_def mon_def minv_def shut_def wrap64_def)

lemma at_rest_sm_gos [simp]: "at_rest (m\<lparr>sm_gos := gs\<rparr>) g = at_rest m g"
  by (cases g) (simp_all add: ctx_done_def ctx_parent_def)

text \<open>The context that a cancel function, if there is one, cancels.\<close>

fun called :: "bool \<Rightarrow> ctx option \<Rightarrow> ctx list" where
  "called True (Some c) = [c]"
| "called _ _ = []"

lemma calledD: "d \<in> set (called b c) \<Longrightarrow> c = Some d"
  by (cases "(b, c)" rule: called.cases) auto

text \<open>The manager after the first half of \<^verbatim>\<open>Close\<close>.\<close>

definition stopping :: "('h, 'f) manager \<Rightarrow> ('h, 'f) manager" where
  "stopping m = m\<lparr>sm_cancel := False, sm_baseCancel := False, sm_baseCtx := None,
     sm_started := False, sm_conn := None, sm_connected := False, sm_ctx := None, sm_reconnecting := False,
     sm_done := called (sm_baseCancel m) (sm_baseCtx m) @ called (sm_cancel m) (sm_ctx m) @ sm_done m\<rparr>"

lemma wp_close_begin:
  assumes "sm_started (ms_mgr s)"
    and "Q \<lparr>cl_started = True, cl_conn = sm_conn (ms_mgr s), cl_wasConnected = sm_connected (ms_mgr s)\<rparr>
      (s\<lparr>ms_mgr := stopping (ms_mgr s)\<rparr>)"
  shows "wp close_begin Q s"
  using assms by (auto simp: close_begin_def wp_simps stopping_def split: option.split bool.split)

lemma stopping_at_rest:
  assumes "idle m" "sm_started m"
  shows "list_all (at_rest (stopping m)) (sm_gos (stopping m))"
proof -
  obtain b c p k where b: "sm_baseCancel m" "sm_baseCtx m = Some b" "watched b m"
    and g: "sm_gos m = [KeepAlive c] \<or> sm_gos m = [Backoff p k]"
    using assms by (auto simp: idle_def mon_def live_def)
  then have "sm_gos m = [KeepAlive c] \<and> sm_cancel m \<and> sm_ctx m = Some c \<or> sm_gos m = [Backoff b k]"
    by (auto simp: watched_def)
  with b show ?thesis by (auto simp: stopping_def ctx_done_def)
qed

text \<open>After the goroutines are gone, the manager is as good as new.\<close>

lemma stopped_mon:
  assumes "idle m" "sm_started m"
  shows "mon ((stopping m)\<lparr>sm_gos := [], sm_metrics := t\<rparr>)"
proof -
  from assms have "mon m" by (simp add: idle_def)
  with assms(2) obtain b where "sm_baseCtx m = Some b" "live b m" "watched b m" "ctxs_ok m" "\<not> sm_panic m"
    unfolding mon_def by auto
  note b = this
  have c: "2 \<le> c \<and> c < sm_nextCtx m" if "sm_ctx m = Some c" for c
    using b(3) that unfolding watched_def by fastforce
  have "\<forall>d \<in> set (sm_done (stopping m)). 2 \<le> d \<and> d < sm_nextCtx m"
    using b(1,2,4) c by (auto simp: stopping_def ctxs_ok_def live_def dest!: calledD)
  with \<open>ctxs_ok m\<close> \<open>\<not> sm_panic m\<close> show ?thesis
    by (simp add: mon_def ctxs_ok_def) (simp add: stopping_def)
qed

lemma wp_close_end:
  assumes "\<And>s'. ms_mgr s' = (if cl_wasConnected k then (ms_mgr s)\<lparr>sm_metrics := DecActive (sm_metrics (ms_mgr s))\<rparr> else ms_mgr s) \<Longrightarrow> Q () s'"
  shows "wp (close_end L k) Q s"
  using assms unfolding close_end_def
  by (auto simp: wp_simps split: option.split intro!: wp_in_world)

lemma wp_waits:
  assumes "waits V" "list_all (at_rest (ms_mgr s)) (sm_gos (ms_mgr s))"
    and "Q () (s\<lparr>ms_mgr := (ms_mgr s)\<lparr>sm_gos := []\<rparr>\<rparr>)"
  shows "wp (env_wait V) Q s"
proof -
  have "wp (env_wait V) (\<lambda>_ s'. s' = s\<lparr>ms_mgr := (ms_mgr s)\<lparr>sm_gos := []\<rparr>\<rparr>) s"
    using assms(1,2) unfolding waits_def by blast
  then show ?thesis by (rule wp_mono) (use assms(3) in simp)
qed

text \<open>Closing an idle manager ends everything it had running and leaves it as good as new; its
  handlers stay registered.\<close>

lemma wp_Close:
  assumes V: "waits V" and m: "idle (ms_mgr s)"
  shows "wp (Close V) (\<lambda>_ s'. shut (ms_mgr s') \<and> idle (ms_mgr s') \<and>
     sm_handlers (ms_mgr s') = sm_handlers (ms_mgr s) \<and> sm_config (ms_mgr s') = sm_config (ms_mgr s)) s"
proof (cases "sm_started (ms_mgr s)")
  case False
  have "wp (Close V) (\<lambda>_ s'. s' = s) s"
    using False by (simp add: Close_def close_begin_def wp_simps)
  then show ?thesis by (rule wp_mono) (use m idle_not_started [OF m False] in simp)
next
  case True
  have n: "mt_active (sm_metrics (ms_mgr s)) = of_bool (sm_connected (ms_mgr s))"
    using m by (simp add: idle_def minv_def wrap64_def)
  let ?m = "stopping (ms_mgr s)"
  have ok: "shut m' \<and> idle m' \<and> sm_handlers m' = sm_handlers (ms_mgr s) \<and> sm_config m' = sm_config (ms_mgr s)"
    if "m' = (if sm_connected (ms_mgr s) then (?m\<lparr>sm_gos := []\<rparr>)\<lparr>sm_metrics := DecActive (sm_metrics (?m\<lparr>sm_gos := []\<rparr>))\<rparr>
        else ?m\<lparr>sm_gos := []\<rparr>)" for m'
  proof -
    have "m' = ?m\<lparr>sm_gos := [], sm_metrics := sm_metrics m'\<rparr>" using that by simp
    then have "mon m'" using stopped_mon [OF m True] by metis
    with n that show ?thesis
      by (auto simp: idle_def shut_def minv_def stopping_def wrap64_def DecActive_def)
  qed
  show ?thesis
    unfolding Close_def wp_bind
    by (rule wp_close_begin [OF True])
      (auto simp: wp_simps stopping_at_rest [OF m True] intro!: wp_waits [OF V] wp_close_end ok)
qed

subsection \<open>What is registered\<close>

definition find_mgr :: "('h, 'f, 'w) rsys \<Rightarrow> string \<Rightarrow> string \<Rightarrow> nat option" where
  "find_mgr s addr key = map_of (entries_at addr (rg_managers s)) key"

text \<open>Every manager that is registered exists, and it is registered once.\<close>

definition reg_inv :: "('h, 'f, 'w) rsys \<Rightarrow> bool" where
  "reg_inv s \<longleftrightarrow> (\<forall>i \<in> set (registered s). i < length (rg_heap s)) \<and>
     (\<forall>a k a' k' i. find_mgr s a k = Some i \<longrightarrow> find_mgr s a' k' = Some i \<longrightarrow> a = a' \<and> k = k')"

lemma find_registered:
  assumes "find_mgr s a k = Some i"
  shows "i \<in> set (registered s)"
proof -
  from assms obtain es where "map_of (rg_managers s) a = Some es" "map_of es k = Some i"
    by (auto simp: find_mgr_def entries_at_def split: option.splits)
  then have "(a, es) \<in> set (rg_managers s)" "(k, i) \<in> set es" by (auto dest: map_of_SomeD)
  then show ?thesis unfolding in_reg_ids by blast
qed

lemma set_alist_update: "set (AList.update k v m) \<subseteq> insert (k, v) (set m)"
  by (induction m) auto

lemma reg_ids_update:
  assumes "j \<in> set (reg_ids (AList.update a (AList.update k i (entries_at a ms)) ms))"
  shows "j = i \<or> j \<in> set (reg_ids ms)"
proof -
  let ?es = "AList.update k i (entries_at a ms)"
  from assms obtain b es k' where es: "(b, es) \<in> set (AList.update a ?es ms)" "(k', j) \<in> set es"
    unfolding in_reg_ids by blast
  then consider "(b, es) \<in> set ms" | "(k', j) \<in> set ?es" using set_alist_update by fastforce
  then show ?thesis
  proof cases
    case 1
    with es(2) show ?thesis unfolding in_reg_ids by blast
  next
    case 2
    then consider "j = i" | "(k', j) \<in> set (entries_at a ms)" using set_alist_update by fastforce
    then show ?thesis
    proof cases
      case 2
      then obtain fs where "(a, fs) \<in> set ms" "(k', j) \<in> set fs"
        unfolding entries_at_def by (cases "map_of ms a") (auto dest: map_of_SomeD)
      then show ?thesis unfolding in_reg_ids by blast
    qed simp
  qed
qed

text \<open>\<open>created_mgr\<close>: a new manager was made and registered.\<close>

definition created_mgr ::
  "('h, 'f, 'w) ssh_env \<Rightarrow> router_config \<Rightarrow> ('h, 'f) manager \<Rightarrow> ('h, 'f, 'w) rsys \<Rightarrow> ('h, 'f, 'w) rsys \<Rightarrow> bool" where
  "created_mgr V cfg m s s' \<longleftrightarrow> NewSSHConnectionManager (env_quote V) (env_F V) cfg = Inr m \<and>
     rg_heap s' = rg_heap s @ [m] \<and> rg_world s' = rg_world s \<and> reg_inv s' \<and>
     (\<forall>a k. find_mgr s' a k = (if a = cfg_Address cfg \<and> k = configIdentity (env_R V) cfg
        then Some (length (rg_heap s)) else find_mgr s a k))"

lemma wp_GetOrCreate:
  assumes inv: "reg_inv s"
  shows "wp (GetOrCreate V cfg) (\<lambda>r s'. case r of
      Inr i \<Rightarrow> find_mgr s (cfg_Address cfg) (configIdentity (env_R V) cfg) = Some i \<and> s' = s \<or>
        find_mgr s (cfg_Address cfg) (configIdentity (env_R V) cfg) = None \<and> i = length (rg_heap s) \<and>
        (\<exists>m. created_mgr V cfg m s s')
    | Inl e \<Rightarrow> Validate (env_quote V) cfg = Inl e \<and> s' = s) s"
proof -
  let ?a = "cfg_Address cfg" and ?k = "configIdentity (env_R V) cfg" and ?i = "length (rg_heap s)"
  let ?ms = "AList.update ?a (AList.update ?k ?i (entries_at ?a (rg_managers s))) (rg_managers s)"
  have new: "created_mgr V cfg m s (s\<lparr>rg_heap := rg_heap s @ [m], rg_managers := ?ms\<rparr>)"
    if "find_mgr s ?a ?k = None" "NewSSHConnectionManager (env_quote V) (env_F V) cfg = Inr m" for m
  proof -
    let ?s = "s\<lparr>rg_heap := rg_heap s @ [m], rg_managers := ?ms\<rparr>"
    have find: "find_mgr ?s a k = (if a = ?a \<and> k = ?k then Some ?i else find_mgr s a k)" for a k
      by (auto simp: find_mgr_def entries_at_def split: option.splits)
    have "i < Suc ?i" if "i \<in> set (registered ?s)" for i
      using reg_ids_update [of i ?a ?k ?i] that inv by (auto simp: reg_inv_def less_Suc_eq)
    moreover have "i \<noteq> ?i" if "find_mgr s a k = Some i" for a k i
      using find_registered [OF that] inv by (auto simp: reg_inv_def)
    ultimately have "reg_inv ?s"
      using inv unfolding reg_inv_def find by (auto split: if_splits)
    with that(2) show ?thesis by (simp add: created_mgr_def find)
  qed
  have fresh: "Validate (env_quote V) cfg = Inl e" if "NewSSHConnectionManager (env_quote V) (env_F V) cfg = Inl e" for e
    using that by (auto simp: NewSSHConnectionManager_def split: sum.splits)
  show ?thesis
    using new fresh unfolding GetOrCreate_def
    by (auto simp: wp_simps Let_def find_mgr_def split: option.split sum.split)
qed

lemma wp_GetOrCreate_ok:
  assumes "reg_inv s" "Validate (env_quote V) cfg = Inr ()"
    and "\<And>i. find_mgr s (cfg_Address cfg) (configIdentity (env_R V) cfg) = Some i \<Longrightarrow> Q (Inr i) s"
    and "\<And>m s'. find_mgr s (cfg_Address cfg) (configIdentity (env_R V) cfg) = None \<Longrightarrow> created_mgr V cfg m s s' \<Longrightarrow>
      Q (Inr (length (rg_heap s))) s'"
  shows "wp (GetOrCreate V cfg) Q s"
  using assms by (intro wp_mono [OF wp_GetOrCreate [OF assms(1)]]) (auto split: sum.splits)

lemma wp_close_each:
  assumes V: "waits V" and "\<forall>i \<in> set is. i < length (rg_heap s) \<and> idle (rg_heap s ! i)"
  shows "wp (close_each V is) (\<lambda>_ s'. rg_managers s' = rg_managers s \<and> length (rg_heap s') = length (rg_heap s) \<and>
     (\<forall>i < length (rg_heap s). if i \<in> set is then shut (rg_heap s' ! i) \<and> idle (rg_heap s' ! i)
        else rg_heap s' ! i = rg_heap s ! i)) s"
  using assms(2)
proof (induction "is" arbitrary: s)
  case Nil
  then show ?case by (simp add: wp_simps)
next
  case (Cons i "is")
  let ?s = "\<lambda>t. s\<lparr>rg_heap := (rg_heap s)[i := ms_mgr t], rg_world := ms_world t\<rparr>"
  have i: "i < length (rg_heap s)" "idle (rg_heap s ! i)" using Cons.prems by auto
  have step: "wp (close_each V is) (\<lambda>_ s'. rg_managers s' = rg_managers s \<and> length (rg_heap s') = length (rg_heap s) \<and>
     (\<forall>j < length (rg_heap s). if j \<in> set (i # is) then shut (rg_heap s' ! j) \<and> idle (rg_heap s' ! j)
        else rg_heap s' ! j = rg_heap s ! j)) (?s t)" if "shut (ms_mgr t)" "idle (ms_mgr t)" for t
    by (rule wp_mono [OF Cons.IH [of "?s t"]], use Cons.prems that i in \<open>auto simp: nth_list_update split: if_splits\<close>)
      (metis that)+
  show ?case
    unfolding close_each.simps with_mgr_def wp_bind wp_zoom
    by (rule wp_mono [OF wp_Close [OF V]], use i in simp, rule step) blast+
qed

subsection \<open>Properties\<close>

text \<open>C32: The registry is a singleton per configuration: two calls of \<^verbatim>\<open>GetOrCreate\<close> with valid
  configurations return the same manager exactly when address and identity agree, every manager
  that existed before is untouched, and the registry still holds every manager once.\<close>

theorem get_or_create_shares:
  assumes "reg_inv s" and "Validate (env_quote V) cfg = Inr ()" and "Validate (env_quote V) cfg' = Inr ()"
  shows "wp (do { i \<leftarrow> GetOrCreate V cfg; j \<leftarrow> GetOrCreate V cfg'; ret (i, j) }) (\<lambda>(i, j) s'.
     reg_inv s' \<and> take (length (rg_heap s)) (rg_heap s') = rg_heap s \<and>
     (\<exists>a b. i = Inr a \<and> j = Inr b \<and> a < length (rg_heap s') \<and> b < length (rg_heap s') \<and>
        (a = b \<longleftrightarrow> cfg_Address cfg = cfg_Address cfg' \<and>
           configIdentity (env_R V) cfg = configIdentity (env_R V) cfg'))) s"
proof -
  have bound: "i < length (rg_heap t)" if "reg_inv t" "find_mgr t a k = Some i" for t :: "('a, 'b, 'c) rsys" and a k i
    using find_registered [OF that(2)] that(1) by (simp add: reg_inv_def)
  have second: "wp (GetOrCreate V cfg') (\<lambda>j s'.
      reg_inv s' \<and> take (length (rg_heap s)) (rg_heap s') = rg_heap s \<and>
      (\<exists>b. j = Inr b \<and> a < length (rg_heap s') \<and> b < length (rg_heap s') \<and>
        (a = b \<longleftrightarrow> cfg_Address cfg = cfg_Address cfg' \<and>
           configIdentity (env_R V) cfg = configIdentity (env_R V) cfg'))) t"
    if t: "reg_inv t" "take (length (rg_heap s)) (rg_heap t) = rg_heap s"
      "find_mgr t (cfg_Address cfg) (configIdentity (env_R V) cfg) = Some a" for t a
  proof (rule wp_GetOrCreate_ok [OF t(1) assms(3)])
    fix b
    assume b: "find_mgr t (cfg_Address cfg') (configIdentity (env_R V) cfg') = Some b"
    have "a = b \<longleftrightarrow> cfg_Address cfg = cfg_Address cfg' \<and> configIdentity (env_R V) cfg = configIdentity (env_R V) cfg'"
      using t(1,3) b unfolding reg_inv_def by auto
    with t bound [OF t(1,3)] bound [OF t(1) b] show "reg_inv t \<and> take (length (rg_heap s)) (rg_heap t) = rg_heap s \<and>
      (\<exists>b'. Inr b = (Inr b' :: nat result) \<and> a < length (rg_heap t) \<and> b' < length (rg_heap t) \<and>
        (a = b' \<longleftrightarrow> cfg_Address cfg = cfg_Address cfg' \<and>
           configIdentity (env_R V) cfg = configIdentity (env_R V) cfg'))" by simp
  next
    fix m t'
    assume "find_mgr t (cfg_Address cfg') (configIdentity (env_R V) cfg') = None" and t': "created_mgr V cfg' m t t'"
    with t(3) have "\<not> (cfg_Address cfg = cfg_Address cfg' \<and> configIdentity (env_R V) cfg = configIdentity (env_R V) cfg')"
      by auto
    moreover have "length (rg_heap s) \<le> length (rg_heap t)"
      using t(2) by (metis length_take min.cobounded1)
    with t(2) t' have "take (length (rg_heap s)) (rg_heap t') = rg_heap s"
      by (simp add: created_mgr_def)
    ultimately show "reg_inv t' \<and> take (length (rg_heap s)) (rg_heap t') = rg_heap s \<and>
      (\<exists>b'. Inr (length (rg_heap t)) = (Inr b' :: nat result) \<and> a < length (rg_heap t') \<and> b' < length (rg_heap t') \<and>
        (a = b' \<longleftrightarrow> cfg_Address cfg = cfg_Address cfg' \<and>
           configIdentity (env_R V) cfg = configIdentity (env_R V) cfg'))"
      using t' bound [OF t(1,3)] by (auto simp: created_mgr_def)
  qed
  show ?thesis
    using assms(1) second unfolding wp_bind wp_return
    by (intro wp_GetOrCreate_ok [OF assms(1,2)]) (auto simp: created_mgr_def elim!: wp_mono)
qed

definition sim_reflect :: reflection where
  "sim_reflect = \<lparr>rf_AuthMethod = (\<lambda>_. Referring ''ssh.publicKeyCallback'' 4096),
     rf_Runner = (\<lambda>n. Referring ''ssh.runner'' n), rf_code = id\<rparr>"

definition sim_V :: "(string, int, bool) ssh_env" where
  "sim_V = \<lparr>env_quote = id, env_F = sim_F, env_L = sim_L, env_R = sim_reflect,
     env_wait = on_mgr (\<lambda>m. m\<lparr>sm_gos := []\<rparr>)\<rparr>"

definition sim_reg :: "(string, int, bool) rsys" where
  "sim_reg = \<lparr>rg_managers = [], rg_heap = [], rg_world = True\<rparr>"

lemma sim_reg_inv: "reg_inv sim_reg"
  by (simp add: reg_inv_def sim_reg_def reg_ids_def find_mgr_def entries_at_def)

lemma sim_waits: "waits sim_V"
  by (simp add: waits_def sim_V_def wp_simps)

lemma sim_validate: "Validate id sim_config = Inr ()" "Validate id (sim_config\<lparr>cfg_Username := ''admin''\<rparr>) = Inr ()"
  "Validate id (sim_config\<lparr>cfg_AuthMethod := Some b\<rparr>) = Inr ()"
  by (simp_all add: Validate_def sim_config_def split_host_port_error_def)

theorem get_or_create_shares_witness:
  "wp (do { i \<leftarrow> GetOrCreate sim_V sim_config; j \<leftarrow> GetOrCreate sim_V (sim_config\<lparr>cfg_Username := ''admin''\<rparr>); ret (i, j) })
     (\<lambda>(i, j) s'. i \<noteq> j \<and> reg_inv s') sim_reg"
proof -
  have "configIdentity sim_reflect sim_config \<noteq> configIdentity sim_reflect (sim_config\<lparr>cfg_Username := ''admin''\<rparr>)"
    by (simp add: configIdentity_def sim_config_def)
  with get_or_create_shares [OF sim_reg_inv, of sim_V sim_config "sim_config\<lparr>cfg_Username := ''admin''\<rparr>"]
  show ?thesis by (auto simp: sim_V_def sim_validate elim!: wp_mono)
qed

text \<open>C33: A rotated key is not seen: public-key authentication methods are functions of one piece of code,
  so two of them have the same identity whatever key they close over, and the manager that is
  returned for the second still authenticates with the first.\<close>

theorem rotated_key_keeps_old_manager:
  assumes "reg_inv s" and "Validate (env_quote V) cfg = Inr ()"
    and "find_mgr s (cfg_Address cfg) (configIdentity (env_R V) cfg) = None"
    and "cfg_AuthMethod cfg = Some a" and "rf_AuthMethod (env_R V) b = rf_AuthMethod (env_R V) a"
  shows "wp (do { i \<leftarrow> GetOrCreate V cfg; j \<leftarrow> GetOrCreate V (cfg\<lparr>cfg_AuthMethod := Some b\<rparr>); ret (i, j) })
     (\<lambda>(i, j) s'. \<exists>n. i = Inr n \<and> j = Inr n \<and> cfg_AuthMethod (sm_config (rg_heap s' ! n)) = Some a) s"
proof -
  have same: "configIdentity (env_R V) (cfg\<lparr>cfg_AuthMethod := Some b\<rparr>) = configIdentity (env_R V) cfg"
    using assms(4,5) by (simp add: configIdentity_def iface_value_def)
  have valid: "Validate (env_quote V) (cfg\<lparr>cfg_AuthMethod := Some b\<rparr>) = Inr ()"
    using assms(2) by (simp add: Validate_def split: option.splits if_splits)
  have "cfg_AuthMethod (sm_config m) = Some a" if "created_mgr V cfg m s s'" for m s'
    using that assms(4) new_manager_fields(13) [of "env_quote V" "env_F V" cfg m]
    by (simp add: created_mgr_def with_defaults_def)
  then show ?thesis
    using assms(3) unfolding wp_bind wp_return
    by (intro wp_GetOrCreate_ok [OF assms(1,2)])
      (auto simp: created_mgr_def same intro!: wp_GetOrCreate_ok [OF _ valid])
qed

theorem rotated_key_keeps_old_manager_witness:
  "wp (do { i \<leftarrow> GetOrCreate sim_V sim_config; j \<leftarrow> GetOrCreate sim_V (sim_config\<lparr>cfg_AuthMethod := Some 9\<rparr>); ret (i, j) })
     (\<lambda>(i, j) s'. \<exists>n. i = Inr n \<and> j = Inr n \<and> cfg_AuthMethod (sm_config (rg_heap s' ! n)) = cfg_AuthMethod sim_config) sim_reg"
proof -
  obtain a where a: "cfg_AuthMethod sim_config = Some a" by (simp add: sim_config_def)
  show ?thesis
    unfolding a
    by (rule rotated_key_keeps_old_manager [OF sim_reg_inv _ _ a])
      (simp_all add: sim_V_def sim_validate sim_reg_def find_mgr_def entries_at_def sim_reflect_def)
qed


definition sim_reg1 :: "(string, int, bool) rsys" where
  "sim_reg1 = \<lparr>rg_managers = [(''10.0.0.1:22'', [(''k'', 0)])], rg_heap = [sim_mgr], rg_world = True\<rparr>"


end
