(* ===== verification/Claim.thy ===== *)
theory Claim
  imports Json GoTime KernelOps
begin

text \<open>
  \<^verbatim>\<open>api/v1alpha1/publicipclaim_types.go\<close>: the custom resource the operator reconciles, and what it
  calls of the Kubernetes client libraries. A claim is a value: \<open>Update\<close> and \<open>Status().Update\<close>
  answer the object as the server stored it, which the client library writes back into the
  caller's variable.

  The API server, the event recorder, the finalizer helpers and \<^verbatim>\<open>meta.SetStatusCondition\<close> are
  parameters (\<open>k8s\<close>). \<open>api_store\<close> names what the operator relies on of the server: reads answer what
  is stored, an update of the resource does not write its status, an update of the status writes
  nothing else, and a refused update writes nothing.
\<close>

subsection \<open>The resource\<close>

record router_spec =
  rt_Host :: string
  rt_Port :: int
  rt_User :: string
  rt_SSHSecretRef :: string
  rt_Command :: string
  rt_WanParent :: string
  rt_WanInterface :: string
  rt_MacAddress :: string

record claim_spec =
  sp_PoolName :: string
  sp_Router :: router_spec

text \<open>\<^verbatim>\<open>ClaimPhase\<close> is a string type; \<open>NoPhase\<close> is its zero value, the empty string.\<close>

datatype claim_phase = NoPhase | ClaimPhasePending | ClaimPhaseProvisioning | ClaimPhaseReady | ClaimPhaseFailed

datatype condition_type = ConditionReady | ConditionConfigurationDrifted | ConditionRecovering

record condition =
  cn_Type :: condition_type
  cn_Status :: bool
  cn_Reason :: string
  cn_Message :: string
  cn_ObservedGeneration :: int

record claim_status =
  cs_Phase :: claim_phase
  cs_Message :: string
  cs_AssignedIP :: string
  cs_WanInterface :: string
  cs_MacAddress :: string
  cs_RouterUptime :: int
  cs_LastVerified :: "int option"
  cs_ConfigurationVerified :: bool
  cs_LastReconciliationReason :: string
  cs_ConnectionState :: string
  cs_Conditions :: "condition list"

text \<open>Of the object's metadata, what the operator reads: an annotation map that is nil is the empty
  list.\<close>

record public_ip_claim =
  pc_Name :: string
  pc_Namespace :: string
  pc_Generation :: int
  pc_DeletionTimestamp :: "int option"
  pc_Finalizers :: "string list"
  pc_Annotations :: "(string \<times> string) list"
  pc_Spec :: claim_spec
  pc_Status :: claim_status

abbreviation upd_status :: "(claim_status \<Rightarrow> claim_status) \<Rightarrow> public_ip_claim \<Rightarrow> public_ip_claim" where
  "upd_status f c \<equiv> c\<lparr>pc_Status := f (pc_Status c)\<rparr>"

subsection \<open>The Kubernetes client\<close>

text \<open>An error of the API server, as \<^verbatim>\<open>apierrors.IsNotFound\<close> classifies it.\<close>

datatype api_error = NotFound string | OtherError string

fun api_error_msg :: "api_error \<Rightarrow> string" where
  "api_error_msg (NotFound m) = m"
| "api_error_msg (OtherError m) = m"

record 'w k8s =
  k_Get :: "string \<Rightarrow> string \<Rightarrow> ('w, api_error + public_ip_claim) state"
  k_GetSecret :: "string \<Rightarrow> string \<Rightarrow> ('w, api_error + (string \<times> string) list) state"
  k_Update :: "public_ip_claim \<Rightarrow> ('w, api_error + public_ip_claim) state"
  k_StatusUpdate :: "public_ip_claim \<Rightarrow> ('w, api_error + public_ip_claim) state"
  k_Event :: "public_ip_claim \<Rightarrow> string \<Rightarrow> string \<Rightarrow> string \<Rightarrow> ('w, unit) state"
  k_SetStatusCondition :: "condition list \<Rightarrow> condition \<Rightarrow> ('w, condition list) state"
  k_ContainsFinalizer :: "string list \<Rightarrow> string \<Rightarrow> bool"
  k_AddFinalizer :: "string list \<Rightarrow> string \<Rightarrow> string list"
  k_RemoveFinalizer :: "string list \<Rightarrow> string \<Rightarrow> string list"

definition finalizers_spec :: "'w k8s \<Rightarrow> bool" where
  "finalizers_spec K \<longleftrightarrow> (\<forall>fs f. k_ContainsFinalizer K (k_AddFinalizer K fs f) f \<and>
     \<not> k_ContainsFinalizer K (k_RemoveFinalizer K fs f) f \<and> \<not> k_ContainsFinalizer K [] f)"

text \<open>The claims the server holds, by namespace and name. The server assigns the metadata it owns, so
  what it stores is the object that was sent up to generation and deletion timestamp; an object that
  is being deleted goes away with its last finalizer.\<close>

type_synonym claims = "string \<times> string \<Rightarrow> public_ip_claim option"

definition same_object :: "public_ip_claim \<Rightarrow> public_ip_claim \<Rightarrow> bool" where
  "same_object c d \<longleftrightarrow> pc_Name c = pc_Name d \<and> pc_Namespace c = pc_Namespace d \<and> pc_Finalizers c = pc_Finalizers d \<and>
     pc_Annotations c = pc_Annotations d \<and> pc_Spec c = pc_Spec d \<and> pc_Status c = pc_Status d"

definition claim_key :: "public_ip_claim \<Rightarrow> string \<times> string" where
  "claim_key c = (pc_Namespace c, pc_Name c)"

definition api_store :: "'w k8s \<Rightarrow> ('w \<Rightarrow> claims) \<Rightarrow> bool" where
  "api_store K claims \<longleftrightarrow>
     (\<forall>ns n w. wp (k_Get K ns n) (\<lambda>r w'. claims w' = claims w \<and>
        (case r of Inr c \<Rightarrow> claims w (ns, n) = Some c \<and> claim_key c = (ns, n)
          | Inl (NotFound _) \<Rightarrow> claims w (ns, n) = None | Inl (OtherError _) \<Rightarrow> True)) w) \<and>
     (\<forall>c w. wp (k_Update K c) (\<lambda>r w'. case r of Inl _ \<Rightarrow> claims w' = claims w
        | Inr d \<Rightarrow> \<exists>old. claims w (claim_key c) = Some old \<and> same_object d (c\<lparr>pc_Status := pc_Status old\<rparr>) \<and>
            claims w' = (claims w)(claim_key c := (if pc_DeletionTimestamp c \<noteq> None \<and> pc_Finalizers c = [] then None else Some d))) w) \<and>
     (\<forall>c w. wp (k_StatusUpdate K c) (\<lambda>r w'. case r of Inl _ \<Rightarrow> claims w' = claims w
        | Inr d \<Rightarrow> \<exists>old. claims w (claim_key c) = Some old \<and> same_object d (old\<lparr>pc_Status := pc_Status c\<rparr>) \<and>
            claims w' = (claims w)(claim_key c := Some d)) w) \<and>
     (\<forall>ns n. keeps claims (k_GetSecret K ns n)) \<and>
     (\<forall>c a b m. keeps claims (k_Event K c a b m)) \<and>
     (\<forall>cs c. keeps claims (k_SetStatusCondition K cs c))"

lemmas claim_defs = same_object_def claim_key_def

end
