(* ===== verification/Pool.thy ===== *)
theory Pool
  imports Claim
begin

text \<open>
  The Cilium pool of the operator (\<^verbatim>\<open>defaultEnsureIPInPool\<close> and \<^verbatim>\<open>defaultRemoveIPFromPool\<close> of
  \<^verbatim>\<open>internal/controller/publicipclaim_controller.go\<close>): an unstructured object whose field
  \<^verbatim>\<open>spec.blocks\<close> lists blocks with a \<^verbatim>\<open>cidr\<close>. An object is a \<open>json\<close> value. The dynamic client and the
  accessors of \<^verbatim>\<open>unstructured\<close> are parameters (\<open>pool_client\<close>).

  The abstract view of a pool is the set of its CIDRs. The locale \<open>ip_pool\<close> states what the
  operator expects of a pool (adding and removing one element, and nothing else), and the
  interpretation \<open>cilium\<close> shows it for the two list transformations of the code.
\<close>

datatype gvr = gvrPoolV2 | gvrPoolV2a

record 'w pool_client =
  dyn_Get :: "gvr \<Rightarrow> string \<Rightarrow> ('w, api_error + json) state"
  dyn_Update :: "gvr \<Rightarrow> json \<Rightarrow> ('w, api_error + json) state"
  un_NestedSlice :: "json \<Rightarrow> string list \<Rightarrow> json list option"
  un_SetNestedSlice :: "json \<Rightarrow> json list \<Rightarrow> string list \<Rightarrow> json result"

text \<open>A function that may also panic: a block that is not an object fails the type assertion.\<close>

datatype 'a outcome = Returned "'a result" | Panicked

definition blocks_path :: "string list" where
  "blocks_path = [''spec'', ''blocks'']"

definition cidr_of :: "string \<Rightarrow> string" where
  "cidr_of ip = ip @ ''/32''"

text \<open>\<^verbatim>\<open>m["cidr"] == cidr\<close> for a block; \<open>None\<close> is the panic.\<close>

fun block_is :: "string \<Rightarrow> json \<Rightarrow> bool option" where
  "block_is cidr (JObj m) = Some (map_of m ''cidr'' = Some (JStr cidr))"
| "block_is cidr _ = None"

text \<open>The loop that looks for the block returns at the first one it finds.\<close>

fun find_block :: "string \<Rightarrow> json list \<Rightarrow> bool option" where
  "find_block cidr [] = Some False"
| "find_block cidr (b # bs) = (case block_is cidr b of
      None \<Rightarrow> None | Some True \<Rightarrow> Some True | Some False \<Rightarrow> find_block cidr bs)"

text \<open>The loop that drops it: the blocks kept and whether one was dropped.\<close>

fun drop_block :: "string \<Rightarrow> json list \<Rightarrow> (json list \<times> bool) option" where
  "drop_block cidr [] = Some ([], False)"
| "drop_block cidr (b # bs) = (case block_is cidr b of
      None \<Rightarrow> None
    | Some found \<Rightarrow> map_option (\<lambda>(ks, removed). if found then (ks, True) else (b # ks, removed)) (drop_block cidr bs))"

definition new_block :: "string \<Rightarrow> json" where
  "new_block cidr = JObj [(''cidr'', JStr cidr)]"

text \<open>The ends of the two functions: write the blocks back and update the object.\<close>

definition write_blocks :: "'w pool_client \<Rightarrow> gvr \<Rightarrow> string \<Rightarrow> json \<Rightarrow> json list \<Rightarrow> ('w, unit outcome) state" where
  "write_blocks D gvr poolName pool blocks = (case un_SetNestedSlice D pool blocks blocks_path of
      Inl e \<Rightarrow> ret (Returned (Inl (wrapf ''failed to set blocks in pool'' e)))
    | Inr pool \<Rightarrow> do {
        r \<leftarrow> dyn_Update D gvr pool;
        ret (case r of
            Inl e \<Rightarrow> Returned (Inl (wrapf (''failed to update pool '' @ poolName) (api_error_msg e)))
          | Inr _ \<Rightarrow> Returned (Inr ()))
      })"

definition ensure_block :: "'w pool_client \<Rightarrow> gvr \<Rightarrow> string \<Rightarrow> string \<Rightarrow> json \<Rightarrow> ('w, unit outcome) state" where
  "ensure_block D gvr poolName ip pool =
     (let spec = (case un_NestedSlice D pool blocks_path of None \<Rightarrow> [] | Some bs \<Rightarrow> bs)
      in case find_block (cidr_of ip) spec of
        None \<Rightarrow> ret Panicked
      | Some True \<Rightarrow> ret (Returned (Inr ()))
      | Some False \<Rightarrow> write_blocks D gvr poolName pool (spec @ [new_block (cidr_of ip)]))"

definition defaultEnsureIPInPool :: "'w pool_client \<Rightarrow> string \<Rightarrow> string \<Rightarrow> ('w, unit outcome) state" where
  "defaultEnsureIPInPool D poolName ip = do {
     probe \<leftarrow> dyn_Get D gvrPoolV2 poolName;
     (case probe of
        Inl (OtherError e) \<Rightarrow> ret (Returned (Inl (wrapf ''failed to check pool'' e)))
      | _ \<Rightarrow> do {
          let gvr = (case probe of Inl (NotFound _) \<Rightarrow> gvrPoolV2a | _ \<Rightarrow> gvrPoolV2);
          pool \<leftarrow> dyn_Get D gvr poolName;
          (case pool of
             Inl e \<Rightarrow> ret (Returned (Inl (wrapf (''failed to get pool '' @ poolName) (api_error_msg e))))
           | Inr pool \<Rightarrow> ensure_block D gvr poolName ip pool)
        })
   }"

definition remove_block :: "'w pool_client \<Rightarrow> gvr \<Rightarrow> string \<Rightarrow> string \<Rightarrow> json \<Rightarrow> ('w, unit outcome) state" where
  "remove_block D gvr poolName ip pool = (case un_NestedSlice D pool blocks_path of
      None \<Rightarrow> ret (Returned (Inr ()))
    | Some spec \<Rightarrow>
        if spec = [] then ret (Returned (Inr ()))
        else (case drop_block (cidr_of ip) spec of
            None \<Rightarrow> ret Panicked
          | Some (newSpec, removed) \<Rightarrow>
              if \<not> removed then ret (Returned (Inr ()))
              else write_blocks D gvr poolName pool newSpec))"

definition defaultRemoveIPFromPool :: "'w pool_client \<Rightarrow> string \<Rightarrow> string \<Rightarrow> ('w, unit outcome) state" where
  "defaultRemoveIPFromPool D poolName ip =
     (if ip = [] then ret (Returned (Inr ()))
      else do {
        pool \<leftarrow> dyn_Get D gvrPoolV2 poolName;
        (case pool of
           Inr pool \<Rightarrow> remove_block D gvrPoolV2 poolName ip pool
         | Inl (OtherError e) \<Rightarrow> ret (Returned (Inl (wrapf (''failed to get pool '' @ poolName) e)))
         | Inl (NotFound _) \<Rightarrow> do {
             pool \<leftarrow> dyn_Get D gvrPoolV2a poolName;
             (case pool of
                Inr pool \<Rightarrow> remove_block D gvrPoolV2a poolName ip pool
              | Inl (NotFound _) \<Rightarrow> ret (Returned (Inr ()))
              | Inl (OtherError e) \<Rightarrow> ret (Returned (Inl (wrapf (''failed to get pool '' @ poolName) e))))
           })
      })"

subsection \<open>What a pool is\<close>

locale ip_pool =
  fixes invar :: "'p \<Rightarrow> bool" and members :: "'p \<Rightarrow> 'x set"
    and add :: "'x \<Rightarrow> 'p \<Rightarrow> 'p" and rem :: "'x \<Rightarrow> 'p \<Rightarrow> 'p"
  assumes invar_add: "invar p \<Longrightarrow> invar (add x p)"
    and invar_rem: "invar p \<Longrightarrow> invar (rem x p)"
    and members_add: "invar p \<Longrightarrow> members (add x p) = insert x (members p)"
    and members_rem: "invar p \<Longrightarrow> members (rem x p) = members p - {x}"
    and add_present: "invar p \<Longrightarrow> x \<in> members p \<Longrightarrow> add x p = p"
    and rem_absent: "invar p \<Longrightarrow> x \<notin> members p \<Longrightarrow> rem x p = p"
begin

lemma add_idempotent: "invar p \<Longrightarrow> add x (add x p) = add x p"
  by (simp add: add_present invar_add members_add)

lemma rem_idempotent: "invar p \<Longrightarrow> rem x (rem x p) = rem x p"
  by (simp add: rem_absent invar_rem members_rem)

lemma add_then_rem: "invar p \<Longrightarrow> x \<notin> members p \<Longrightarrow> members (rem x (add x p)) = members p"
  by (simp add: members_rem invar_add members_add)

text \<open>A sequence of claims coming and going: the pool holds what was there and was not removed, and
  what was last added.\<close>

primrec run_ops :: "(bool \<times> 'x) list \<Rightarrow> 'p \<Rightarrow> 'p" where
  "run_ops [] p = p"
| "run_ops (o1 # os) p = run_ops os (if fst o1 then add (snd o1) p else rem (snd o1) p)"

primrec final :: "(bool \<times> 'x) list \<Rightarrow> 'x \<Rightarrow> bool \<Rightarrow> bool" where
  "final [] x b = b"
| "final (o1 # os) x b = final os x (if snd o1 = x then fst o1 else b)"

lemma run_ops_members: "invar p \<Longrightarrow> invar (run_ops os p) \<and> (x \<in> members (run_ops os p) \<longleftrightarrow> final os x (x \<in> members p))"
proof (induction os arbitrary: p)
  case (Cons o1 os)
  let ?p = "if fst o1 then add (snd o1) p else rem (snd o1) p"
  have "invar ?p" "x \<in> members ?p \<longleftrightarrow> (if snd o1 = x then fst o1 else x \<in> members p)"
    using Cons.prems by (auto simp: invar_add invar_rem members_add members_rem)
  with Cons.IH [of ?p] show ?case by simp
qed simp

end

text \<open>The blocks of the code as such a pool: every block is an object.\<close>

definition blocks_ok :: "json list \<Rightarrow> bool" where
  "blocks_ok bs \<longleftrightarrow> (\<forall>b \<in> set bs. \<exists>m. b = JObj m)"

definition cidrs :: "json list \<Rightarrow> string set" where
  "cidrs bs = {c. \<exists>m. JObj m \<in> set bs \<and> map_of m ''cidr'' = Some (JStr c)}"

definition add_cidr :: "string \<Rightarrow> json list \<Rightarrow> json list" where
  "add_cidr cidr bs = (case find_block cidr bs of Some False \<Rightarrow> bs @ [new_block cidr] | _ \<Rightarrow> bs)"

definition rem_cidr :: "string \<Rightarrow> json list \<Rightarrow> json list" where
  "rem_cidr cidr bs = (case drop_block cidr bs of Some (ks, True) \<Rightarrow> ks | _ \<Rightarrow> bs)"

lemma find_block_iff: "blocks_ok bs \<Longrightarrow> find_block cidr bs = Some (cidr \<in> cidrs bs)"
  by (induction bs) (auto simp: blocks_ok_def cidrs_def split: option.splits bool.splits)

lemma drop_block_iff:
  "blocks_ok bs \<Longrightarrow> drop_block cidr bs = Some (filter (\<lambda>b. block_is cidr b \<noteq> Some True) bs, cidr \<in> cidrs bs)"
  by (induction bs) (auto simp: blocks_ok_def cidrs_def split: option.splits)

lemma filter_all: "cidr \<notin> cidrs bs \<Longrightarrow> filter (\<lambda>b. block_is cidr b \<noteq> Some True) bs = bs"
proof (rule filter_True, rule ballI)
  fix b
  assume "cidr \<notin> cidrs bs" "b \<in> set bs"
  then show "block_is cidr b \<noteq> Some True" by (cases b) (auto simp: cidrs_def)
qed

lemma add_cidr_eq: "blocks_ok bs \<Longrightarrow> add_cidr cidr bs = (if cidr \<in> cidrs bs then bs else bs @ [new_block cidr])"
  by (simp add: add_cidr_def find_block_iff)

lemma rem_cidr_eq: "blocks_ok bs \<Longrightarrow> rem_cidr cidr bs = filter (\<lambda>b. block_is cidr b \<noteq> Some True) bs"
  by (simp add: rem_cidr_def drop_block_iff filter_all split: bool.split)

lemma cidrs_append [simp]: "cidrs (bs @ bs') = cidrs bs \<union> cidrs bs'"
  by (auto simp: cidrs_def)

lemma cidrs_new_block [simp]: "cidrs [new_block c] = {c}"
  by (auto simp: cidrs_def new_block_def)

lemma cidrs_filter: "cidrs (filter (\<lambda>b. block_is cidr b \<noteq> Some True) bs) = cidrs bs - {cidr}"
  by (auto simp: cidrs_def)

interpretation cilium: ip_pool blocks_ok cidrs add_cidr rem_cidr
proof
  show "blocks_ok bs \<Longrightarrow> blocks_ok (add_cidr c bs)" for bs c
    by (auto simp: add_cidr_eq blocks_ok_def new_block_def)
  show "blocks_ok bs \<Longrightarrow> blocks_ok (rem_cidr c bs)" for bs c
    by (simp add: rem_cidr_eq) (simp add: blocks_ok_def)
  show "blocks_ok bs \<Longrightarrow> cidrs (add_cidr c bs) = insert c (cidrs bs)" for bs c
    by (auto simp: add_cidr_eq)
  show "blocks_ok bs \<Longrightarrow> cidrs (rem_cidr c bs) = cidrs bs - {c}" for bs c
    by (simp add: rem_cidr_eq cidrs_filter)
  show "blocks_ok bs \<Longrightarrow> c \<in> cidrs bs \<Longrightarrow> add_cidr c bs = bs" for bs c
    by (simp add: add_cidr_eq)
  show "blocks_ok bs \<Longrightarrow> c \<notin> cidrs bs \<Longrightarrow> rem_cidr c bs = bs" for bs c
    by (simp add: rem_cidr_eq filter_all)
qed

subsection \<open>Pools on the API server\<close>

text \<open>
  What the operator relies on: reads answer what is stored; an update writes the object that was sent
  (up to metadata the server owns) under its own name, provided that the stored object still has the
  resource version the sender read, and a refused update writes nothing; setting a nested slice makes
  it readable and keeps name and version. \<open>nm\<close> and \<open>rv\<close> read \<^verbatim>\<open>metadata.name\<close> and
  \<^verbatim>\<open>metadata.resourceVersion\<close>.
\<close>

type_synonym pools = "gvr \<times> string \<Rightarrow> json option"

definition blocks :: "'w pool_client \<Rightarrow> json \<Rightarrow> json list" where
  "blocks D o1 = (case un_NestedSlice D o1 blocks_path of None \<Rightarrow> [] | Some bs \<Rightarrow> bs)"

definition pool_store ::
  "'w pool_client \<Rightarrow> (json \<Rightarrow> string) \<Rightarrow> (json \<Rightarrow> string) \<Rightarrow> ('w \<Rightarrow> pools) \<Rightarrow> bool" where
  "pool_store D nm rv pools \<longleftrightarrow>
     (\<forall>g n w. wp (dyn_Get D g n) (\<lambda>r w'. pools w' = pools w \<and>
        (case r of Inr o1 \<Rightarrow> pools w (g, n) = Some o1 \<and> nm o1 = n
          | Inl (NotFound _) \<Rightarrow> pools w (g, n) = None | Inl (OtherError _) \<Rightarrow> True)) w) \<and>
     (\<forall>g o1 w. wp (dyn_Update D g o1) (\<lambda>r w'. case r of Inl _ \<Rightarrow> pools w' = pools w
        | Inr _ \<Rightarrow> \<exists>old new. pools w (g, nm o1) = Some old \<and> rv old = rv o1 \<and> blocks D new = blocks D o1 \<and>
            pools w' = (pools w)((g, nm o1) \<mapsto> new)) w) \<and>
     (\<forall>o1 bs o2. un_SetNestedSlice D o1 bs blocks_path = Inr o2 \<longrightarrow>
        un_NestedSlice D o2 blocks_path = Some bs \<and> nm o2 = nm o1 \<and> rv o2 = rv o1)"

text \<open>The abstract state: for every pool the set of its CIDRs; and the operations on it.\<close>

definition cidr_view :: "'w pool_client \<Rightarrow> pools \<Rightarrow> gvr \<times> string \<Rightarrow> string set option" where
  "cidr_view D P k = map_option (\<lambda>o1. cidrs (blocks D o1)) (P k)"

definition pools_ok :: "'w pool_client \<Rightarrow> pools \<Rightarrow> bool" where
  "pools_ok D P \<longleftrightarrow> (\<forall>k o1. P k = Some o1 \<longrightarrow> blocks_ok (blocks D o1))"

definition chosen :: "pools \<Rightarrow> string \<Rightarrow> gvr \<times> string" where
  "chosen P n = (if P (gvrPoolV2, n) = None then gvrPoolV2a else gvrPoolV2, n)"

definition spec_ensure :: "string \<Rightarrow> 'k \<Rightarrow> ('k \<Rightarrow> string set option) \<Rightarrow> 'k \<Rightarrow> string set option" where
  "spec_ensure c k V = (case V k of None \<Rightarrow> V | Some S \<Rightarrow> V(k \<mapsto> insert c S))"

definition spec_remove :: "string \<Rightarrow> 'k \<Rightarrow> ('k \<Rightarrow> string set option) \<Rightarrow> 'k \<Rightarrow> string set option" where
  "spec_remove c k V = (case V k of None \<Rightarrow> V | Some S \<Rightarrow> V(k \<mapsto> S - {c}))"

text \<open>Calls of the pool client, as rules.\<close>

lemma wp_dyn_Get:
  assumes "pool_store D nm rv pools"
    and "\<And>o1 w'. pools w' = pools w \<Longrightarrow> pools w (g, n) = Some o1 \<Longrightarrow> nm o1 = n \<Longrightarrow> Q (Inr o1) w'"
    and "\<And>m w'. pools w' = pools w \<Longrightarrow> pools w (g, n) = None \<Longrightarrow> Q (Inl (NotFound m)) w'"
    and "\<And>m w'. pools w' = pools w \<Longrightarrow> Q (Inl (OtherError m)) w'"
  shows "wp (dyn_Get D g n) Q w"
proof -
  have "wp (dyn_Get D g n) (\<lambda>r w'. pools w' = pools w \<and>
        (case r of Inr o1 \<Rightarrow> pools w (g, n) = Some o1 \<and> nm o1 = n
          | Inl (NotFound _) \<Rightarrow> pools w (g, n) = None | Inl (OtherError _) \<Rightarrow> True)) w"
    using assms(1) unfolding pool_store_def by blast
  then show ?thesis by (rule wp_mono) (auto split: sum.splits api_error.splits intro: assms(2-4))
qed

text \<open>Writing blocks: refused, or the pool that is stored at that moment still had the version that was
  read, and only its blocks are replaced.\<close>

lemma wp_write_blocks:
  assumes D: "pool_store D nm rv pools"
    and bad: "\<And>e w'. pools w' = pools w \<Longrightarrow> Q (Returned (Inl e)) w'"
    and ok: "\<And>old new w'. pools w (g, nm o1) = Some old \<Longrightarrow> rv old = rv o1 \<Longrightarrow> blocks D new = bs \<Longrightarrow>
      pools w' = (pools w)((g, nm o1) \<mapsto> new) \<Longrightarrow> Q (Returned (Inr ())) w'"
  shows "wp (write_blocks D g n o1 bs) Q w"
proof (cases "un_SetNestedSlice D o1 bs blocks_path")
  case (Inl e)
  then show ?thesis using bad by (simp add: write_blocks_def wp_simps)
next
  case (Inr o2)
  with D have o2: "un_NestedSlice D o2 blocks_path = Some bs" "nm o2 = nm o1" "rv o2 = rv o1"
    unfolding pool_store_def by blast+
  have "wp (dyn_Update D g o2) (\<lambda>r w'. case r of Inl _ \<Rightarrow> pools w' = pools w
        | Inr _ \<Rightarrow> \<exists>old new. pools w (g, nm o2) = Some old \<and> rv old = rv o2 \<and> blocks D new = blocks D o2 \<and>
            pools w' = (pools w)((g, nm o2) \<mapsto> new)) w"
    using D unfolding pool_store_def by blast
  then have "wp (dyn_Update D g o2) (\<lambda>r. Q (case r of
      Inl e \<Rightarrow> Returned (Inl (wrapf (''failed to update pool '' @ n) (api_error_msg e))) | Inr _ \<Rightarrow> Returned (Inr ()))) w"
  proof (rule wp_mono)
    fix r :: "api_error + json" and w'
    assume r: "case r of Inl _ \<Rightarrow> pools w' = pools w
        | Inr _ \<Rightarrow> \<exists>old new. pools w (g, nm o2) = Some old \<and> rv old = rv o2 \<and> blocks D new = blocks D o2 \<and>
            pools w' = (pools w)((g, nm o2) \<mapsto> new)"
    show "Q (case r of Inl e \<Rightarrow> Returned (Inl (wrapf (''failed to update pool '' @ n) (api_error_msg e)))
        | Inr _ \<Rightarrow> Returned (Inr ())) w'"
    proof (cases r)
      case (Inl e)
      with r bad show ?thesis by simp
    next
      case (Inr x)
      with r o2 ok show ?thesis by (auto simp: blocks_def [of D o2])
    qed
  qed
  with Inr show ?thesis by (simp add: write_blocks_def wp_simps)
qed

text \<open>\<open>refines V\<close>: the call did what the abstract operation with result \<open>V\<close> does, or reported an error and
  changed no pool; it did not panic.\<close>

definition refines :: "'w pool_client \<Rightarrow> (gvr \<times> string \<Rightarrow> string set option) \<Rightarrow> pools \<Rightarrow> unit outcome \<Rightarrow> pools \<Rightarrow> bool" where
  "refines D V P r P' \<longleftrightarrow> pools_ok D P' \<and> (case r of
      Returned (Inr _) \<Rightarrow> cidr_view D P' = V
    | Returned (Inl _) \<Rightarrow> cidr_view D P' = cidr_view D P
    | Panicked \<Rightarrow> False)"

lemma refines_same:
  "pools_ok D P \<Longrightarrow> refines D V P (Returned (Inl e)) P"
  "pools_ok D P \<Longrightarrow> V = cidr_view D P \<Longrightarrow> refines D V P (Returned (Inr x)) P"
  by (simp_all add: refines_def)

lemma cidr_view_update [simp]: "cidr_view D (P(k \<mapsto> new)) = (cidr_view D P)(k \<mapsto> cidrs (blocks D new))"
  by (rule ext) (simp add: cidr_view_def)

lemma pools_ok_update: "pools_ok D P \<Longrightarrow> blocks_ok (blocks D new) \<Longrightarrow> pools_ok D (P(k \<mapsto> new))"
  unfolding pools_ok_def by (metis fun_upd_apply option.inject)

lemma refines_write:
  assumes "blocks_ok (blocks D new)" "pools_ok D P" "V = (cidr_view D P)(k \<mapsto> cidrs (blocks D new))"
  shows "refines D V P (Returned (Inr x)) (P(k \<mapsto> new))"
  using assms by (simp add: refines_def pools_ok_update)

lemma wp_ensure_block:
  assumes D: "pool_store D nm rv pools" and k: "pools w (g, n) = Some o1" "nm o1 = n" and ok: "pools_ok D (pools w)"
  shows "wp (ensure_block D g n ip o1)
    (\<lambda>r w'. refines D (spec_ensure (cidr_of ip) (g, n) (cidr_view D (pools w))) (pools w) r (pools w')) w"
proof -
  let ?c = "cidr_of ip" and ?bs = "blocks D o1"
  let ?V = "spec_ensure ?c (g, n) (cidr_view D (pools w))"
  have bs: "blocks_ok ?bs" using ok k unfolding pools_ok_def by blast
  have V: "?V = (cidr_view D (pools w))((g, n) \<mapsto> insert ?c (cidrs ?bs))"
    using k(1) by (simp add: spec_ensure_def cidr_view_def)
  show ?thesis
  proof (cases "?c \<in> cidrs ?bs")
    case True
    then have "?V = cidr_view D (pools w)"
      using k(1) by (auto simp: V cidr_view_def insert_absorb)
    with True bs ok show ?thesis
      unfolding ensure_block_def Let_def blocks_def [symmetric]
      by (simp add: find_block_iff wp_simps) (simp add: refines_same)
  next
    case False
    have "wp (write_blocks D g n o1 (?bs @ [new_block ?c])) (\<lambda>r w'. refines D ?V (pools w) r (pools w')) w"
    proof (rule wp_write_blocks [OF D])
      show "refines D ?V (pools w) (Returned (Inl e)) (pools w')" if "pools w' = pools w" for e w'
        using that ok by (simp add: refines_same)
      show "refines D ?V (pools w) (Returned (Inr ())) (pools w')"
        if "pools w' = (pools w)((g, nm o1) \<mapsto> new)" "blocks D new = ?bs @ [new_block ?c]" for new w'
        using that k(2) ok bs cilium.invar_add [OF bs, of ?c] False
        by (simp add: V refines_write add_cidr_eq)
    qed
    with False bs show ?thesis
      unfolding ensure_block_def Let_def blocks_def [symmetric] by (simp add: find_block_iff)
  qed
qed

lemma wp_remove_block:
  assumes D: "pool_store D nm rv pools" and k: "pools w (g, n) = Some o1" "nm o1 = n" and ok: "pools_ok D (pools w)"
  shows "wp (remove_block D g n ip o1)
    (\<lambda>r w'. refines D (spec_remove (cidr_of ip) (g, n) (cidr_view D (pools w))) (pools w) r (pools w')) w"
proof -
  let ?c = "cidr_of ip" and ?bs = "blocks D o1"
  let ?ks = "filter (\<lambda>b. block_is ?c b \<noteq> Some True) ?bs" and ?V = "spec_remove ?c (g, n) (cidr_view D (pools w))"
  have bs: "blocks_ok ?bs" using ok k unfolding pools_ok_def by blast
  have V: "?V = (cidr_view D (pools w))((g, n) \<mapsto> cidrs ?bs - {?c})"
    using k(1) by (simp add: spec_remove_def cidr_view_def)
  show ?thesis
  proof (cases "?c \<in> cidrs ?bs")
    case True
    then obtain spec where spec: "un_NestedSlice D o1 blocks_path = Some spec" "?bs = spec" "spec \<noteq> []"
      by (cases "un_NestedSlice D o1 blocks_path") (fastforce simp: blocks_def cidrs_def)+
    have "wp (write_blocks D g n o1 ?ks) (\<lambda>r w'. refines D ?V (pools w) r (pools w')) w"
    proof (rule wp_write_blocks [OF D])
      show "refines D ?V (pools w) (Returned (Inl e)) (pools w')" if "pools w' = pools w" for e w'
        using that ok by (simp add: refines_same)
      show "refines D ?V (pools w) (Returned (Inr ())) (pools w')"
        if "pools w' = (pools w)((g, nm o1) \<mapsto> new)" "blocks D new = ?ks" for new w'
        using that k(2) ok cilium.invar_rem [OF bs, of ?c] bs
        by (simp add: V refines_write cidrs_filter rem_cidr_eq)
    qed
    with True spec bs show ?thesis by (simp add: remove_block_def drop_block_iff)
  next
    case False
    then have "?V = cidr_view D (pools w)" using k(1) by (auto simp: V cidr_view_def)
    then have "refines D ?V (pools w) (Returned (Inr ())) (pools w)" using ok by (simp add: refines_same)
    with False bs show ?thesis
      by (cases "un_NestedSlice D o1 blocks_path") (simp_all add: remove_block_def drop_block_iff blocks_def wp_simps)
  qed
qed

text \<open>The choice of the resource version.\<close>

lemma wp_ensure_cases:
  assumes D: "pool_store D nm rv pools"
    and err: "\<And>e w'. pools w' = pools w \<Longrightarrow> Q (Returned (Inl e)) w'"
    and found: "\<And>g o1 w'. pools w' = pools w \<Longrightarrow> chosen (pools w) n = (g, n) \<Longrightarrow> pools w (g, n) = Some o1 \<Longrightarrow> nm o1 = n \<Longrightarrow>
      wp (ensure_block D g n ip o1) Q w'"
  shows "wp (defaultEnsureIPInPool D n ip) Q w"
  unfolding defaultEnsureIPInPool_def wp_bind
  by (rule wp_dyn_Get [OF D]) (use found err in \<open>auto simp: wp_simps Let_def chosen_def intro!: wp_dyn_Get [OF D]\<close>)

lemma wp_remove_cases:
  assumes D: "pool_store D nm rv pools" and ip: "ip \<noteq> []"
    and err: "\<And>e w'. pools w' = pools w \<Longrightarrow> Q (Returned (Inl e)) w'"
    and gone: "\<And>w'. pools w' = pools w \<Longrightarrow> pools w (chosen (pools w) n) = None \<Longrightarrow> Q (Returned (Inr ())) w'"
    and found: "\<And>g o1 w'. pools w' = pools w \<Longrightarrow> chosen (pools w) n = (g, n) \<Longrightarrow> pools w (g, n) = Some o1 \<Longrightarrow> nm o1 = n \<Longrightarrow>
      wp (remove_block D g n ip o1) Q w'"
  shows "wp (defaultRemoveIPFromPool D n ip) Q w"
  unfolding defaultRemoveIPFromPool_def wp_bind if_not_P [OF ip]
  by (rule wp_dyn_Get [OF D]) (use found err gone in \<open>auto simp: wp_simps chosen_def intro!: wp_dyn_Get [OF D]\<close>)

lemma wp_defaultEnsure:
  assumes D: "pool_store D nm rv pools" and ok: "pools_ok D (pools w)"
  shows "wp (defaultEnsureIPInPool D n ip) (\<lambda>r w'.
     refines D (spec_ensure (cidr_of ip) (chosen (pools w) n) (cidr_view D (pools w))) (pools w) r (pools w') \<and>
     (r = Returned (Inr ()) \<longrightarrow> pools w (chosen (pools w) n) \<noteq> None)) w"
proof (rule wp_ensure_cases [OF D])
  fix g o1 w2
  assume "pools w2 = pools w" "chosen (pools w) n = (g, n)" "pools w (g, n) = Some o1" "nm o1 = n"
  with ok show "wp (ensure_block D g n ip o1) (\<lambda>r w'.
     refines D (spec_ensure (cidr_of ip) (chosen (pools w) n) (cidr_view D (pools w))) (pools w) r (pools w') \<and>
     (r = Returned (Inr ()) \<longrightarrow> pools w (chosen (pools w) n) \<noteq> None)) w2"
    by (intro wp_mono [OF wp_ensure_block [OF D, where w = w2]]) simp_all
qed (use ok in \<open>simp add: refines_same\<close>)

lemma wp_defaultRemove:
  assumes D: "pool_store D nm rv pools" and ok: "pools_ok D (pools w)"
  shows "wp (defaultRemoveIPFromPool D n ip) (\<lambda>r w'. refines D (if ip = [] then cidr_view D (pools w)
     else spec_remove (cidr_of ip) (chosen (pools w) n) (cidr_view D (pools w))) (pools w) r (pools w')) w"
proof (cases "ip = []")
  case True
  then show ?thesis using ok by (simp add: defaultRemoveIPFromPool_def wp_simps refines_same)
next
  case False
  let ?V = "spec_remove (cidr_of ip) (chosen (pools w) n) (cidr_view D (pools w))"
  have "wp (defaultRemoveIPFromPool D n ip) (\<lambda>r w'. refines D ?V (pools w) r (pools w')) w"
  proof (rule wp_remove_cases [OF D False])
    fix g o1 w2
    assume "pools w2 = pools w" "chosen (pools w) n = (g, n)" "pools w (g, n) = Some o1" "nm o1 = n"
    with ok show "wp (remove_block D g n ip o1) (\<lambda>r w'. refines D ?V (pools w) r (pools w')) w2"
      by (intro wp_mono [OF wp_remove_block [OF D, where w = w2]]) simp_all
  next
    fix w'
    assume "pools w' = pools w" "pools w (chosen (pools w) n) = None"
    with ok show "refines D ?V (pools w) (Returned (Inr ())) (pools w')"
      by (simp add: refines_same spec_remove_def cidr_view_def)
  qed (use ok in \<open>simp add: refines_same\<close>)
  with False show ?thesis by simp
qed

text \<open>A small API server: version 2 pools only, with a name, a version that every write increments, and
  the blocks.\<close>

definition sim_pool :: "string \<Rightarrow> int \<Rightarrow> json list \<Rightarrow> json" where
  "sim_pool n v bs = JObj [(''name'', JStr n), (''version'', JNum v), (''blocks'', JArr bs)]"

definition sim_field :: "string \<Rightarrow> json \<Rightarrow> json" where
  "sim_field f o1 = (case o1 of JObj m \<Rightarrow> (case map_of m f of None \<Rightarrow> JNull | Some v \<Rightarrow> v) | _ \<Rightarrow> JNull)"

definition sim_pool_name :: "json \<Rightarrow> string" where
  "sim_pool_name o1 = (case sim_field ''name'' o1 of JStr n \<Rightarrow> n | _ \<Rightarrow> [])"

definition sim_pool_version :: "json \<Rightarrow> string" where
  "sim_pool_version o1 = (case sim_field ''version'' o1 of JNum v \<Rightarrow> fmt_d v | _ \<Rightarrow> [])"

definition sim_NestedSlice :: "json \<Rightarrow> string list \<Rightarrow> json list option" where
  "sim_NestedSlice o1 _ = (case sim_field ''blocks'' o1 of JArr bs \<Rightarrow> Some bs | _ \<Rightarrow> None)"

definition sim_set :: "string \<Rightarrow> json \<Rightarrow> json \<Rightarrow> json" where
  "sim_set f v o1 = (case o1 of JObj m \<Rightarrow> JObj (AList.update f v m) | _ \<Rightarrow> o1)"

definition sim_SetNestedSlice :: "json \<Rightarrow> json list \<Rightarrow> string list \<Rightarrow> json result" where
  "sim_SetNestedSlice o1 bs _ = (case o1 of JObj _ \<Rightarrow> Inr (sim_set ''blocks'' (JArr bs) o1) | _ \<Rightarrow> Inl ''value cannot be set'')"

lemma sim_field_set: "sim_field f (sim_set g v o1) = (if f = g then (case o1 of JObj _ \<Rightarrow> v | _ \<Rightarrow> JNull) else sim_field f o1)"
  by (simp add: sim_field_def sim_set_def split: json.split)

type_synonym sim_pools = "(string \<times> json) list"

definition sim_pool_map :: "sim_pools \<Rightarrow> pools" where
  "sim_pool_map w = (\<lambda>(g, n). if g = gvrPoolV2 then Option.bind (map_of w n)
     (\<lambda>o1. if sim_pool_name o1 = n then Some o1 else None) else None)"

definition sim_pool_get :: "gvr \<Rightarrow> string \<Rightarrow> (sim_pools, api_error + json) state" where
  "sim_pool_get g n = gets (\<lambda>w. case sim_pool_map w (g, n) of
     None \<Rightarrow> Inl (NotFound ''not found'') | Some o1 \<Rightarrow> Inr o1)"

definition sim_bump :: "json \<Rightarrow> json" where
  "sim_bump o1 = (case sim_field ''version'' o1 of JNum v \<Rightarrow> sim_set ''version'' (JNum (v + 1)) o1 | _ \<Rightarrow> o1)"

definition sim_pool_update :: "gvr \<Rightarrow> json \<Rightarrow> (sim_pools, api_error + json) state" where
  "sim_pool_update g o1 = State (\<lambda>w. case sim_pool_map w (g, sim_pool_name o1) of
      None \<Rightarrow> (Inl (NotFound ''not found''), w)
    | Some old \<Rightarrow> if sim_pool_version old \<noteq> sim_pool_version o1
        then (Inl (OtherError ''the object has been modified''), w)
        else (Inr (sim_bump o1), AList.update (sim_pool_name o1) (sim_bump o1) w))"

definition sim_P :: "sim_pools pool_client" where
  "sim_P = \<lparr>dyn_Get = sim_pool_get, dyn_Update = sim_pool_update,
     un_NestedSlice = sim_NestedSlice, un_SetNestedSlice = sim_SetNestedSlice\<rparr>"

lemmas sim_fields = sim_pool_name_def sim_pool_version_def sim_NestedSlice_def sim_field_set

lemma sim_bump: "sim_pool_name (sim_bump o1) = sim_pool_name o1" "sim_NestedSlice (sim_bump o1) p = sim_NestedSlice o1 p"
  by (cases "sim_field ''version'' o1"; simp add: sim_bump_def sim_fields)+

lemma sim_set_slice:
  "sim_SetNestedSlice o1 bs p = Inr o2 \<Longrightarrow> sim_NestedSlice o2 p = Some bs \<and> sim_pool_name o2 = sim_pool_name o1 \<and>
     sim_pool_version o2 = sim_pool_version o1"
  by (cases o1) (auto simp: sim_SetNestedSlice_def sim_fields)

lemma sim_pool_store: "pool_store sim_P sim_pool_name sim_pool_version sim_pool_map"
proof -
  have upd: "sim_pool_map (AList.update (sim_pool_name o1) (sim_bump o1) w) =
      (sim_pool_map w)((gvrPoolV2, sim_pool_name o1) \<mapsto> sim_bump o1)" for o1 w
    by (auto simp: sim_pool_map_def sim_bump)
  have map: "sim_pool_map w (g, n) = Some o1 \<Longrightarrow> sim_pool_name o1 = n \<and> g = gvrPoolV2" for w g n o1
    by (auto simp: sim_pool_map_def split: if_splits bind_splits)
  have get: "wp (dyn_Get sim_P g n) (\<lambda>r w'. sim_pool_map w' = sim_pool_map w \<and>
        (case r of Inr o1 \<Rightarrow> sim_pool_map w (g, n) = Some o1 \<and> sim_pool_name o1 = n
          | Inl (NotFound _) \<Rightarrow> sim_pool_map w (g, n) = None | Inl (OtherError _) \<Rightarrow> True)) w" for g n w
    by (auto simp: sim_P_def sim_pool_get_def wp_simps map split: option.split)
  have update: "wp (dyn_Update sim_P g o1) (\<lambda>r w'. case r of Inl _ \<Rightarrow> sim_pool_map w' = sim_pool_map w
        | Inr _ \<Rightarrow> \<exists>old new. sim_pool_map w (g, sim_pool_name o1) = Some old \<and> sim_pool_version old = sim_pool_version o1 \<and>
            blocks sim_P new = blocks sim_P o1 \<and> sim_pool_map w' = (sim_pool_map w)((g, sim_pool_name o1) \<mapsto> new)) w" for g o1 w
  proof (cases "sim_pool_map w (g, sim_pool_name o1)")
    case (Some old)
    with map have "g = gvrPoolV2" by blast
    moreover have "blocks sim_P (sim_bump o1) = blocks sim_P o1" by (simp add: blocks_def sim_P_def sim_bump)
    ultimately show ?thesis using Some upd
      by (auto simp: sim_P_def sim_pool_update_def wp_def)
  qed (simp add: sim_P_def sim_pool_update_def wp_def)
  show ?thesis
    unfolding pool_store_def using get update sim_set_slice by (auto simp: sim_P_def)
qed

definition sim_pools1 :: sim_pools where
  "sim_pools1 = [(''wan'', sim_pool ''wan'' 7 [new_block ''198.51.100.1/32''])]"

lemma sim_pools1:
  "sim_pool_map sim_pools1 (gvrPoolV2, ''wan'') = Some (sim_pool ''wan'' 7 [new_block ''198.51.100.1/32''])"
  "pools_ok sim_P (sim_pool_map sim_pools1)"
  "blocks sim_P (sim_pool n v bs) = bs" "sim_pool_name (sim_pool n v bs) = n" "sim_pool_version (sim_pool n v bs) = fmt_d v"
  by (auto simp: sim_pools1_def sim_pool_map_def sim_pool_def pools_ok_def blocks_def sim_P_def blocks_ok_def new_block_def
      sim_fields sim_field_def split: if_splits bind_splits)

subsection \<open>Properties\<close>

text \<open>C4: The pool is a set of addresses: on pools whose blocks are objects, \<^verbatim>\<open>defaultEnsureIPInPool\<close>
  refines inserting the \<^verbatim>\<open>/32\<close> of the address into the set of CIDRs of the pool it chose (the v2
  resource if there is one, else v2alpha1) and succeeds only when that pool exists, and
  \<^verbatim>\<open>defaultRemoveIPFromPool\<close> refines deleting it; an error changes no pool, no other pool is touched,
  and neither panics.\<close>

theorem pool_operations_refine_sets:
  assumes "pool_store D nm rv pools" and "pools_ok D (pools w)"
  shows "wp (defaultEnsureIPInPool D n ip) (\<lambda>r w'.
       refines D (spec_ensure (cidr_of ip) (chosen (pools w) n) (cidr_view D (pools w))) (pools w) r (pools w') \<and>
       (r = Returned (Inr ()) \<longrightarrow> pools w (chosen (pools w) n) \<noteq> None)) w \<and>
     wp (defaultRemoveIPFromPool D n ip) (\<lambda>r w'.
       refines D (if ip = [] then cidr_view D (pools w)
         else spec_remove (cidr_of ip) (chosen (pools w) n) (cidr_view D (pools w))) (pools w) r (pools w')) w"
  using wp_defaultEnsure [OF assms] wp_defaultRemove [OF assms] by blast

theorem pool_operations_refine_sets_witness:
  "wp (defaultEnsureIPInPool sim_P ''wan'' ''203.0.113.9'') (\<lambda>r w'.
      refines sim_P (spec_ensure ''203.0.113.9/32'' (gvrPoolV2, ''wan'') (cidr_view sim_P (sim_pool_map sim_pools1)))
        (sim_pool_map sim_pools1) r (sim_pool_map w')) sim_pools1"
proof -
  have "chosen (sim_pool_map sim_pools1) ''wan'' = (gvrPoolV2, ''wan'')"
    by (simp add: chosen_def sim_pools1)
  then show ?thesis
    using pool_operations_refine_sets [OF sim_pool_store sim_pools1(2), of "''wan''" "''203.0.113.9''"]
    by (auto simp: cidr_of_def elim!: wp_mono)
qed



end
