(* ===== verification/Controller.thy ===== *)
theory Controller
  imports AgentClient SshRegistry Pool
begin

text \<open>
  \<^verbatim>\<open>internal/controller/publicipclaim_controller.go\<close>: the reconciler of \<^verbatim>\<open>PublicIPClaim\<close>. The state
  \<open>ctl\<close> is the struct \<^verbatim>\<open>PublicIPClaimReconciler\<close> with what it reaches: its three tracking maps, the SSH
  registry with the managers, and the world. \<open>ctl_env\<close> holds the parameters: the Kubernetes client,
  the pool client, the tunnel and HTTP transport, the SSH package's environment, the parsing of
  private keys, random bytes, the clock and the function fields that tests may set.

  A claim is passed and returned by value where the code passes a pointer. Contexts with timeouts are
  not modelled: an operation that times out is one that returns an error. Logging is left out.
\<close>

subsection \<open>State and environment\<close>

text \<open>The event handler that is registered with a manager closes over the claim's key.\<close>

record ev_handler =
  eh_Namespace :: string
  eh_Name :: string

record ('f, 'w) ctl =
  ct_SSHRegistry :: bool
  ct_sshHandlers :: "(string \<times> 64 word) list"
  ct_routerAssignments :: "(string \<times> string) list"
  ct_claimManagers :: "(string \<times> nat) list"
  ct_reg :: "(ev_handler, 'f, 'w) rsys"

text \<open>The function fields of the struct; \<open>None\<close> is nil.\<close>

record 'w hooks =
  runRouterScriptFn :: "(public_ip_claim \<Rightarrow> string \<Rightarrow> string \<Rightarrow> ('w, string result) state) option"
  ensureIPInPoolFn :: "(string \<Rightarrow> string \<Rightarrow> ('w, unit result) state) option"
  removeIPFromPoolFn :: "(string \<Rightarrow> string \<Rightarrow> ('w, unit result) state) option"
  cleanupRouterInterfaceFn :: "(public_ip_claim \<Rightarrow> ('w, unit result) state) option"

record ('f, 'w) ctl_env =
  ce_K :: "'w k8s"
  ce_D :: "'w pool_client"
  ce_T :: "string \<Rightarrow> nat \<Rightarrow> 'w tunnel_lib"
  ce_H :: "tunnel \<Rightarrow> 'w http_lib"
  ce_mid :: "bool option"
  ce_G :: golib
  ce_V :: "(ev_handler, 'f, 'w) ssh_env"
  ce_ParsePrivateKey :: "string \<Rightarrow> nat result"
  ce_PublicKeys :: "nat \<Rightarrow> nat"
  ce_InsecureIgnoreHostKey :: nat
  ce_Rand :: "('w, byte list) state"
  ce_Now :: "('w, int) state"
  ce_FormatTime :: "int \<Rightarrow> string"
  ce_ulower :: "nat \<Rightarrow> nat"
  ce_Seconds :: "int \<Rightarrow> int"
  ce_hooks :: "'w hooks"

definition with_reg :: "((ev_handler, 'f, 'w) rsys, 'a) state \<Rightarrow> (('f, 'w) ctl, 'a) state" where
  "with_reg = zoom ct_reg (\<lambda>t s. s\<lparr>ct_reg := t\<rparr>)"

definition with_world :: "('w, 'a) state \<Rightarrow> (('f, 'w) ctl, 'a) state" where
  "with_world m = with_reg (zoom rg_world (\<lambda>w s. s\<lparr>rg_world := w\<rparr>) m)"

definition on_manager :: "nat \<Rightarrow> ((ev_handler, 'f, 'w) msys, 'a) state \<Rightarrow> (('f, 'w) ctl, 'a) state" where
  "on_manager i m = with_reg (with_mgr i m)"

definition the_mgr :: "nat \<Rightarrow> ('f, 'w) ctl \<Rightarrow> (ev_handler, 'f) manager" where
  "the_mgr i s = rg_heap (ct_reg s) ! i"

subsection \<open>Helpers\<close>

definition sane_rune :: "nat \<Rightarrow> bool" where
  "sane_rune r \<longleftrightarrow> (97 \<le> r \<and> r \<le> 122) \<or> (48 \<le> r \<and> r \<le> 57) \<or> r = 45"

definition sanitizeName :: "(nat \<Rightarrow> nat) \<Rightarrow> string \<Rightarrow> string" where
  "sanitizeName ulower name =
     (let sanitized = map (\<lambda>r. if sane_rune r then char_of r else CHR ''-'') (ToLower ulower (runes name))
      in if 10 < length sanitized then take 10 sanitized else sanitized)"

text \<open>\<open>buf\<close> is what \<^verbatim>\<open>rand.Read\<close> put into the five bytes.\<close>

definition generateUniqueMAC :: "byte list \<Rightarrow> string" where
  "generateUniqueMAC buf = ''02:'' @ Join (map (\<lambda>i. fmt_02x (buf ! i)) [0..<5]) '':''"

definition coalesceInt :: "int \<Rightarrow> int \<Rightarrow> int" where
  "coalesceInt a b = (if a \<noteq> 0 then a else b)"

definition finalizerName :: string where
  "finalizerName = ''serialx.net/cleanup-wan-interface''"

definition event_key :: string where
  "event_key = ''network.serialx.net/last-router-event''"

definition reason_key :: string where
  "reason_key = ''network.serialx.net/last-router-event-reason''"

definition handler_key :: "public_ip_claim \<Rightarrow> string" where
  "handler_key c = pc_Namespace c @ ''/'' @ pc_Name c"

definition router_addr :: "public_ip_claim \<Rightarrow> string" where
  "router_addr c = rt_Host (sp_Router (pc_Spec c)) @ '':'' @ fmt_d (coalesceInt (rt_Port (sp_Router (pc_Spec c))) 22)"

abbreviation router :: "public_ip_claim \<Rightarrow> router_spec" where
  "router c \<equiv> sp_Router (pc_Spec c)"

abbreviation status :: "public_ip_claim \<Rightarrow> claim_status" where
  "status c \<equiv> pc_Status c"

text \<open>The credentials of the claim's router: the secret, its key and the signer.\<close>

definition signer_of :: "('f, 'w) ctl_env \<Rightarrow> public_ip_claim \<Rightarrow> (('f, 'w) ctl, nat result) state" where
  "signer_of E claim = do {
     sec \<leftarrow> with_world (k_GetSecret (ce_K E) ''kube-system'' (rt_SSHSecretRef (router claim)));
     ret (case sec of
         Inl e \<Rightarrow> Inl (wrapf ''failed to get SSH secret'' (api_error_msg e))
       | Inr data \<Rightarrow> (case map_of data ''id_rsa'' of
             None \<Rightarrow> Inl (''ssh private key not found in secret '' @ rt_SSHSecretRef (router claim) @ ''/id_rsa'')
           | Some key \<Rightarrow>
               if key = [] then Inl (''ssh private key not found in secret '' @ rt_SSHSecretRef (router claim) @ ''/id_rsa'')
               else (case ce_ParsePrivateKey E key of
                   Inl e \<Rightarrow> Inl (wrapf ''failed to parse SSH private key'' e)
                 | Inr signer \<Rightarrow> Inr signer)))
   }"

definition connect_agent :: "('f, 'w) ctl_env \<Rightarrow> public_ip_claim \<Rightarrow> nat \<Rightarrow> (('f, 'w) ctl, tunnel result) state" where
  "connect_agent E claim signer = with_world (NewAgentClient (ce_T E (rt_User (router claim)) signer) (rt_Host (router claim)))"

definition close_agent :: "('f, 'w) ctl_env \<Rightarrow> public_ip_claim \<Rightarrow> nat \<Rightarrow> tunnel \<Rightarrow> (('f, 'w) ctl, unit) state" where
  "close_agent E claim signer c = do {
     _ \<leftarrow> with_world (client_Close (ce_T E (rt_User (router claim)) signer) (ce_mid E) c);
     ret ()
   }"

subsection \<open>The router script, the pool and their hooks\<close>

definition defaultRunRouterScript ::
  "('f, 'w) ctl_env \<Rightarrow> public_ip_claim \<Rightarrow> string \<Rightarrow> string \<Rightarrow> (('f, 'w) ctl, string result) state" where
  "defaultRunRouterScript E claim wanIf macAddr = do {
     signer \<leftarrow> signer_of E claim;
     (case signer of
        Inl e \<Rightarrow> ret (Inl e)
      | Inr signer \<Rightarrow> do {
          agentClient \<leftarrow> connect_agent E claim signer;
          (case agentClient of
             Inl e \<Rightarrow> ret (Inl (wrapf ''failed to connect to router agent'' e))
           | Inr c \<Rightarrow> do {
               ip \<leftarrow> with_world (AllocateLease (ce_G E) (ce_H E c) c wanIf (rt_WanParent (router claim)) macAddr);
               _ \<leftarrow> close_agent E claim signer c;
               ret (case ip of Inl e \<Rightarrow> Inl (wrapf ''agent lease allocation failed'' e) | Inr ip \<Rightarrow> Inr ip)
             })
        })
   }"

definition runRouterScript ::
  "('f, 'w) ctl_env \<Rightarrow> public_ip_claim \<Rightarrow> string \<Rightarrow> string \<Rightarrow> (('f, 'w) ctl, string result) state" where
  "runRouterScript E claim wanIf macAddr = (case runRouterScriptFn (ce_hooks E) of
      Some f \<Rightarrow> with_world (f claim wanIf macAddr)
    | None \<Rightarrow> defaultRunRouterScript E claim wanIf macAddr)"

definition ensureIPInPool :: "('f, 'w) ctl_env \<Rightarrow> string \<Rightarrow> string \<Rightarrow> (('f, 'w) ctl, unit outcome) state" where
  "ensureIPInPool E poolName ip = (case ensureIPInPoolFn (ce_hooks E) of
      Some f \<Rightarrow> do { r \<leftarrow> with_world (f poolName ip); ret (Returned r) }
    | None \<Rightarrow> with_world (defaultEnsureIPInPool (ce_D E) poolName ip))"

definition removeIPFromPool :: "('f, 'w) ctl_env \<Rightarrow> string \<Rightarrow> string \<Rightarrow> (('f, 'w) ctl, unit outcome) state" where
  "removeIPFromPool E poolName ip = (case removeIPFromPoolFn (ce_hooks E) of
      Some f \<Rightarrow> do { r \<leftarrow> with_world (f poolName ip); ret (Returned r) }
    | None \<Rightarrow> with_world (defaultRemoveIPFromPool (ce_D E) poolName ip))"

subsection \<open>SSH managers of claims\<close>

definition manager_config :: "('f, 'w) ctl_env \<Rightarrow> public_ip_claim \<Rightarrow> nat \<Rightarrow> router_config" where
  "manager_config E claim signer = \<lparr>cfg_Address = router_addr claim, cfg_Username = rt_User (router claim),
     cfg_AuthMethod = Some (ce_PublicKeys E signer), cfg_HostKeyCallback = Some (ce_InsecureIgnoreHostKey E),
     cfg_Timeout = 30 * second, cfg_KeepAliveInterval = 30 * second, cfg_KeepAliveCommand = ''cat /proc/uptime'',
     cfg_Dial = None, cfg_Runner = None, cfg_MaxBackoff = 0, cfg_InitialBackoff = 0\<rparr>"

text \<open>The part after the manager is there: it is started if it is neither connected nor reconnecting (an
  error only means that it goes on in the background), and the status records where it is.\<close>

definition start_manager :: "('f, 'w) ctl_env \<Rightarrow> nat \<Rightarrow> (('f, 'w) ctl, string) state" where
  "start_manager E i = do {
     m \<leftarrow> gets (the_mgr i);
     _ \<leftarrow> (if \<not> IsConnected m \<and> \<not> IsReconnecting m
            then do { _ \<leftarrow> on_manager i (SshManager.Start (env_L (ce_V E)) 1); ret () } else ret ());
     m \<leftarrow> gets (the_mgr i);
     ret (if IsConnected m then ''connected'' else if IsReconnecting m then ''reconnecting'' else ''disconnected'')
   }"

text \<open>A claim that moved to another address: its handler is unregistered from the manager it was
  registered with, which is closed when that was its last handler.\<close>

definition move_claim :: "('f, 'w) ctl_env \<Rightarrow> string \<Rightarrow> string \<Rightarrow> (('f, 'w) ctl, unit) state" where
  "move_claim E key addr = do {
     previous \<leftarrow> gets (\<lambda>s. map_of (ct_routerAssignments s) key);
     (case previous of
        None \<Rightarrow> ret ()
      | Some previousRouter \<Rightarrow>
          if previousRouter = [] \<or> previousRouter = addr then ret ()
          else do {
            hid \<leftarrow> gets (\<lambda>s. map_of (ct_sshHandlers s) key);
            prevMgr \<leftarrow> gets (\<lambda>s. map_of (ct_claimManagers s) key);
            (case (hid, prevMgr) of
               (Some oldHandlerID, Some i) \<Rightarrow> do {
                 _ \<leftarrow> on_manager i (on_mgr (UnregisterHandler oldHandlerID));
                 _ \<leftarrow> modify (\<lambda>s. s\<lparr>ct_sshHandlers := AList.delete key (ct_sshHandlers s)\<rparr>);
                 _ \<leftarrow> modify (\<lambda>s. s\<lparr>ct_claimManagers := AList.delete key (ct_claimManagers s)\<rparr>);
                 n \<leftarrow> gets (\<lambda>s. HandlerCount (the_mgr i s));
                 (if n = 0 then do {
                    _ \<leftarrow> on_manager i (Close (ce_V E));
                    with_reg (Remove previousRouter)
                  } else ret ())
               }
             | _ \<Rightarrow> ret ())
          })
   }"

definition register_claim :: "public_ip_claim \<Rightarrow> nat \<Rightarrow> (('f, 'w) ctl, unit) state" where
  "register_claim claim i = do {
     registered \<leftarrow> gets (\<lambda>s. map_of (ct_sshHandlers s) (handler_key claim));
     (case registered of
        Some _ \<Rightarrow> ret ()
      | None \<Rightarrow> do {
          m \<leftarrow> gets (the_mgr i);
          (let (hid, m) = RegisterHandler (Some \<lparr>eh_Namespace = pc_Namespace claim, eh_Name = pc_Name claim\<rparr>) m
           in do {
             _ \<leftarrow> on_manager i (on_mgr (\<lambda>_. m));
             modify (\<lambda>s. s\<lparr>ct_sshHandlers := AList.update (handler_key claim) hid (ct_sshHandlers s)\<rparr>)
           })
        })
   }"

definition getSSHManager :: "('f, 'w) ctl_env \<Rightarrow> public_ip_claim \<Rightarrow> (('f, 'w) ctl, public_ip_claim \<times> nat result) state" where
  "getSSHManager E claim = do {
     has \<leftarrow> gets ct_SSHRegistry;
     (if \<not> has then ret (claim, Inl ''SSH registry not initialized'')
      else do {
        signer \<leftarrow> signer_of E claim;
        (case signer of
           Inl e \<Rightarrow> ret (claim, Inl e)
         | Inr signer \<Rightarrow> do {
             mgr \<leftarrow> with_reg (GetOrCreate (ce_V E) (manager_config E claim signer));
             (case mgr of
                Inl e \<Rightarrow> ret (claim, Inl (wrapf ''failed to get SSH manager'' e))
              | Inr i \<Rightarrow> do {
                  conn \<leftarrow> start_manager E i;
                  let claim = upd_status (\<lambda>st. st\<lparr>cs_ConnectionState := conn\<rparr>) claim;
                  _ \<leftarrow> move_claim E (handler_key claim) (router_addr claim);
                  _ \<leftarrow> register_claim claim i;
                  _ \<leftarrow> modify (\<lambda>s. s\<lparr>ct_claimManagers := AList.update (handler_key claim) i (ct_claimManagers s)\<rparr>);
                  _ \<leftarrow> modify (\<lambda>s. s\<lparr>ct_routerAssignments :=
                         AList.update (handler_key claim) (router_addr claim) (ct_routerAssignments s)\<rparr>);
                  ret (claim, Inr i)
                })
           })
      })
   }"

text \<open>What the registered handler does when an event arrives.\<close>

definition reason_text :: "event_reason \<Rightarrow> string" where
  "reason_text r = (case r of ReasonReboot \<Rightarrow> ''reboot'' | ReasonConnectionDrop \<Rightarrow> ''connection_drop''
     | ReasonReconnectSuccess \<Rightarrow> ''reconnect_success'')"

definition handle_event :: "('f, 'w) ctl_env \<Rightarrow> ev_handler \<Rightarrow> ssh_event \<Rightarrow> (('f, 'w) ctl, unit) state" where
  "handle_event E h event = do {
     c \<leftarrow> with_world (k_Get (ce_K E) (eh_Namespace h) (eh_Name h));
     (case c of
        Inl _ \<Rightarrow> ret ()
      | Inr c \<Rightarrow> do {
          now \<leftarrow> with_world (ce_Now E);
          let c = c\<lparr>pc_Annotations := AList.update reason_key (reason_text (ev_Reason event))
                (AList.update event_key (ce_FormatTime E now) (pc_Annotations c))\<rparr>;
          _ \<leftarrow> with_world (k_Update (ce_K E) c);
          ret ()
        })
   }"

subsection \<open>Verification of a claim\<close>

definition set_condition ::
  "('f, 'w) ctl_env \<Rightarrow> condition_type \<Rightarrow> bool \<Rightarrow> string \<Rightarrow> string \<Rightarrow> public_ip_claim \<Rightarrow> (('f, 'w) ctl, public_ip_claim) state" where
  "set_condition E ty st reason msg claim = do {
     cs \<leftarrow> with_world (k_SetStatusCondition (ce_K E) (cs_Conditions (status claim))
       \<lparr>cn_Type = ty, cn_Status = st, cn_Reason = reason, cn_Message = msg, cn_ObservedGeneration = pc_Generation claim\<rparr>);
     ret (upd_status (\<lambda>s. s\<lparr>cs_Conditions := cs\<rparr>) claim)
   }"

text \<open>A check that failed: the reason is recorded in the claim and in an event.\<close>

definition drifted ::
  "('f, 'w) ctl_env \<Rightarrow> string \<Rightarrow> string \<Rightarrow> string \<Rightarrow> string \<Rightarrow> public_ip_claim \<Rightarrow>
    (('f, 'w) ctl, public_ip_claim \<times> unit result) state" where
  "drifted E event text reason err claim = do {
     _ \<leftarrow> with_world (k_Event (ce_K E) claim ''Warning'' event text);
     ret (upd_status (\<lambda>s. s\<lparr>cs_LastReconciliationReason := reason\<rparr>) claim, Inl err)
   }"

text \<open>All checks passed.\<close>

definition verified ::
  "('f, 'w) ctl_env \<Rightarrow> string \<Rightarrow> string \<Rightarrow> public_ip_claim \<Rightarrow> (('f, 'w) ctl, public_ip_claim \<times> unit result) state" where
  "verified E reason msg claim = do {
     claim \<leftarrow> set_condition E ConditionReady True ''ConfigurationVerified'' msg
       (upd_status (\<lambda>s. s\<lparr>cs_ConfigurationVerified := True, cs_LastReconciliationReason := reason\<rparr>) claim);
     ret (claim, Inr ())
   }"

text \<open>Asking the agent: \<open>None\<close> falls back to the SSH commands.\<close>

definition verify_agent ::
  "('f, 'w) ctl_env \<Rightarrow> public_ip_claim \<Rightarrow> tunnel \<Rightarrow> (('f, 'w) ctl, (public_ip_claim \<times> unit result) option) state" where
  "verify_agent E claim c = do {
     l \<leftarrow> with_world (GetLease (ce_G E) (ce_H E c) c (cs_WanInterface (status claim)));
     (case l of
        Inr (Some leaseStatus) \<Rightarrow>
          if lst_Status leaseStatus = ''stale'' \<or> \<not> lst_InterfaceExists leaseStatus then do {
            r \<leftarrow> drifted E ''ConfigurationDrift'' ''Lease stale or interface missing'' ''lease_stale''
              ''lease stale or interface missing'' claim;
            ret (Some r)
          } else do {
            r \<leftarrow> verified E ''verified_via_agent''
              (''Lease verified via agent (renewals: '' @ fmt_d (lst_RenewalCount leaseStatus) @ '')'') claim;
            ret (Some r)
          }
      | _ \<Rightarrow> ret None)
   }"

text \<open>One of the four yes-or-no questions of the fallback.\<close>

definition ask ::
  "('f, 'w) ctl_env \<Rightarrow> (('f, 'w) ctl, bool result) state \<Rightarrow> string \<Rightarrow>
    (public_ip_claim \<Rightarrow> (('f, 'w) ctl, public_ip_claim \<times> unit result) state) \<Rightarrow>
    (public_ip_claim \<Rightarrow> (('f, 'w) ctl, public_ip_claim \<times> unit result) state) \<Rightarrow>
    public_ip_claim \<Rightarrow> (('f, 'w) ctl, public_ip_claim \<times> unit result) state" where
  "ask E question what no yes claim = do {
     r \<leftarrow> question;
     (case r of
        Inl e \<Rightarrow> ret (claim, Inl (wrapf (''failed to check '' @ what) e))
      | Inr b \<Rightarrow> if b then yes claim else no claim)
   }"

definition verify_ssh ::
  "('f, 'w) ctl_env \<Rightarrow> public_ip_claim \<Rightarrow> nat \<Rightarrow> (('f, 'w) ctl, public_ip_claim \<times> unit result) state" where
  "verify_ssh E claim i = do {
     let V = ce_V E;
     let L = env_L V;
     let ifname = cs_WanInterface (status claim);
     uptime \<leftarrow> on_manager i (GetRouterUptime (env_F V) L);
     (case uptime of
        Inl e \<Rightarrow> ret (claim, Inl (wrapf ''failed to get router uptime'' e))
      | Inr uptime \<Rightarrow>
          let currentUptime = ce_Seconds E uptime; previous = cs_RouterUptime (status claim)
          in if 0 < previous \<and> wrap64 (currentUptime + 1) < previous
             then drifted E ''RouterRebooted'' ''Router reboot detected, reapplying configuration'' ''router_reboot''
               ''router rebooted'' claim
             else ask E (on_manager i (InterfaceExists (env_quote V) L ifname)) ''interface existence''
               (drifted E ''ConfigurationDrift'' ''Interface missing, reapplying configuration'' ''interface_missing''
                  ''interface missing'')
               (ask E (on_manager i (IsInterfaceUp (env_quote V) L ifname)) ''interface status''
                  (drifted E ''ConfigurationDrift'' ''Interface is down, reapplying configuration'' ''interface_down''
                     ''interface down'')
                  (ask E (on_manager i (IsUdhcpcRunning L)) ''udhcpc status''
                     (drifted E ''DHCPClientStopped'' ''DHCP client not running, reapplying configuration'' ''dhcp_client_stopped''
                        ''dhcp client not running'')
                     (ask E (on_manager i (IsProxyARPEnabled (env_quote V) L ifname)) ''proxy ARP''
                        (drifted E ''ProxyARPDisabled'' ''Proxy ARP disabled, reapplying configuration'' ''proxy_arp_disabled''
                           ''proxy arp disabled'')
                        (verified E ''verified'' ''Interface, DHCP client, and proxy ARP verified''))))
               (upd_status (\<lambda>s. s\<lparr>cs_RouterUptime := currentUptime\<rparr>) claim))
   }"

text \<open>A client that was opened stays open until the function returns, also through the fallback.\<close>

definition verifyClaimState ::
  "('f, 'w) ctl_env \<Rightarrow> public_ip_claim \<Rightarrow> nat \<Rightarrow> (('f, 'w) ctl, public_ip_claim \<times> unit result) state" where
  "verifyClaimState E claim i =
     (if cs_WanInterface (status claim) = [] then ret (claim, Inl ''interface not yet created'')
      else do {
        signer \<leftarrow> signer_of E claim;
        (case signer of
           Inl _ \<Rightarrow> verify_ssh E claim i
         | Inr signer \<Rightarrow> do {
             agentClient \<leftarrow> connect_agent E claim signer;
             (case agentClient of
                Inl _ \<Rightarrow> verify_ssh E claim i
              | Inr c \<Rightarrow> do {
                  r \<leftarrow> verify_agent E claim c;
                  r \<leftarrow> (case r of Some r \<Rightarrow> ret r | None \<Rightarrow> verify_ssh E claim i);
                  _ \<leftarrow> close_agent E claim signer c;
                  ret r
                })
           })
      })"

subsection \<open>Cleanup of a claim\<close>

text \<open>The bookkeeping at the end: the handler is unregistered, the claim forgotten, and the manager
  closed when no claim uses it any more.\<close>

definition forget_claim :: "('f, 'w) ctl_env \<Rightarrow> public_ip_claim \<Rightarrow> (('f, 'w) ctl, unit) state" where
  "forget_claim E claim = do {
     let key = handler_key claim;
     sshMgr \<leftarrow> gets (\<lambda>s. map_of (ct_claimManagers s) key);
     hid \<leftarrow> gets (\<lambda>s. map_of (ct_sshHandlers s) key);
     _ \<leftarrow> (case hid of
         None \<Rightarrow> ret ()
       | Some hid \<Rightarrow> do {
           _ \<leftarrow> (case sshMgr of None \<Rightarrow> ret () | Some i \<Rightarrow> on_manager i (on_mgr (UnregisterHandler hid)));
           modify (\<lambda>s. s\<lparr>ct_sshHandlers := AList.delete key (ct_sshHandlers s)\<rparr>)
         });
     _ \<leftarrow> modify (\<lambda>s. s\<lparr>ct_routerAssignments := AList.delete key (ct_routerAssignments s)\<rparr>);
     _ \<leftarrow> modify (\<lambda>s. s\<lparr>ct_claimManagers := AList.delete key (ct_claimManagers s)\<rparr>);
     (case sshMgr of
        None \<Rightarrow> ret ()
      | Some i \<Rightarrow> do {
          n \<leftarrow> gets (\<lambda>s. HandlerCount (the_mgr i s));
          (if n = 0 then do {
             _ \<leftarrow> on_manager i (Close (ce_V E));
             with_reg (Remove (router_addr claim))
           } else ret ())
        })
   }"

definition defaultCleanupRouterInterface :: "('f, 'w) ctl_env \<Rightarrow> public_ip_claim \<Rightarrow> (('f, 'w) ctl, unit result) state" where
  "defaultCleanupRouterInterface E claim =
     (if cs_WanInterface (status claim) = [] then ret (Inr ())
      else do {
        signer \<leftarrow> signer_of E claim;
        (case signer of
           Inl _ \<Rightarrow> ret (Inr ())
         | Inr signer \<Rightarrow> do {
             agentClient \<leftarrow> connect_agent E claim signer;
             (case agentClient of
                Inl _ \<Rightarrow> ret (Inr ())
              | Inr c \<Rightarrow> do {
                  _ \<leftarrow> with_world (client_ReleaseLease (ce_H E c) c (cs_WanInterface (status claim)));
                  _ \<leftarrow> forget_claim E claim;
                  _ \<leftarrow> close_agent E claim signer c;
                  ret (Inr ())
                })
           })
      })"

definition cleanupRouterInterface :: "('f, 'w) ctl_env \<Rightarrow> public_ip_claim \<Rightarrow> (('f, 'w) ctl, unit result) state" where
  "cleanupRouterInterface E claim = (case cleanupRouterInterfaceFn (ce_hooks E) of
      Some f \<Rightarrow> with_world (f claim)
    | None \<Rightarrow> defaultCleanupRouterInterface E claim)"

subsection \<open>Reconcile\<close>

record ctrl_result =
  cr_Requeue :: bool
  cr_RequeueAfter :: int

text \<open>What \<^verbatim>\<open>Reconcile\<close> returns: a result and an error, or a panic that unwinds to the controller
  runtime.\<close>

datatype reconciled = Reconciled ctrl_result "string option" | ReconcilePanic

definition no_requeue :: ctrl_result where
  "no_requeue = \<lparr>cr_Requeue = False, cr_RequeueAfter = 0\<rparr>"

definition after :: "int \<Rightarrow> ctrl_result" where
  "after d = \<lparr>cr_Requeue = False, cr_RequeueAfter = d\<rparr>"

abbreviation rec_ok :: "ctrl_result \<Rightarrow> (('f, 'w) ctl, reconciled) state" where
  "rec_ok r \<equiv> ret (Reconciled r None)"

abbreviation rec_err :: "string \<Rightarrow> (('f, 'w) ctl, reconciled) state" where
  "rec_err e \<equiv> ret (Reconciled no_requeue (Some e))"

definition fail :: "('f, 'w) ctl_env \<Rightarrow> public_ip_claim \<Rightarrow> string \<Rightarrow> (('f, 'w) ctl, reconciled) state" where
  "fail E claim err = do {
     r \<leftarrow> with_world (k_StatusUpdate (ce_K E) (upd_status (\<lambda>s. s\<lparr>cs_Phase := ClaimPhaseFailed, cs_Message := err\<rparr>) claim));
     (case r of
        Inl e \<Rightarrow> rec_err (api_error_msg e)
      | Inr _ \<Rightarrow> rec_err err)
   }"

definition remove_finalizer :: "('f, 'w) ctl_env \<Rightarrow> public_ip_claim \<Rightarrow> (('f, 'w) ctl, reconciled) state" where
  "remove_finalizer E claim = do {
     r \<leftarrow> with_world (k_Update (ce_K E)
       (claim\<lparr>pc_Finalizers := k_RemoveFinalizer (ce_K E) (pc_Finalizers claim) finalizerName\<rparr>));
     (case r of Inl e \<Rightarrow> rec_err (api_error_msg e) | Inr _ \<Rightarrow> rec_ok no_requeue)
   }"

definition reconcile_deletion :: "('f, 'w) ctl_env \<Rightarrow> public_ip_claim \<Rightarrow> (('f, 'w) ctl, reconciled) state" where
  "reconcile_deletion E claim =
     (if \<not> k_ContainsFinalizer (ce_K E) (pc_Finalizers claim) finalizerName then rec_ok no_requeue
      else do {
        r \<leftarrow> cleanupRouterInterface E claim;
        (case r of
           Inl e \<Rightarrow> rec_err e
         | Inr _ \<Rightarrow>
             if cs_AssignedIP (status claim) = [] then remove_finalizer E claim
             else do {
               r \<leftarrow> removeIPFromPool E (sp_PoolName (pc_Spec claim)) (cs_AssignedIP (status claim));
               (case r of
                  Panicked \<Rightarrow> ret ReconcilePanic
                | Returned (Inl e) \<Rightarrow> rec_err e
                | Returned (Inr _) \<Rightarrow> remove_finalizer E claim)
             })
      })"

definition add_finalizer :: "('f, 'w) ctl_env \<Rightarrow> public_ip_claim \<Rightarrow> (('f, 'w) ctl, reconciled) state" where
  "add_finalizer E claim = do {
     r \<leftarrow> with_world (k_Update (ce_K E)
       (claim\<lparr>pc_Finalizers := k_AddFinalizer (ce_K E) (pc_Finalizers claim) finalizerName\<rparr>));
     (case r of Inl e \<Rightarrow> rec_err (api_error_msg e) | Inr _ \<Rightarrow> rec_ok (after 1))
   }"

text \<open>A router event: the interface is looked up, and if it is not found the claim starts over.\<close>

definition clear_annotations :: "('f, 'w) ctl_env \<Rightarrow> public_ip_claim \<Rightarrow> (('f, 'w) ctl, reconciled) state" where
  "clear_annotations E claim = do {
     _ \<leftarrow> with_world (k_Update (ce_K E)
       (claim\<lparr>pc_Annotations := AList.delete reason_key (AList.delete event_key (pc_Annotations claim))\<rparr>));
     rec_ok (after second)
   }"

definition start_over :: "string \<Rightarrow> claim_status \<Rightarrow> claim_status" where
  "start_over msg s = s\<lparr>cs_Phase := ClaimPhasePending, cs_Message := msg, cs_WanInterface := [],
     cs_AssignedIP := [], cs_RouterUptime := 0\<rparr>"

definition reconcile_event :: "('f, 'w) ctl_env \<Rightarrow> public_ip_claim \<Rightarrow> (('f, 'w) ctl, reconciled) state" where
  "reconcile_event E claim = do {
     let eventReason = (case map_of (pc_Annotations claim) reason_key of None \<Rightarrow> [] | Some r \<Rightarrow> r);
     (claim, mgr) \<leftarrow> getSSHManager E claim;
     (case mgr of
        Inl _ \<Rightarrow> clear_annotations E claim
      | Inr i \<Rightarrow>
          if cs_WanInterface (status claim) = [] then clear_annotations E claim
          else do {
            exists \<leftarrow> on_manager i (InterfaceExists (env_quote (ce_V E)) (env_L (ce_V E)) (cs_WanInterface (status claim)));
            (if exists = Inr True then clear_annotations E claim
             else do {
               r \<leftarrow> with_world (k_StatusUpdate (ce_K E) (upd_status (start_over (''Re-provisioning after '' @ eventReason)) claim));
               (case r of
                  Inl e \<Rightarrow> rec_err (api_error_msg e)
                | Inr claim \<Rightarrow> clear_annotations E claim)
             })
          })
   }"

text \<open>The periodic check of a claim that is ready; \<open>err\<close> is what the check found.\<close>

definition reprovision :: "('f, 'w) ctl_env \<Rightarrow> public_ip_claim \<Rightarrow> string \<Rightarrow> (('f, 'w) ctl, reconciled) state" where
  "reprovision E claim err = do {
     let oldIP = cs_AssignedIP (status claim);
     let drift = ''Configuration drift detected: '' @ err;
     claim \<leftarrow> set_condition E ConditionReady False ''ConfigurationDrift'' drift
       (upd_status (\<lambda>s. (start_over (''Re-provisioning after verification failed: '' @ err) s)\<lparr>cs_ConfigurationVerified := False\<rparr>) claim);
     claim \<leftarrow> set_condition E ConditionRecovering True ''ConfigurationDrift'' drift claim;
     r \<leftarrow> with_world (k_StatusUpdate (ce_K E) claim);
     (case r of
        Inl e \<Rightarrow> rec_err (api_error_msg e)
      | Inr claim \<Rightarrow> do {
          r \<leftarrow> (if oldIP = [] then ret (Returned (Inr ())) else removeIPFromPool E (sp_PoolName (pc_Spec claim)) oldIP);
          (case r of
             Panicked \<Rightarrow> ret ReconcilePanic
           | Returned _ \<Rightarrow> rec_ok \<lparr>cr_Requeue = True, cr_RequeueAfter = 0\<rparr>)
        })
   }"

definition reconcile_ready :: "('f, 'w) ctl_env \<Rightarrow> public_ip_claim \<Rightarrow> (('f, 'w) ctl, reconciled) state" where
  "reconcile_ready E claim = do {
     (claim, mgr) \<leftarrow> getSSHManager E claim;
     (case mgr of
        Inl e \<Rightarrow> do {
          _ \<leftarrow> with_world (k_Event (ce_K E) claim ''Warning'' ''SSHError'' e);
          rec_ok (after (60 * minute))
        }
      | Inr i \<Rightarrow> do {
          (claim, r) \<leftarrow> verifyClaimState E claim i;
          (case r of
             Inl err \<Rightarrow> reprovision E claim err
           | Inr _ \<Rightarrow> rec_ok (after (60 * minute)))
        })
   }"

text \<open>The required fields, in the order they are checked.\<close>

definition missing_field :: "claim_spec \<Rightarrow> string option" where
  "missing_field sp =
     (if sp_PoolName sp = [] then Some ''spec.poolName is required''
      else if rt_Host (sp_Router sp) = [] then Some ''spec.router.host is required''
      else if rt_SSHSecretRef (sp_Router sp) = [] then Some ''spec.router.sshSecretRef is required''
      else if rt_User (sp_Router sp) = [] then Some ''spec.router.user is required''
      else if rt_WanParent (sp_Router sp) = [] then Some ''spec.router.wanParent is required''
      else if rt_Command (sp_Router sp) = [] then Some ''spec.router.command is required''
      else None)"

definition choose_interface :: "('f, 'w) ctl_env \<Rightarrow> public_ip_claim \<Rightarrow> string" where
  "choose_interface E claim = (if rt_WanInterface (router claim) = []
     then ''wan-'' @ sanitizeName (ce_ulower E) (pc_Name claim) else rt_WanInterface (router claim))"

definition choose_mac :: "('f, 'w) ctl_env \<Rightarrow> public_ip_claim \<Rightarrow> (('f, 'w) ctl, string) state" where
  "choose_mac E claim = (if rt_MacAddress (router claim) = []
     then do { buf \<leftarrow> with_world (ce_Rand E); ret (generateUniqueMAC buf) }
     else ret (rt_MacAddress (router claim)))"

definition assigned :: "string \<Rightarrow> int \<Rightarrow> claim_status \<Rightarrow> claim_status" where
  "assigned ip now s = s\<lparr>cs_AssignedIP := ip, cs_Phase := ClaimPhaseReady, cs_Message := ''Assigned'',
     cs_LastReconciliationReason := ''configuration_applied'', cs_LastVerified := Some now, cs_ConfigurationVerified := True\<rparr>"

text \<open>The last part of the allocation: the address is in the pool, the status is written in one update.\<close>

definition finish_allocation :: "('f, 'w) ctl_env \<Rightarrow> public_ip_claim \<Rightarrow> string \<Rightarrow> (('f, 'w) ctl, reconciled) state" where
  "finish_allocation E claim ip = do {
     now \<leftarrow> with_world (ce_Now E);
     claim \<leftarrow> set_condition E ConditionReady True ''ConfigurationApplied'' ''Configuration applied successfully''
       (upd_status (assigned ip now) claim);
     r \<leftarrow> with_world (k_StatusUpdate (ce_K E) claim);
     (case r of
        Inl e \<Rightarrow> rec_err (api_error_msg e)
      | Inr claim \<Rightarrow> do {
          _ \<leftarrow> with_world (k_Event (ce_K E) claim ''Normal'' ''ConfigurationApplied''
             (''Configuration applied successfully for IP '' @ ip));
          rec_ok (after (60 * minute))
        })
   }"

definition reconcile_allocate :: "('f, 'w) ctl_env \<Rightarrow> public_ip_claim \<Rightarrow> (('f, 'w) ctl, reconciled) state" where
  "reconcile_allocate E claim = do {
     let wanIf = choose_interface E claim;
     macAddr \<leftarrow> choose_mac E claim;
     r \<leftarrow> with_world (k_StatusUpdate (ce_K E)
       (upd_status (\<lambda>s. s\<lparr>cs_WanInterface := wanIf, cs_MacAddress := macAddr\<rparr>) claim));
     (case r of
        Inl e \<Rightarrow> rec_err (api_error_msg e)
      | Inr claim \<Rightarrow> do {
          ip \<leftarrow> runRouterScript E claim wanIf macAddr;
          (case ip of
             Inl e \<Rightarrow> fail E claim (wrapf ''router script'' e)
           | Inr ip \<Rightarrow>
               if ParseIP ip = None then fail E claim (''invalid IP returned by router: '' @ env_quote (ce_V E) ip)
               else do {
                 r \<leftarrow> ensureIPInPool E (sp_PoolName (pc_Spec claim)) ip;
                 (case r of
                    Panicked \<Rightarrow> ret ReconcilePanic
                  | Returned (Inl e) \<Rightarrow> fail E claim (wrapf ''ensure pool'' e)
                  | Returned (Inr _) \<Rightarrow> finish_allocation E claim ip)
               })
        })
   }"

definition reconcile_claim :: "('f, 'w) ctl_env \<Rightarrow> public_ip_claim \<Rightarrow> (('f, 'w) ctl, reconciled) state" where
  "reconcile_claim E claim =
     (if pc_DeletionTimestamp claim \<noteq> None then reconcile_deletion E claim
      else if \<not> k_ContainsFinalizer (ce_K E) (pc_Finalizers claim) finalizerName then add_finalizer E claim
      else if map_of (pc_Annotations claim) event_key \<noteq> None then reconcile_event E claim
      else if cs_Phase (status claim) = ClaimPhaseReady \<and> cs_AssignedIP (status claim) \<noteq> [] then reconcile_ready E claim
      else if cs_WanInterface (status claim) \<noteq> [] \<and> cs_Phase (status claim) \<noteq> ClaimPhaseFailed then rec_ok no_requeue
      else if cs_Phase (status claim) = ClaimPhaseFailed then rec_ok (after (5 * minute))
      else (case missing_field (pc_Spec claim) of
          Some e \<Rightarrow> fail E claim e
        | None \<Rightarrow> reconcile_allocate E claim))"

definition Reconcile :: "('f, 'w) ctl_env \<Rightarrow> string \<Rightarrow> string \<Rightarrow> (('f, 'w) ctl, reconciled) state" where
  "Reconcile E namespace name = do {
     r \<leftarrow> with_world (k_Get (ce_K E) namespace name);
     (case r of
        Inl (NotFound _) \<Rightarrow> rec_ok no_requeue
      | Inl (OtherError e) \<Rightarrow> rec_err e
      | Inr claim \<Rightarrow> reconcile_claim E claim)
   }"

text \<open>\<^verbatim>\<open>SetupWithManager\<close> as far as it concerns the reconciler's own state: maps that are nil are created.
  A nil map and an empty one are the same list, so nothing changes; the registration with the
  controller runtime is outside the model.\<close>

end
