(* ===== verification/ControllerLaws.thy ===== *)
theory ControllerLaws
  imports Controller
begin

text \<open>
  Frame rules of the reconciler: which parts of the world an operation leaves alone. A part is an
  observer \<open>f\<close> of the world; \<open>frame f m\<close> says that the program \<open>m\<close> of the reconciler does not change what
  \<open>f\<close> sees. The predicates \<open>quiet_ssh\<close>, \<open>quiet_agent\<close>, \<open>quiet_api\<close>, \<open>quiet_pool\<close> and \<open>quiet_misc\<close> say
  it of the parameters, group by group: SSH sessions do not write Kubernetes objects, the API server
  does not write pools when it is sent a claim, and so on.
\<close>

named_theorems frames \<open>frame rules of the reconciler's operations\<close>

abbreviation seen :: "('w \<Rightarrow> 'o) \<Rightarrow> ('f, 'w) ctl \<Rightarrow> 'o" where
  "seen f s \<equiv> f (rg_world (ct_reg s))"

abbreviation frame :: "('w \<Rightarrow> 'o) \<Rightarrow> (('f, 'w) ctl, 'a) state \<Rightarrow> bool" where
  "frame f m \<equiv> keeps (seen f) m"

subsection \<open>Quiet parameters\<close>

definition quiet_ssh :: "('w \<Rightarrow> 'o) \<Rightarrow> ('f, 'w) ctl_env \<Rightarrow> bool" where
  "quiet_ssh f E \<longleftrightarrow> (let L = env_L (ce_V E) in
     (\<forall>c. keeps f (sl_Dial L c)) \<and> (\<forall>c h cmd. keeps f (sl_Run L c h cmd)) \<and> (\<forall>h. keeps f (sl_Close L h))) \<and>
     keeps (\<lambda>s. f (ms_world s)) (env_wait (ce_V E))"

definition quiet_tunnel :: "('w \<Rightarrow> 'o) \<Rightarrow> ('f, 'w) ctl_env \<Rightarrow> bool" where
  "quiet_tunnel f E \<longleftrightarrow> (\<forall>u k. let T = ce_T E u k in
     (\<forall>a. keeps f (ssh_Dial T a)) \<and> (\<forall>h a. keeps f (ssh_Forward T h a)) \<and> (\<forall>a. keeps f (net_Listen T a)) \<and>
     (\<forall>h. keeps f (net_Accept T h)) \<and> (\<forall>h. keeps f (sock_Close T h)))"

definition quiet_http :: "('w \<Rightarrow> 'o) \<Rightarrow> ('f, 'w) ctl_env \<Rightarrow> bool" where
  "quiet_http f E \<longleftrightarrow> (\<forall>c req. keeps f (http_Do (ce_H E c) req))"

definition quiet_api :: "('w \<Rightarrow> 'o) \<Rightarrow> ('f, 'w) ctl_env \<Rightarrow> bool" where
  "quiet_api f E \<longleftrightarrow> (let K = ce_K E in
     (\<forall>ns n. keeps f (k_Get K ns n)) \<and> (\<forall>c. keeps f (k_Update K c)) \<and> (\<forall>c. keeps f (k_StatusUpdate K c)))"

definition quiet_misc :: "('w \<Rightarrow> 'o) \<Rightarrow> ('f, 'w) ctl_env \<Rightarrow> bool" where
  "quiet_misc f E \<longleftrightarrow> (let K = ce_K E in
     (\<forall>ns n. keeps f (k_GetSecret K ns n)) \<and> (\<forall>c a b m. keeps f (k_Event K c a b m)) \<and>
     (\<forall>cs c. keeps f (k_SetStatusCondition K cs c))) \<and>
     keeps f (ce_Rand E) \<and> keeps f (ce_Now E)"

definition quiet_pool :: "('w \<Rightarrow> 'o) \<Rightarrow> ('f, 'w) ctl_env \<Rightarrow> bool" where
  "quiet_pool f E \<longleftrightarrow> (let D = ce_D E in
     (\<forall>g n. keeps f (dyn_Get D g n)) \<and> (\<forall>g o1. keeps f (dyn_Update D g o1)))"

subsection \<open>Combinators\<close>

lemma frame_with_world [frames]: "keeps f m \<Longrightarrow> frame f (with_world m)"
  unfolding with_world_def with_reg_def by (simp add: keeps_def wp_simps)

lemma frame_with_reg: "keeps (\<lambda>s. f (rg_world s)) m \<Longrightarrow> frame f (with_reg m)"
  unfolding with_reg_def by (simp add: keeps_def wp_simps)

lemma frame_on_manager [frames]: "keeps (\<lambda>s. f (ms_world s)) m \<Longrightarrow> frame f (on_manager i m)"
  unfolding on_manager_def with_mgr_def by (rule frame_with_reg, erule keeps_zoom) simp_all

lemma keeps_on_mgr [frames]: "keeps (\<lambda>s. f (ms_world s)) (on_mgr g)"
  by (simp add: keeps_modify)

lemma keeps_in_world: "keeps f m \<Longrightarrow> keeps (\<lambda>s. f (ms_world s)) (in_world m)"
  by (simp add: in_world_def keeps_def wp_simps)

lemma frame_modify [frames]: "(\<And>s. seen f (g s) = seen f s) \<Longrightarrow> frame f (modify g)"
  by (rule keeps_modify)

lemma frame_registry [frames]: "frame f (with_reg (GetOrCreate V c))" "frame f (with_reg (Remove a))"
  unfolding GetOrCreate_def Remove_def
  by (intro frame_with_reg keeps_intros keeps_modify; simp)+

subsection \<open>SSH managers\<close>

lemma quiet_sshD:
  assumes "quiet_ssh f E"
  shows "keeps f (sl_Dial (env_L (ce_V E)) c)" "keeps f (sl_Run (env_L (ce_V E)) c h cmd)"
    "keeps f (sl_Close (env_L (ce_V E)) h)" "keeps (\<lambda>s. f (ms_world s)) (env_wait (ce_V E))"
  using assms by (simp_all add: quiet_ssh_def Let_def)

lemma keeps_ssh:
  assumes "quiet_ssh f E"
  shows "keeps (\<lambda>s. f (ms_world s)) (RunCommand (env_L (ce_V E)) cmd)"
    and "keeps (\<lambda>s. f (ms_world s)) (establishConnection (env_L (ce_V E)))"
    and "keeps (\<lambda>s. f (ms_world s)) (transitionToReconnecting (env_L (ce_V E)) err)"
  unfolding RunCommand_def establishConnection_def transitionToReconnecting_def
  by (intro keeps_intros keeps_on_mgr keeps_in_world quiet_sshD [OF assms])+

lemma keeps_Start: "quiet_ssh f E \<Longrightarrow> keeps (\<lambda>s. f (ms_world s)) (SshManager.Start (env_L (ce_V E)) p)"
  unfolding SshManager.Start_def
  by (intro keeps_intros keeps_on_mgr keeps_ssh)

lemma keeps_Close: "quiet_ssh f E \<Longrightarrow> keeps (\<lambda>s. f (ms_world s)) (Close (ce_V E))"
  unfolding Close_def close_begin_def close_end_def
  by (intro keeps_intros keeps_on_mgr keeps_in_world quiet_sshD)

lemma keeps_queries:
  assumes "quiet_ssh f E"
  defines "L \<equiv> env_L (ce_V E)"
  shows "keeps (\<lambda>s. f (ms_world s)) (InterfaceExists q L i)" "keeps (\<lambda>s. f (ms_world s)) (IsInterfaceUp q L i)"
    "keeps (\<lambda>s. f (ms_world s)) (IsProxyARPEnabled q L i)" "keeps (\<lambda>s. f (ms_world s)) (IsUdhcpcRunning L)"
    "keeps (\<lambda>s. f (ms_world s)) (GetRouterUptime F L)"
  unfolding InterfaceExists_def IsInterfaceUp_def IsProxyARPEnabled_def IsUdhcpcRunning_def GetRouterUptime_def checked_def L_def
  by (intro keeps_intros keeps_ssh assms)+

lemma frame_register [frames]: "frame f (register_claim c i)"
  unfolding register_claim_def by (intro keeps_intros frames | simp)+

lemma frame_managers:
  assumes "quiet_ssh f E"
  shows "frame f (start_manager E i)" "frame f (move_claim E k a)" "frame f (forget_claim E c)"
  unfolding start_manager_def move_claim_def forget_claim_def
  by (intro keeps_intros frames keeps_Start keeps_Close assms | simp)+

subsection \<open>The agent\<close>

lemma quiet_tunnelD:
  assumes "quiet_tunnel f E"
  shows "keeps f (ssh_Dial (ce_T E u k) a)" "keeps f (ssh_Forward (ce_T E u k) h a)" "keeps f (net_Listen (ce_T E u k) a)"
    "keeps f (net_Accept (ce_T E u k) h)" "keeps f (sock_Close (ce_T E u k) h)"
  using assms by (simp_all add: quiet_tunnel_def Let_def)

lemma keeps_accepted_case:
  "keeps f m \<Longrightarrow> keeps f n \<Longrightarrow> (\<And>h. keeps f (g h)) \<Longrightarrow>
     keeps f (case a of AcceptTimeout \<Rightarrow> m | AcceptError \<Rightarrow> n | Accepted h \<Rightarrow> g h)"
  by (simp split: accepted.split)

lemma frame_tunnel:
  assumes "quiet_tunnel f E"
  shows "frame f (connect_agent E c k)" "frame f (close_agent E c k t)"
  unfolding connect_agent_def NewAgentClient_def close_agent_def client_Close_def tunnel_finish_def tunnel_turn_def
  by (intro keeps_intros keeps_accepted_case frame_with_world quiet_tunnelD [OF assms])+

lemma quiet_miscD:
  assumes "quiet_misc f E"
  shows "keeps f (k_GetSecret (ce_K E) ns n)" "keeps f (k_Event (ce_K E) c a b m)" "keeps f (k_SetStatusCondition (ce_K E) cs cd)"
    "keeps f (ce_Rand E)" "keeps f (ce_Now E)"
  using assms by (simp_all add: quiet_misc_def Let_def)

lemma frame_misc:
  assumes "quiet_misc f E"
  shows "frame f (signer_of E c)" "frame f (set_condition E ty st r m c)" "frame f (drifted E ev t r e c)"
    "frame f (verified E r m c)" "frame f (choose_mac E c)"
  unfolding signer_of_def set_condition_def drifted_def verified_def choose_mac_def
  by (intro keeps_intros frame_with_world quiet_miscD [OF assms])+

lemma keeps_http:
  assumes "quiet_http f E"
  shows "keeps f (AllocateLease G (ce_H E t) t i p m)" "keeps f (GetLease G (ce_H E t) t i)"
    "keeps f (client_ReleaseLease (ce_H E t) t i)"
  using assms unfolding AllocateLease_def GetLease_def client_ReleaseLease_def call_def quiet_http_def Let_def
  by (intro keeps_intros | blast)+

text \<open>Everything but the API server's claims, the pools and the agent.\<close>

definition quiet_net :: "('w \<Rightarrow> 'o) \<Rightarrow> ('f, 'w) ctl_env \<Rightarrow> bool" where
  "quiet_net f E \<longleftrightarrow> quiet_ssh f E \<and> quiet_tunnel f E \<and> quiet_misc f E"

lemma quiet_netD: "quiet_net f E \<Longrightarrow> quiet_ssh f E" "quiet_net f E \<Longrightarrow> quiet_tunnel f E" "quiet_net f E \<Longrightarrow> quiet_misc f E"
  by (simp_all add: quiet_net_def)

lemma frame_getSSHManager:
  assumes "quiet_net f E"
  shows "frame f (getSSHManager E c)"
  unfolding getSSHManager_def
  by (intro keeps_intros frames frame_managers frame_misc quiet_netD [OF assms]; simp)

lemma frame_cleanup:
  assumes "quiet_net f E" "quiet_http f E"
  shows "frame f (defaultCleanupRouterInterface E c)"
  unfolding defaultCleanupRouterInterface_def
  by (intro keeps_intros frames frame_managers frame_misc frame_tunnel keeps_http [OF assms(2)] quiet_netD [OF assms(1)])

lemma frame_script:
  assumes "quiet_net f E" "quiet_http f E"
  shows "frame f (defaultRunRouterScript E c i m)"
  unfolding defaultRunRouterScript_def
  by (intro keeps_intros frames frame_misc frame_tunnel keeps_http [OF assms(2)] quiet_netD [OF assms(1)])

lemma frame_ask: "frame f q \<Longrightarrow> (\<And>c. frame f (no c)) \<Longrightarrow> (\<And>c. frame f (yes c)) \<Longrightarrow> frame f (ask E q what no yes c)"
  unfolding ask_def by (intro keeps_intros)

lemma frame_verify_ssh:
  assumes "quiet_net f E"
  shows "frame f (verify_ssh E c i)"
  unfolding verify_ssh_def Let_def
  by (intro keeps_intros frames frame_ask frame_misc keeps_queries quiet_netD [OF assms])

lemma frame_verify:
  assumes "quiet_net f E" "quiet_http f E"
  shows "frame f (verifyClaimState E c i)"
  unfolding verifyClaimState_def verify_agent_def
  by (intro keeps_intros frames frame_misc frame_tunnel frame_verify_ssh keeps_http [OF assms(2)] quiet_netD [OF assms(1)] assms)

subsection \<open>The pool\<close>

lemma keeps_api_case:
  "(\<And>m. keeps f (g m)) \<Longrightarrow> (\<And>m. keeps f (h m)) \<Longrightarrow> keeps f (case e of NotFound m \<Rightarrow> g m | OtherError m \<Rightarrow> h m)"
  by (simp split: api_error.split)

lemma quiet_poolD:
  assumes "quiet_pool f E"
  shows "keeps f (dyn_Get (ce_D E) g n)" "keeps f (dyn_Update (ce_D E) g o1)"
  using assms by (simp_all add: quiet_pool_def Let_def)

lemma keeps_pool:
  assumes "quiet_pool f E"
  shows "keeps f (defaultEnsureIPInPool (ce_D E) n ip)" "keeps f (defaultRemoveIPFromPool (ce_D E) n ip)"
  unfolding defaultEnsureIPInPool_def ensure_block_def defaultRemoveIPFromPool_def remove_block_def write_blocks_def
  by (intro keeps_intros keeps_api_case quiet_poolD [OF assms])+

end
