(* ===== verification/SimCluster.thy ===== *)
theory SimCluster
  imports ControllerLaws
begin

text \<open>
  A small cluster on which the reconciler's contracts hold and its operations run: an API server and a
  pool client over association lists, the agent of \<open>sim_E\<close> behind a transport without loss, numbered
  sockets, and a router that answers SSH sessions as long as \<open>si_up\<close> says so. Each part of the state
  is reached by \<open>zoom\<close>, so what one part does is invisible to the observers of the others.
\<close>

record sim_site =
  si_claims :: "((string \<times> string) \<times> public_ip_claim) list"
  si_pools :: sim_pools
  si_agent :: "sim_world agent"
  si_socks :: "nat list"
  si_up :: bool

definition at_claims :: "(((string \<times> string) \<times> public_ip_claim) list, 'a) state \<Rightarrow> (sim_site, 'a) state" where
  "at_claims = zoom si_claims (\<lambda>t s. s\<lparr>si_claims := t\<rparr>)"

definition at_pools :: "(sim_pools, 'a) state \<Rightarrow> (sim_site, 'a) state" where
  "at_pools = zoom si_pools (\<lambda>t s. s\<lparr>si_pools := t\<rparr>)"

definition at_agent :: "(sim_world agent, 'a) state \<Rightarrow> (sim_site, 'a) state" where
  "at_agent = zoom si_agent (\<lambda>t s. s\<lparr>si_agent := t\<rparr>)"

definition at_socks :: "(nat list, 'a) state \<Rightarrow> (sim_site, 'a) state" where
  "at_socks = zoom si_socks (\<lambda>t s. s\<lparr>si_socks := t\<rparr>)"

subsection \<open>The API server\<close>

definition sim_claim_map :: "((string \<times> string) \<times> public_ip_claim) list \<Rightarrow> claims" where
  "sim_claim_map C k = Option.bind (map_of C k) (\<lambda>c. if claim_key c = k then Some c else None)"

definition sim_store_claim ::
  "(public_ip_claim \<Rightarrow> public_ip_claim) \<Rightarrow> (string \<times> string) \<Rightarrow>
    (((string \<times> string) \<times> public_ip_claim) list, api_error + public_ip_claim) state" where
  "sim_store_claim f k = State (\<lambda>C. case sim_claim_map C k of
      None \<Rightarrow> (Inl (NotFound ''not found''), C)
    | Some old \<Rightarrow> let d = f old in (Inr d,
        if pc_DeletionTimestamp d \<noteq> None \<and> pc_Finalizers d = [] then AList.delete k C else AList.update k d C))"

definition sim_store_status ::
  "public_ip_claim \<Rightarrow> (((string \<times> string) \<times> public_ip_claim) list, api_error + public_ip_claim) state" where
  "sim_store_status c = State (\<lambda>C. case sim_claim_map C (claim_key c) of
      None \<Rightarrow> (Inl (NotFound ''not found''), C)
    | Some old \<Rightarrow> let d = old\<lparr>pc_Status := pc_Status c\<rparr> in (Inr d, AList.update (claim_key c) d C))"

definition sim_k8s :: "sim_site k8s" where
  "sim_k8s = \<lparr>k_Get = (\<lambda>ns n. at_claims (gets (\<lambda>C. case sim_claim_map C (ns, n) of
        None \<Rightarrow> Inl (NotFound ''not found'') | Some c \<Rightarrow> Inr c))),
     k_GetSecret = (\<lambda>_ _. ret (Inr [(''id_rsa'', ''key'')])),
     k_Update = (\<lambda>c. at_claims (sim_store_claim (\<lambda>old. c\<lparr>pc_Status := pc_Status old\<rparr>) (claim_key c))),
     k_StatusUpdate = (\<lambda>c. at_claims (sim_store_status c)),
     k_Event = (\<lambda>_ _ _ _. ret ()),
     k_SetStatusCondition = (\<lambda>cs c. ret (c # filter (\<lambda>d. cn_Type d \<noteq> cn_Type c) cs)),
     k_ContainsFinalizer = (\<lambda>fs f. f \<in> set fs),
     k_AddFinalizer = (\<lambda>fs f. fs @ [f]),
     k_RemoveFinalizer = (\<lambda>fs f. removeAll f fs)\<rparr>"

definition sim_dyn :: "sim_site pool_client" where
  "sim_dyn = \<lparr>dyn_Get = (\<lambda>g n. at_pools (sim_pool_get g n)), dyn_Update = (\<lambda>g o1. at_pools (sim_pool_update g o1)),
     un_NestedSlice = sim_NestedSlice, un_SetNestedSlice = sim_SetNestedSlice\<rparr>"

subsection \<open>The router\<close>

definition sim_site_T :: "sim_site tunnel_lib" where
  "sim_site_T = \<lparr>ssh_Dial = (\<lambda>a. at_socks (ssh_Dial (sim_T True) a)),
     ssh_Forward = (\<lambda>h a. at_socks (ssh_Forward (sim_T True) h a)),
     net_Listen = (\<lambda>a. at_socks (net_Listen (sim_T True) a)),
     net_Accept = (\<lambda>h. at_socks (net_Accept (sim_T True) h)),
     sock_Close = (\<lambda>h. at_socks (sock_Close (sim_T True) h))\<rparr>"

definition sim_site_H :: "sim_site http_lib" where
  "sim_site_H = \<lparr>url_error = (\<lambda>_. None),
     http_Do = (\<lambda>req. at_agent (do { r \<leftarrow> serve sim_E sim_other req; ret (Inr r) }))\<rparr>"

definition sim_site_L :: "sim_site ssh_lib" where
  "sim_site_L = \<lparr>sl_Dial = (\<lambda>_. gets (\<lambda>w. if si_up w then Inr 1 else Inl ''connection refused'')),
     sl_Run = (\<lambda>_ _ _. gets (\<lambda>w. if si_up w then Inr ''42 17'' else Inl ''EOF'')), sl_Close = (\<lambda>_. ret ())\<rparr>"

definition sim_CE :: "(int, sim_site) ctl_env" where
  "sim_CE = \<lparr>ce_K = sim_k8s, ce_D = sim_dyn, ce_T = (\<lambda>_ _. sim_site_T), ce_H = (\<lambda>_. sim_site_H), ce_mid = None,
     ce_G = sim_G,
     ce_V = \<lparr>env_quote = id, env_F = sim_F, env_L = sim_site_L, env_R = sim_reflect,
       env_wait = on_mgr (\<lambda>m. m\<lparr>sm_gos := []\<rparr>)\<rparr>,
     ce_ParsePrivateKey = (\<lambda>_. Inr 1), ce_PublicKeys = id, ce_InsecureIgnoreHostKey = 2,
     ce_Rand = ret [0, 0, 0, 0, 1], ce_Now = ret 1000, ce_FormatTime = fmt_d, ce_ulower = id,
     ce_Seconds = (\<lambda>d. d div second),
     ce_hooks = \<lparr>runRouterScriptFn = None, ensureIPInPoolFn = None, removeIPFromPoolFn = None, cleanupRouterInterfaceFn = None\<rparr>\<rparr>"

abbreviation sim_claims :: "sim_site \<Rightarrow> claims" where
  "sim_claims w \<equiv> sim_claim_map (si_claims w)"

abbreviation sim_pools :: "sim_site \<Rightarrow> pools" where
  "sim_pools w \<equiv> sim_pool_map (si_pools w)"

subsection \<open>The contracts hold\<close>

lemmas at_defs = at_claims_def at_pools_def at_agent_def at_socks_def

lemma keeps_at:
  "keeps (\<lambda>w. f (si_claims w)) (at_pools p)" "keeps (\<lambda>w. f (si_claims w)) (at_agent a)" "keeps (\<lambda>w. f (si_claims w)) (at_socks t)"
  "keeps (\<lambda>w. g (si_pools w)) (at_claims c)" "keeps (\<lambda>w. g (si_pools w)) (at_agent a)" "keeps (\<lambda>w. g (si_pools w)) (at_socks t)"
  "keeps si_agent (at_claims c)" "keeps si_agent (at_pools p)" "keeps si_agent (at_socks t)"
  by (simp_all add: keeps_def wp_simps at_defs)

lemma sim_quiet_net:
  "quiet_net sim_claims sim_CE" "quiet_net sim_pools sim_CE" "quiet_net si_agent sim_CE"
  unfolding quiet_net_def quiet_ssh_def quiet_tunnel_def quiet_misc_def Let_def sim_CE_def sim_k8s_def sim_site_T_def sim_site_L_def
  by (simp_all add: keeps_at keeps_modify keeps_ret keeps_gets)

lemma sim_quiet_others:
  "quiet_http sim_claims sim_CE" "quiet_http sim_pools sim_CE" "quiet_pool sim_claims sim_CE" "quiet_pool si_agent sim_CE"
  "quiet_api sim_pools sim_CE" "quiet_api si_agent sim_CE"
  by (simp_all add: quiet_http_def quiet_pool_def quiet_api_def Let_def sim_CE_def sim_k8s_def sim_dyn_def sim_site_H_def keeps_at)

lemma sim_finalizers: "finalizers_spec sim_k8s"
  by (simp add: finalizers_spec_def sim_k8s_def)

lemma sim_claim_map_upd:
  "claim_key d = k \<Longrightarrow> sim_claim_map (AList.update k d C) = (sim_claim_map C)(k \<mapsto> d)"
  "sim_claim_map (AList.delete k C) = (sim_claim_map C)(k := None)"
  by (auto simp: sim_claim_map_def)

lemma sim_claim_mapD: "sim_claim_map C k = Some c \<Longrightarrow> claim_key c = k"
  by (auto simp: sim_claim_map_def split: bind_splits if_splits)

lemma sim_api_store: "api_store sim_k8s sim_claims"
proof -
  have [simp]: "claim_key (c\<lparr>pc_Status := st\<rparr>) = claim_key c" for c st by (simp add: claim_key_def)
  show ?thesis
    unfolding api_store_def
    by (auto simp: sim_k8s_def at_claims_def wp_simps keeps_ret sim_store_claim_def sim_store_status_def wp_def
        sim_claim_map_upd Let_def same_object_def split: option.split dest: sim_claim_mapD)
qed

lemma sim_blocks [simp]: "blocks sim_dyn = blocks sim_P"
  by (rule ext) (simp add: blocks_def sim_dyn_def sim_P_def)

lemma wp_at_pools: "wp m Q (si_pools s) \<Longrightarrow> (\<And>r w'. Q r (si_pools w') \<Longrightarrow> R r w') \<Longrightarrow> wp (at_pools m) R s"
  unfolding at_pools_def wp_zoom by (erule wp_mono) simp

lemma sim_dyn_fields: "dyn_Get sim_dyn g n = at_pools (dyn_Get sim_P g n)" "dyn_Update sim_dyn g o1 = at_pools (dyn_Update sim_P g o1)"
  "un_NestedSlice sim_dyn = un_NestedSlice sim_P" "un_SetNestedSlice sim_dyn = un_SetNestedSlice sim_P"
  by (simp_all add: sim_dyn_def sim_P_def)

lemma sim_pool_client: "pool_store sim_dyn sim_pool_name sim_pool_version sim_pools"
proof -
  note S = sim_pool_store [unfolded pool_store_def]
  show ?thesis
    unfolding pool_store_def sim_dyn_fields sim_blocks
    by (intro conjI allI wp_at_pools [OF S [THEN conjunct1, rule_format]]
        wp_at_pools [OF S [THEN conjunct2, THEN conjunct1, rule_format]]) (use S in blast)+
qed

subsection \<open>Claims and states\<close>

definition sim_spec :: claim_spec where
  "sim_spec = \<lparr>sp_PoolName = ''wan'', sp_Router = \<lparr>rt_Host = ''10.0.0.1'', rt_Port = 0, rt_User = ''root'',
     rt_SSHSecretRef = ''router-key'', rt_Command = ''/data/wan.sh'', rt_WanParent = ''eth8'', rt_WanInterface = [],
     rt_MacAddress = ''02:00:00:00:00:01''\<rparr>\<rparr>"

definition sim_status :: claim_status where
  "sim_status = \<lparr>cs_Phase = NoPhase, cs_Message = [], cs_AssignedIP = [], cs_WanInterface = [], cs_MacAddress = [],
     cs_RouterUptime = 0, cs_LastVerified = None, cs_ConfigurationVerified = False, cs_LastReconciliationReason = [],
     cs_ConnectionState = [], cs_Conditions = []\<rparr>"

text \<open>The claim \<^verbatim>\<open>default/web\<close>, with the finalizer and without a status.\<close>

definition sim_claim :: public_ip_claim where
  "sim_claim = \<lparr>pc_Name = ''web'', pc_Namespace = ''default'', pc_Generation = 1, pc_DeletionTimestamp = None,
     pc_Finalizers = [finalizerName], pc_Annotations = [], pc_Spec = sim_spec, pc_Status = sim_status\<rparr>"

definition sim_bound :: public_ip_claim where
  "sim_bound = upd_status (\<lambda>s. s\<lparr>cs_Phase := ClaimPhaseReady, cs_AssignedIP := ''198.51.100.1'', cs_WanInterface := ''wan-web''\<rparr>) sim_claim"

definition sim_ctl :: "public_ip_claim \<Rightarrow> sim_world agent \<Rightarrow> (int, sim_site) ctl" where
  "sim_ctl c a = \<lparr>ct_SSHRegistry = True, ct_sshHandlers = [], ct_routerAssignments = [], ct_claimManagers = [],
     ct_reg = \<lparr>rg_managers = [], rg_heap = [], rg_world =
       \<lparr>si_claims = [((''default'', ''web''), c)], si_pools = sim_pools1, si_agent = a, si_socks = [], si_up = True\<rparr>\<rparr>\<rparr>"

lemma sim_ctl_pools: "pools_ok (ce_D sim_CE) (seen sim_pools (sim_ctl c a))"
  using sim_pools1(2) by (simp add: pools_ok_def sim_ctl_def sim_CE_def)

lemma sim_ctl_claim: "claim_key c = (''default'', ''web'') \<Longrightarrow> seen sim_claims (sim_ctl c a) (''default'', ''web'') = Some c"
  by (simp add: sim_ctl_def sim_claim_map_def)

lemma sim_ctl_agent: "seen si_agent (sim_ctl c a) = a"
  by (simp add: sim_ctl_def)

lemma sim_CE_fields: "ce_K sim_CE = sim_k8s" "ce_D sim_CE = sim_dyn"
  by (simp_all add: sim_CE_def)

lemma sim_CE_K: "k_ContainsFinalizer sim_k8s fs f = (f \<in> set fs)"
  by (simp add: sim_k8s_def)

end
