(* ===== verification/ControllerProps.thy ===== *)
theory ControllerProps
  imports SimCluster
begin

text \<open>
  What the reconciler does to the claims on the API server and to the pools, phase by phase. \<open>cluster\<close>
  collects the contracts: the function fields are nil, the server and the pool client behave, and
  neither the router nor the other group of calls touches claims or pools. The theorems are about
  \<^verbatim>\<open>Reconcile\<close> as a whole: reading the claim, deciding the phase, doing its work.
\<close>

subsection \<open>The cluster\<close>

definition no_hooks :: "'w hooks \<Rightarrow> bool" where
  "no_hooks h \<longleftrightarrow> runRouterScriptFn h = None \<and> ensureIPInPoolFn h = None \<and> removeIPFromPoolFn h = None \<and>
     cleanupRouterInterfaceFn h = None"

definition cluster ::
  "('f, 'w) ctl_env \<Rightarrow> (json \<Rightarrow> string) \<Rightarrow> (json \<Rightarrow> string) \<Rightarrow> ('w \<Rightarrow> claims) \<Rightarrow> ('w \<Rightarrow> pools) \<Rightarrow> bool" where
  "cluster E nm rv claims pools \<longleftrightarrow> no_hooks (ce_hooks E) \<and> finalizers_spec (ce_K E) \<and>
     api_store (ce_K E) claims \<and> quiet_net claims E \<and> quiet_http claims E \<and> quiet_pool claims E \<and>
     pool_store (ce_D E) nm rv pools \<and> quiet_net pools E \<and> quiet_http pools E \<and> quiet_api pools E"

lemma sim_cluster: "cluster sim_CE sim_pool_name sim_pool_version sim_claims sim_pools"
  using sim_quiet_net sim_quiet_others sim_finalizers sim_api_store sim_pool_client
  by (simp add: cluster_def no_hooks_def sim_CE_def)

text \<open>The observer of both.\<close>

abbreviation both :: "('w \<Rightarrow> claims) \<Rightarrow> ('w \<Rightarrow> pools) \<Rightarrow> 'w \<Rightarrow> claims \<times> pools" where
  "both claims pools \<equiv> \<lambda>w. (claims w, pools w)"

lemma keeps_both: "keeps f m \<Longrightarrow> keeps g m \<Longrightarrow> keeps (\<lambda>w. (f w, g w)) m"
  by (simp add: keeps_def wp_conj)

lemma quiet_pair:
  "quiet_net f E \<Longrightarrow> quiet_net g E \<Longrightarrow> quiet_net (\<lambda>w. (f w, g w)) E"
  "quiet_http f E \<Longrightarrow> quiet_http g E \<Longrightarrow> quiet_http (\<lambda>w. (f w, g w)) E"
  by (auto simp: quiet_net_def quiet_ssh_def quiet_tunnel_def quiet_misc_def quiet_http_def Let_def intro!: keeps_both)

lemma quiet_both:
  assumes "cluster E nm rv claims pools"
  shows "quiet_net (both claims pools) E" "quiet_http (both claims pools) E"
  using assms by (auto simp: cluster_def intro: quiet_pair)

lemma wp_frame:
  assumes "frame f m" "\<And>x s'. seen f s' = seen f s \<Longrightarrow> Q x s'"
  shows "wp m Q s"
  using assms(1) by (rule wp_keeps) (rule assms(2))

subsection \<open>Calls of the API server\<close>

lemma wp_world: "wp (with_world m) Q s = wp m (\<lambda>x w. Q x (s\<lparr>ct_reg := (ct_reg s)\<lparr>rg_world := w\<rparr>\<rparr>)) (rg_world (ct_reg s))"
  by (simp add: with_world_def with_reg_def wp_simps)

lemma wp_Get:
  assumes C: "cluster E nm rv claims pools"
    and "\<And>c s'. seen (both claims pools) s' = seen (both claims pools) s \<Longrightarrow> seen claims s (ns, n) = Some c \<Longrightarrow>
      claim_key c = (ns, n) \<Longrightarrow> Q (Inr c) s'"
    and "\<And>m s'. seen (both claims pools) s' = seen (both claims pools) s \<Longrightarrow> seen claims s (ns, n) = None \<Longrightarrow> Q (Inl (NotFound m)) s'"
    and "\<And>m s'. seen (both claims pools) s' = seen (both claims pools) s \<Longrightarrow> Q (Inl (OtherError m)) s'"
  shows "wp (with_world (k_Get (ce_K E) ns n)) Q s"
proof -
  let ?w = "rg_world (ct_reg s)"
  have "wp (k_Get (ce_K E) ns n) (\<lambda>r w'. claims w' = claims ?w \<and> (case r of
      Inr c \<Rightarrow> claims ?w (ns, n) = Some c \<and> claim_key c = (ns, n)
    | Inl (NotFound _) \<Rightarrow> claims ?w (ns, n) = None | Inl (OtherError _) \<Rightarrow> True)) ?w"
    using C unfolding cluster_def api_store_def by blast
  moreover have "wp (k_Get (ce_K E) ns n) (\<lambda>_ w'. pools w' = pools ?w) ?w"
    using C by (simp add: cluster_def quiet_api_def Let_def keeps_def)
  ultimately have "wp (k_Get (ce_K E) ns n) (\<lambda>r w'. (claims w' = claims ?w \<and> (case r of
      Inr c \<Rightarrow> claims ?w (ns, n) = Some c \<and> claim_key c = (ns, n)
    | Inl (NotFound _) \<Rightarrow> claims ?w (ns, n) = None | Inl (OtherError _) \<Rightarrow> True)) \<and> pools w' = pools ?w) ?w"
    by (rule wp_conj)
  then show ?thesis
    unfolding wp_world by (rule wp_mono) (auto split: sum.splits api_error.splits intro!: assms(2-4))
qed

lemma wp_StatusUpdate:
  assumes C: "cluster E nm rv claims pools"
    and "\<And>e s'. seen (both claims pools) s' = seen (both claims pools) s \<Longrightarrow> Q (Inl e) s'"
    and "\<And>d old s'. seen pools s' = seen pools s \<Longrightarrow> seen claims s (claim_key c) = Some old \<Longrightarrow>
      same_object d (old\<lparr>pc_Status := pc_Status c\<rparr>) \<Longrightarrow> seen claims s' = (seen claims s)(claim_key c \<mapsto> d) \<Longrightarrow> Q (Inr d) s'"
  shows "wp (with_world (k_StatusUpdate (ce_K E) c)) Q s"
proof -
  let ?w = "rg_world (ct_reg s)"
  have "wp (k_StatusUpdate (ce_K E) c) (\<lambda>r w'. case r of Inl _ \<Rightarrow> claims w' = claims ?w
        | Inr d \<Rightarrow> \<exists>old. claims ?w (claim_key c) = Some old \<and> same_object d (old\<lparr>pc_Status := pc_Status c\<rparr>) \<and>
            claims w' = (claims ?w)(claim_key c := Some d)) ?w"
    using C unfolding cluster_def api_store_def by blast
  moreover have "wp (k_StatusUpdate (ce_K E) c) (\<lambda>_ w'. pools w' = pools ?w) ?w"
    using C by (simp add: cluster_def quiet_api_def Let_def keeps_def)
  ultimately have "wp (k_StatusUpdate (ce_K E) c) (\<lambda>r w'. (case r of Inl _ \<Rightarrow> claims w' = claims ?w
        | Inr d \<Rightarrow> \<exists>old. claims ?w (claim_key c) = Some old \<and> same_object d (old\<lparr>pc_Status := pc_Status c\<rparr>) \<and>
            claims w' = (claims ?w)(claim_key c := Some d)) \<and> pools w' = pools ?w) ?w"
    by (rule wp_conj)
  then show ?thesis
    unfolding wp_world by (rule wp_mono) (auto split: sum.splits intro!: assms(2,3))
qed

lemma wp_Update:
  assumes C: "cluster E nm rv claims pools"
    and "\<And>e s'. seen (both claims pools) s' = seen (both claims pools) s \<Longrightarrow> Q (Inl e) s'"
    and "\<And>d old s'. seen pools s' = seen pools s \<Longrightarrow> seen claims s (claim_key c) = Some old \<Longrightarrow>
      same_object d (c\<lparr>pc_Status := pc_Status old\<rparr>) \<Longrightarrow>
      seen claims s' = (seen claims s)(claim_key c := (if pc_DeletionTimestamp c \<noteq> None \<and> pc_Finalizers c = [] then None else Some d)) \<Longrightarrow>
      Q (Inr d) s'"
  shows "wp (with_world (k_Update (ce_K E) c)) Q s"
proof -
  let ?w = "rg_world (ct_reg s)"
  have "wp (k_Update (ce_K E) c) (\<lambda>r w'. case r of Inl _ \<Rightarrow> claims w' = claims ?w
        | Inr d \<Rightarrow> \<exists>old. claims ?w (claim_key c) = Some old \<and> same_object d (c\<lparr>pc_Status := pc_Status old\<rparr>) \<and>
            claims w' = (claims ?w)(claim_key c := (if pc_DeletionTimestamp c \<noteq> None \<and> pc_Finalizers c = [] then None else Some d))) ?w"
    using C unfolding cluster_def api_store_def by blast
  moreover have "wp (k_Update (ce_K E) c) (\<lambda>_ w'. pools w' = pools ?w) ?w"
    using C by (simp add: cluster_def quiet_api_def Let_def keeps_def)
  ultimately have "wp (k_Update (ce_K E) c) (\<lambda>r w'. (case r of Inl _ \<Rightarrow> claims w' = claims ?w
        | Inr d \<Rightarrow> \<exists>old. claims ?w (claim_key c) = Some old \<and> same_object d (c\<lparr>pc_Status := pc_Status old\<rparr>) \<and>
            claims w' = (claims ?w)(claim_key c := (if pc_DeletionTimestamp c \<noteq> None \<and> pc_Finalizers c = [] then None else Some d)))
        \<and> pools w' = pools ?w) ?w"
    by (rule wp_conj)
  then show ?thesis
    unfolding wp_world by (rule wp_mono) (auto split: sum.splits intro!: assms(2,3))
qed

text \<open>Every phase starts from the claim as it is stored.\<close>

lemma wp_Reconcile:
  assumes C: "cluster E nm rv claims pools" and c: "seen claims s (ns, n) = Some c"
    and err: "\<And>e s'. seen (both claims pools) s' = seen (both claims pools) s \<Longrightarrow> Q (Reconciled no_requeue (Some e)) s'"
    and ok: "\<And>s'. seen (both claims pools) s' = seen (both claims pools) s \<Longrightarrow> claim_key c = (ns, n) \<Longrightarrow> wp (reconcile_claim E c) Q s'"
  shows "wp (Reconcile E ns n) Q s"
  unfolding Reconcile_def wp_bind
  by (rule wp_Get [OF C]) (use c err ok in \<open>auto simp: wp_simps\<close>)

subsection \<open>Pools\<close>

lemma wp_pool_remove:
  assumes C: "cluster E nm rv claims pools" and ok: "pools_ok (ce_D E) (seen pools s)" and ip: "ip \<noteq> []"
    and bad: "\<And>e s'. seen claims s' = seen claims s \<Longrightarrow> cidr_view (ce_D E) (seen pools s') = cidr_view (ce_D E) (seen pools s) \<Longrightarrow>
      Q (Returned (Inl e)) s'"
    and good: "\<And>s'. seen claims s' = seen claims s \<Longrightarrow> cidr_view (ce_D E) (seen pools s') =
      spec_remove (cidr_of ip) (chosen (seen pools s) n) (cidr_view (ce_D E) (seen pools s)) \<Longrightarrow> Q (Returned (Inr ())) s'"
  shows "wp (removeIPFromPool E n ip) Q s"
proof -
  let ?w = "rg_world (ct_reg s)"
  have D: "pool_store (ce_D E) nm rv pools" and h: "removeIPFromPoolFn (ce_hooks E) = None" and q: "quiet_pool claims E"
    using C by (simp_all add: cluster_def no_hooks_def)
  have "wp (defaultRemoveIPFromPool (ce_D E) n ip) (\<lambda>_ w'. claims w' = claims ?w) ?w"
    using keeps_pool [OF q] by (simp add: keeps_def)
  from wp_conj [OF wp_defaultRemove [OF D ok] this] show ?thesis
    unfolding removeIPFromPool_def h option.case wp_world
    by (rule wp_mono) (use ip in \<open>auto simp: refines_def split: outcome.splits sum.splits intro: bad good\<close>)
qed

lemma wp_pool_ensure:
  assumes C: "cluster E nm rv claims pools" and ok: "pools_ok (ce_D E) (seen pools s)"
    and bad: "\<And>e s'. seen claims s' = seen claims s \<Longrightarrow> cidr_view (ce_D E) (seen pools s') = cidr_view (ce_D E) (seen pools s) \<Longrightarrow>
      Q (Returned (Inl e)) s'"
    and good: "\<And>s'. seen claims s' = seen claims s \<Longrightarrow> seen pools s (chosen (seen pools s) n) \<noteq> None \<Longrightarrow>
      cidr_view (ce_D E) (seen pools s') =
      spec_ensure (cidr_of ip) (chosen (seen pools s) n) (cidr_view (ce_D E) (seen pools s)) \<Longrightarrow> Q (Returned (Inr ())) s'"
  shows "wp (ensureIPInPool E n ip) Q s"
proof -
  let ?w = "rg_world (ct_reg s)"
  have D: "pool_store (ce_D E) nm rv pools" and h: "ensureIPInPoolFn (ce_hooks E) = None" and q: "quiet_pool claims E"
    using C by (simp_all add: cluster_def no_hooks_def)
  have "wp (defaultEnsureIPInPool (ce_D E) n ip) (\<lambda>_ w'. claims w' = claims ?w) ?w"
    using keeps_pool [OF q] by (simp add: keeps_def)
  from wp_conj [OF wp_defaultEnsure [OF D ok] this] show ?thesis
    unfolding ensureIPInPool_def h option.case wp_world
    by (rule wp_mono) (auto simp: refines_def split: outcome.splits sum.splits intro: bad good)
qed

subsection \<open>Deletion\<close>

text \<open>Cleaning up at the router is best effort: whatever happens there, it reports success.\<close>

lemma wp_later: "(\<And>x t. wp (g x) Q t) \<Longrightarrow> wp (State_Monad.bind m g) Q s"
  unfolding wp_bind by (rule wp_any)

lemma cleanup_succeeds: "wp (defaultCleanupRouterInterface E c) (\<lambda>r _. r = Inr ()) s"
  unfolding defaultCleanupRouterInterface_def
  by (auto simp: wp_return split: sum.split intro!: wp_later)

lemma wp_cleanup:
  assumes C: "cluster E nm rv claims pools"
    and "\<And>s'. seen (both claims pools) s' = seen (both claims pools) s \<Longrightarrow> Q (Inr ()) s'"
  shows "wp (cleanupRouterInterface E c) Q s"
proof -
  have "cleanupRouterInterfaceFn (ce_hooks E) = None" using C by (simp add: cluster_def no_hooks_def)
  moreover have "wp (defaultCleanupRouterInterface E c) (\<lambda>r s'. seen (both claims pools) s' = seen (both claims pools) s) s"
    using frame_cleanup [OF quiet_both [OF C]] unfolding keeps_def by blast
  from wp_conj [OF cleanup_succeeds this] have "wp (defaultCleanupRouterInterface E c) Q s"
    by (rule wp_mono) (use assms(2) in auto)
  ultimately show ?thesis by (simp add: cleanupRouterInterface_def)
qed

definition unfinalized :: "'w k8s \<Rightarrow> claims \<Rightarrow> string \<times> string \<Rightarrow> bool" where
  "unfinalized K C k \<longleftrightarrow> (case C k of None \<Rightarrow> True | Some d \<Rightarrow> \<not> k_ContainsFinalizer K (pc_Finalizers d) finalizerName)"

lemma wp_remove_finalizer:
  assumes C: "cluster E nm rv claims pools" and k: "claim_key c = k"
    and "\<And>e s'. seen (both claims pools) s' = seen (both claims pools) s \<Longrightarrow> Q (Reconciled no_requeue (Some e)) s'"
    and "\<And>s'. seen pools s' = seen pools s \<Longrightarrow> unfinalized (ce_K E) (seen claims s') k \<Longrightarrow> Q (Reconciled no_requeue None) s'"
  shows "wp (remove_finalizer E c) Q s"
proof -
  have "\<not> k_ContainsFinalizer (ce_K E) (k_RemoveFinalizer (ce_K E) fs finalizerName) finalizerName" for fs
    using C by (simp add: cluster_def finalizers_spec_def)
  with k show ?thesis
    unfolding remove_finalizer_def wp_bind
    by (intro wp_Update [OF C]) (auto simp: wp_simps unfinalized_def claim_defs intro!: assms(3,4))
qed


definition sim_deleted :: public_ip_claim where
  "sim_deleted = sim_bound\<lparr>pc_DeletionTimestamp := Some 1\<rparr>"

lemma sim_deleted_fields: "claim_key sim_deleted = (''default'', ''web'')" "pc_DeletionTimestamp sim_deleted \<noteq> None"
  "pc_Finalizers sim_deleted = [finalizerName]" "cs_AssignedIP (status sim_deleted) = ''198.51.100.1''"
  "sp_PoolName (pc_Spec sim_deleted) = ''wan''"
  by (simp_all add: sim_deleted_def sim_bound_def sim_claim_def sim_spec_def claim_key_def)


subsection \<open>Claims that nothing is done for\<close>

text \<open>Not being deleted, with the finalizer and without a pending router event.\<close>

definition settled :: "'w k8s \<Rightarrow> public_ip_claim \<Rightarrow> bool" where
  "settled K c \<longleftrightarrow> pc_DeletionTimestamp c = None \<and> k_ContainsFinalizer K (pc_Finalizers c) finalizerName \<and>
     map_of (pc_Annotations c) event_key = None"

definition ready :: "public_ip_claim \<Rightarrow> bool" where
  "ready c \<longleftrightarrow> cs_Phase (status c) = ClaimPhaseReady \<and> cs_AssignedIP (status c) \<noteq> []"

primrec rounds :: "('f, 'w) ctl_env \<Rightarrow> string \<Rightarrow> string \<Rightarrow> nat \<Rightarrow> (('f, 'w) ctl, unit) state" where
  "rounds E ns n 0 = ret ()"
| "rounds E ns n (Suc k) = do { _ \<leftarrow> Reconcile E ns n; rounds E ns n k }"

lemma wp_stuck:
  assumes C: "cluster E nm rv claims pools" and c: "seen claims s (ns, n) = Some c" "settled (ce_K E) c" "\<not> ready c"
    and "cs_Phase (status c) = ClaimPhaseFailed \<or> cs_WanInterface (status c) \<noteq> []"
    and Q: "\<And>r s'. seen (both claims pools) s' = seen (both claims pools) s \<Longrightarrow>
      r = Reconciled (if cs_Phase (status c) = ClaimPhaseFailed then after (5 * minute) else no_requeue) None \<or>
      (\<exists>e. r = Reconciled no_requeue (Some e)) \<Longrightarrow> Q r s'"
  shows "wp (Reconcile E ns n) Q s"
  by (rule wp_Reconcile [OF C c(1)])
    (use c(2,3) assms(5) in \<open>auto simp: settled_def ready_def reconcile_claim_def wp_simps intro!: Q\<close>)


definition sim_failed :: public_ip_claim where
  "sim_failed = upd_status (\<lambda>s. s\<lparr>cs_Phase := ClaimPhaseFailed\<rparr>) sim_claim"


subsection \<open>The periodic check\<close>

text \<open>The reads of a claim's state only write into fields of its status that the decision does not use.\<close>

definition sticky :: "public_ip_claim \<Rightarrow> public_ip_claim \<Rightarrow> bool" where
  "sticky c d \<longleftrightarrow> pc_Name d = pc_Name c \<and> pc_Namespace d = pc_Namespace c \<and> pc_DeletionTimestamp d = pc_DeletionTimestamp c \<and>
     pc_Finalizers d = pc_Finalizers c \<and> pc_Annotations d = pc_Annotations c \<and> pc_Spec d = pc_Spec c \<and>
     cs_AssignedIP (status d) = cs_AssignedIP (status c) \<and> cs_WanInterface (status d) = cs_WanInterface (status c) \<and>
     cs_Phase (status d) = cs_Phase (status c)"

lemma wp_set_condition:
  "(\<And>cs s'. seen f s' = seen f s \<Longrightarrow> Q (upd_status (\<lambda>st. st\<lparr>cs_Conditions := cs\<rparr>) c) s') \<Longrightarrow> quiet_misc f E \<Longrightarrow>
     wp (set_condition E ty st r m c) Q s"
  unfolding set_condition_def wp_bind wp_return
  by (rule wp_frame [where f = f, OF frame_with_world [OF quiet_miscD(3)]])

lemma sticky_drifted: "sticky c c' \<Longrightarrow> wp (drifted E ev t r e c') (\<lambda>(d, _) _. sticky c d) s"
  unfolding drifted_def by (rule wp_later) (simp add: wp_simps sticky_def)

lemma sticky_verified: "sticky c c' \<Longrightarrow> wp (verified E r m c') (\<lambda>(d, _) _. sticky c d) s"
  unfolding verified_def set_condition_def by (simp add: wp_simps wp_any sticky_def)

lemma sticky_ask:
  assumes "\<And>c' s. sticky c c' \<Longrightarrow> wp (no c') (\<lambda>(d, _) _. sticky c d) s" "\<And>c' s. sticky c c' \<Longrightarrow> wp (yes c') (\<lambda>(d, _) _. sticky c d) s"
    and "sticky c c'"
  shows "wp (ask E q what no yes c') (\<lambda>(d, _) _. sticky c d) s"
  unfolding ask_def by (rule wp_later) (auto simp: wp_simps assms split: sum.split)

lemma sticky_verify_ssh: "wp (verify_ssh E c i) (\<lambda>(d, _) _. sticky c d) s"
  unfolding verify_ssh_def Let_def
  by (rule wp_later)
    (auto simp: wp_simps sticky_def [of c c] split: sum.split
      intro!: sticky_drifted sticky_ask sticky_verified, simp_all add: sticky_def)

lemma sticky_verify: "wp (verifyClaimState E c i) (\<lambda>(d, _) _. sticky c d) s"
proof -
  have agent: "wp (verify_agent E c t) (\<lambda>r _. case r of None \<Rightarrow> True | Some (d, _) \<Rightarrow> sticky c d) s" for t s
    unfolding verify_agent_def
    by (rule wp_later) (auto simp: wp_simps split: sum.split option.split
        intro!: wp_mono [OF sticky_drifted [of c c]] wp_mono [OF sticky_verified [of c c]], simp_all add: sticky_def)
  have close: "wp (do { r \<leftarrow> (case r of Some r \<Rightarrow> ret r | None \<Rightarrow> verify_ssh E c i); _ \<leftarrow> close_agent E c k t; ret r })
      (\<lambda>(d, _) _. sticky c d) s" if "case r of None \<Rightarrow> True | Some (d, _) \<Rightarrow> sticky c d" for r k t s
  proof (cases r)
    case None
    then show ?thesis
      by (simp add: wp_simps) (rule wp_mono [OF sticky_verify_ssh], simp add: split_beta)
  next
    case (Some x)
    with that show ?thesis by (simp add: wp_simps split_beta)
  qed
  have body: "wp (do { r \<leftarrow> verify_agent E c t; r \<leftarrow> (case r of Some r \<Rightarrow> ret r | None \<Rightarrow> verify_ssh E c i);
      _ \<leftarrow> close_agent E c k t; ret r }) (\<lambda>(d, _) _. sticky c d) s" for k t s
    unfolding wp_bind [of "verify_agent E c t"] by (rule wp_mono [OF agent]) (rule close)
  show ?thesis
    unfolding verifyClaimState_def
    by (auto simp: wp_return body sticky_verify_ssh sticky_def [of c c] split: sum.split intro!: wp_later)
qed

lemma sticky_getSSHManager: "wp (getSSHManager E c) (\<lambda>(d, _) _. sticky c d) s"
  unfolding getSSHManager_def Let_def
  by (auto simp: wp_return sticky_def split: sum.split intro!: wp_later)

lemma wp_manager_of:
  assumes C: "cluster E nm rv claims pools"
    and "\<And>d r s'. seen (both claims pools) s' = seen (both claims pools) s \<Longrightarrow> sticky c d \<Longrightarrow> Q (d, r) s'"
  shows "wp (getSSHManager E c) Q s"
proof -
  have "wp (getSSHManager E c) (\<lambda>_ s'. seen (both claims pools) s' = seen (both claims pools) s) s"
    using frame_getSSHManager [OF quiet_both(1) [OF C]] unfolding keeps_def by blast
  from wp_conj [OF sticky_getSSHManager this] show ?thesis
    by (rule wp_mono) (auto intro: assms(2))
qed

lemma wp_verify:
  assumes C: "cluster E nm rv claims pools"
    and "\<And>d r s'. seen (both claims pools) s' = seen (both claims pools) s \<Longrightarrow> sticky c d \<Longrightarrow> Q (d, r) s'"
  shows "wp (verifyClaimState E c i) Q s"
proof -
  have "wp (verifyClaimState E c i) (\<lambda>_ s'. seen (both claims pools) s' = seen (both claims pools) s) s"
    using frame_verify [OF quiet_both [OF C]] unfolding keeps_def by blast
  from wp_conj [OF sticky_verify this] show ?thesis
    by (rule wp_mono) (auto intro: assms(2))
qed

text \<open>The claim starts over: no address, no interface, not verified; its specification is what it was.\<close>

definition restarted :: "public_ip_claim \<Rightarrow> public_ip_claim \<Rightarrow> bool" where
  "restarted c d \<longleftrightarrow> pc_Spec d = pc_Spec c \<and> pc_Finalizers d = pc_Finalizers c \<and> cs_Phase (status d) = ClaimPhasePending \<and>
     cs_WanInterface (status d) = [] \<and> cs_AssignedIP (status d) = [] \<and> cs_RouterUptime (status d) = 0"

lemma wp_reprovision:
  assumes C: "cluster E nm rv claims pools" and ok: "pools_ok (ce_D E) (seen pools s)"
    and c: "seen claims s (ns, n) = Some c" "claim_key c = (ns, n)" and st: "sticky c d" and ip: "cs_AssignedIP (status c) \<noteq> []"
    and err: "\<And>e s'. seen (both claims pools) s' = seen (both claims pools) s \<Longrightarrow> Q (Reconciled no_requeue (Some e)) s'"
    and again: "\<And>d s'. restarted c d \<Longrightarrow> \<not> cs_ConfigurationVerified (status d) \<Longrightarrow> seen claims s' = (seen claims s)((ns, n) \<mapsto> d) \<Longrightarrow>
      cidr_view (ce_D E) (seen pools s') = cidr_view (ce_D E) (seen pools s) \<or>
      cidr_view (ce_D E) (seen pools s') = spec_remove (cidr_of (cs_AssignedIP (status c)))
         (chosen (seen pools s) (sp_PoolName (pc_Spec c))) (cidr_view (ce_D E) (seen pools s)) \<Longrightarrow>
      Q (Reconciled \<lparr>cr_Requeue = True, cr_RequeueAfter = 0\<rparr> None) s'"
  shows "wp (reprovision E d e) Q s"
proof -
  have q: "quiet_misc (both claims pools) E" by (rule quiet_netD(3) [OF quiet_both(1) [OF C]])
  have k: "claim_key d = (ns, n)" "pc_Name d = n" "pc_Namespace d = ns"
    using c(2) st by (auto simp: claim_key_def sticky_def)
  show ?thesis
    unfolding reprovision_def Let_def wp_bind
    apply (rule wp_set_condition [OF _ q])
    apply (rule wp_set_condition [OF _ q])
    apply (rule wp_StatusUpdate [OF C])
     apply (simp add: wp_simps err)
    apply (simp add: wp_simps)
    apply (intro conjI impI)
     apply (use st ip in \<open>simp add: sticky_def\<close>)
    apply (rule wp_pool_remove [OF C])
    apply (use ok st ip c k in \<open>auto simp: wp_simps sticky_def claim_defs start_over_def intro!: again simp: restarted_def\<close>)
    done
qed


lemma sim_bound_fields: "claim_key sim_bound = (''default'', ''web'')" "settled sim_k8s sim_bound" "ready sim_bound"
  "pc_DeletionTimestamp sim_bound = None" "pc_Finalizers sim_bound = [finalizerName]"
  by (simp_all add: sim_bound_def sim_claim_def claim_key_def settled_def ready_def sim_CE_K)

lemma sim_bound_stored: "seen sim_claims (sim_ctl sim_bound a) (''default'', ''web'') = Some sim_bound"
  by (rule sim_ctl_claim) (rule sim_bound_fields)


subsection \<open>Router events\<close>

lemma wp_clear_annotations:
  fixes E :: "('f, 'w) ctl_env"
  assumes C: "cluster E nm rv claims pools" and k: "claim_key d = (ns, n)" "seen claims s (ns, n) = Some c"
    and f: "k_ContainsFinalizer (ce_K E) (pc_Finalizers d) finalizerName"
    and same: "\<And>s'. seen (both claims pools) s' = seen (both claims pools) s \<Longrightarrow> Q (Reconciled (after second) None) s'"
    and upd: "\<And>d' s'. seen pools s' = seen pools s \<Longrightarrow> seen claims s' = (seen claims s)((ns, n) \<mapsto> d') \<Longrightarrow>
      status d' = status c \<Longrightarrow> pc_Spec d' = pc_Spec d \<Longrightarrow> pc_Finalizers d' = pc_Finalizers d \<Longrightarrow>
      map_of (pc_Annotations d') event_key = None \<Longrightarrow> Q (Reconciled (after second) None) s'"
  shows "wp (clear_annotations E d) Q s"
proof -
  have "pc_Finalizers d \<noteq> []" using f C by (auto simp: cluster_def finalizers_spec_def)
  show ?thesis
    unfolding clear_annotations_def wp_bind wp_return
  proof (rule wp_Update [OF C])
    let ?d = "d\<lparr>pc_Annotations := AList.delete reason_key (AList.delete event_key (pc_Annotations d))\<rparr>"
    fix d' old and s' :: "('f, 'w) ctl"
    assume "seen pools s' = seen pools s" "seen claims s (claim_key ?d) = Some old"
      "same_object d' (?d\<lparr>pc_Status := pc_Status old\<rparr>)"
      "seen claims s' = (seen claims s)(claim_key ?d := (if pc_DeletionTimestamp ?d \<noteq> None \<and> pc_Finalizers ?d = [] then None else Some d'))"
    with k \<open>pc_Finalizers d \<noteq> []\<close> show "Q (Reconciled (after second) None) s'"
      by (intro upd [of s' d']) (auto simp: claim_defs event_key_def reason_key_def)
  qed (rule same)
qed

text \<open>What a router event may leave of claim \<open>c\<close> and of the pools, and the situation in which it is handled.\<close>

definition event_outcome where
  "event_outcome claims pools ns n c s = (\<lambda>(r::reconciled) s'. seen pools s' = seen pools s \<and>
      (seen claims s' = seen claims s \<or> (\<exists>d. seen claims s' = (seen claims s)((ns, n) \<mapsto> d) \<and> pc_Spec d = pc_Spec c \<and>
         (status d = status c \<and> map_of (pc_Annotations d) event_key = None \<or> restarted c d))))"

definition event_case where
  "event_case E nm rv claims pools ns n c s \<longleftrightarrow> cluster E nm rv claims pools \<and> seen claims s (ns, n) = Some c \<and>
     claim_key c = (ns, n) \<and> k_ContainsFinalizer (ce_K E) (pc_Finalizers c) finalizerName"

lemma event_cluster: "event_case E nm rv claims pools ns n c s \<Longrightarrow> cluster E nm rv claims pools"
  by (simp add: event_case_def)

lemma event_clear:
  assumes "event_case E nm rv claims pools ns n c s"
    and "seen (both claims pools) s2 = seen (both claims pools) s" "sticky c d"
  shows "wp (clear_annotations E d) (event_outcome claims pools ns n c s) s2"
  using assms unfolding event_case_def event_outcome_def
  by (intro wp_clear_annotations [OF event_cluster [OF assms(1)], where ns = ns and n = n and c = c]) (auto simp: sticky_def claim_key_def)

lemma event_clear_restarted:
  assumes "event_case E nm rv claims pools ns n c s"
    and "seen pools s3 = seen pools s" "seen claims s3 = (seen claims s)((ns, n) \<mapsto> d')" "restarted c d'" "claim_key d' = (ns, n)"
  shows "wp (clear_annotations E d') (event_outcome claims pools ns n c s) s3"
  using assms unfolding event_case_def event_outcome_def
  by (intro wp_clear_annotations [OF event_cluster [OF assms(1)], where ns = ns and n = n and c = d']) (auto simp: restarted_def)

lemma event_reset:
  fixes E :: "('f, 'w) ctl_env"
  assumes ev: "event_case E nm rv claims pools ns n c s"
    and s2: "seen (both claims pools) s2 = seen (both claims pools) s" "sticky c d"
  shows "wp (do { r \<leftarrow> with_world (k_StatusUpdate (ce_K E) (upd_status (start_over msg) d));
      (case r of Inl e \<Rightarrow> rec_err (api_error_msg e) | Inr claim \<Rightarrow> clear_annotations E claim) }) (event_outcome claims pools ns n c s) s2"
proof -
  have C: "cluster E nm rv claims pools" and c: "seen claims s (ns, n) = Some c" "claim_key c = (ns, n)"
    using ev by (simp_all add: event_case_def)
  show ?thesis
    unfolding wp_bind
  proof (rule wp_StatusUpdate [OF C])
    fix d' old and s3 :: "('f, 'w) ctl"
    assume "seen pools s3 = seen pools s2" "seen claims s2 (claim_key (upd_status (start_over msg) d)) = Some old"
      "same_object d' (old\<lparr>pc_Status := status (upd_status (start_over msg) d)\<rparr>)"
      "seen claims s3 = (seen claims s2)(claim_key (upd_status (start_over msg) d) \<mapsto> d')"
    with s2 c show "wp (case Inr d' of Inl e \<Rightarrow> rec_err (api_error_msg e) | Inr claim \<Rightarrow> clear_annotations E claim)
        (event_outcome claims pools ns n c s) s3"
      by (simp only: sum.case) (rule event_clear_restarted [OF ev], auto simp: sticky_def claim_defs restarted_def start_over_def)
  qed (use s2 in \<open>auto simp: wp_simps event_outcome_def\<close>)
qed

lemma wp_reconcile_event:
  assumes ev: "event_case E nm rv claims pools ns n c s" and s1: "seen (both claims pools) s1 = seen (both claims pools) s"
  shows "wp (reconcile_event E c) (event_outcome claims pools ns n c s) s1"
proof -
  note C = event_cluster [OF ev]
  have q: "quiet_ssh (both claims pools) E" by (rule quiet_netD(1) [OF quiet_both(1) [OF C]])
  have exists: "wp (on_manager i (InterfaceExists (env_quote (ce_V E)) (env_L (ce_V E)) x) \<bind> g) R s2"
    if "\<And>b s'. seen (both claims pools) s' = seen (both claims pools) s2 \<Longrightarrow> wp (g b) R s'" for i x g R s2
    unfolding wp_bind by (rule wp_frame [OF frame_on_manager [OF keeps_queries(1) [OF q]]]) (use that in auto)
  define Q where "Q = event_outcome claims pools ns n c s"
  note steps = event_clear [OF ev, folded Q_def] event_reset [OF ev, folded Q_def]
  show ?thesis
    unfolding reconcile_event_def Let_def wp_bind [of "getSSHManager E c"] Q_def [symmetric]
    by (rule wp_manager_of [OF C])
      (use s1 in \<open>auto simp only: prod.case fst_conv split: prod.split sum.split if_split intro!: steps exists\<close>)
qed

text \<open>C37: A router event never touches a pool. Its annotations are cleared, and when the interface is not
  found the claim starts over; the address it had is then recorded nowhere, and the pool still holds
  it.\<close>

theorem router_event_keeps_pool:
  fixes E :: "('f, 'w) ctl_env"
  assumes C: "cluster E nm rv claims pools"
    and "seen claims s (ns, n) = Some c" and "pc_DeletionTimestamp c = None"
    and "k_ContainsFinalizer (ce_K E) (pc_Finalizers c) finalizerName" and "map_of (pc_Annotations c) event_key \<noteq> None"
  shows "wp (Reconcile E ns n) (\<lambda>r s'. seen pools s' = seen pools s \<and>
      (seen claims s' = seen claims s \<or> (\<exists>d. seen claims s' = (seen claims s)((ns, n) \<mapsto> d) \<and> pc_Spec d = pc_Spec c \<and>
         (status d = status c \<and> map_of (pc_Annotations d) event_key = None \<or> restarted c d)))) s"
proof -
  have "wp (Reconcile E ns n) (event_outcome claims pools ns n c s) s"
  proof (rule wp_Reconcile [OF C assms(2)])
    fix s1 :: "('f, 'w) ctl"
    assume "seen (both claims pools) s1 = seen (both claims pools) s" "claim_key c = (ns, n)"
    with assms have "wp (reconcile_event E c) (event_outcome claims pools ns n c s) s1"
      by (intro wp_reconcile_event) (simp_all add: event_case_def)
    with assms(3-5) show "wp (reconcile_claim E c) (event_outcome claims pools ns n c s) s1"
      by (simp add: reconcile_claim_def)
  qed (auto simp: event_outcome_def)
  then show ?thesis by (simp only: event_outcome_def)
qed

definition sim_event :: public_ip_claim where
  "sim_event = sim_bound\<lparr>pc_Annotations := [(event_key, ''1000''), (reason_key, ''reboot'')]\<rparr>"

theorem router_event_keeps_pool_witness:
  "wp (Reconcile sim_CE ''default'' ''web'') (\<lambda>_ s'.
      cidr_view sim_dyn (seen sim_pools s') (gvrPoolV2, ''wan'') = Some {''198.51.100.1/32''}) (sim_ctl sim_event sim_agent)"
proof -
  have c: "seen sim_claims (sim_ctl sim_event sim_agent) (''default'', ''web'') = Some sim_event"
    by (rule sim_ctl_claim) (simp add: sim_event_def sim_bound_def sim_claim_def claim_key_def)
  have p: "cidr_view sim_dyn (seen sim_pools (sim_ctl sim_event sim_agent)) (gvrPoolV2, ''wan'') = Some {''198.51.100.1/32''}"
    using sim_pools1(1,3) by (simp add: cidr_view_def sim_ctl_def cidrs_def new_block_def)
  show ?thesis
    by (rule wp_mono [OF router_event_keeps_pool [OF sim_cluster c]])
      (use p in \<open>auto simp: sim_CE_fields sim_CE_K sim_event_def sim_bound_fields\<close>)
qed

end
