(* ===== verification/EndToEnd.thy ===== *)
theory EndToEnd
  imports ControllerProps
begin

text \<open>
  The reconciler, the API server, the pools and the router agent together. \<open>agent_at\<close> says that the
  client's HTTP transport reaches one agent: a response is the answer of the agent's handlers
  (\<open>serve\<close>), and after a transport error the agent either did not see the request or handled it and
  its answer was lost. The theorems follow an address from the agent's lease through the claim's status
  into the pool.
\<close>

subsection \<open>The agent behind the transport\<close>

definition agent_at ::
  "('f, 'w) ctl_env \<Rightarrow> ('p, 'a) agent_env \<Rightarrow> (http_request \<Rightarrow> response) \<Rightarrow> ('w \<Rightarrow> 'a agent) \<Rightarrow> bool" where
  "agent_at E A other ag \<longleftrightarrow> quiet_net ag E \<and> quiet_api ag E \<and> quiet_pool ag E \<and> ce_G E = env_G A \<and>
     times_roundtrip (env_G A) \<and>
     (\<forall>c url. url_error (ce_H E c) url = None) \<and>
     (\<forall>c req w. wp (http_Do (ce_H E c) req) (\<lambda>r w'. case run_state (serve A other req) (ag w) of (resp, a') \<Rightarrow>
        (case r of Inr x \<Rightarrow> x = resp \<and> ag w' = a' | Inl _ \<Rightarrow> ag w' \<in> {ag w, a'})) w)"

text \<open>A call of the client: its contract on the transport without loss carries over, and a transport
  error means nothing happened or the answer was lost.\<close>

lemma wp_call_agent:
  assumes A: "agent_at E A other ag"
    and ok: "wp (serve A other \<lparr>hq_method = meth, hq_path = path, hq_body = body\<rparr>) (\<lambda>resp a'. Q (k resp) a' \<and> P a') (ag w)"
    and lost: "\<And>e. Q (Inl e) (ag w)" "\<And>e a'. P a' \<Longrightarrow> Q (Inl e) a'"
  shows "wp (call (ce_H E c) (NewRequest (ce_H E c) c meth path body) k) (\<lambda>r w'. Q r (ag w')) w"
proof -
  let ?req = "\<lparr>hq_method = meth, hq_path = path, hq_body = body\<rparr>"
  obtain resp a' where run: "run_state (serve A other ?req) (ag w) = (resp, a')" by fastforce
  have "wp (http_Do (ce_H E c) ?req) (\<lambda>r w'. case run_state (serve A other ?req) (ag w) of (resp, a') \<Rightarrow>
        (case r of Inr x \<Rightarrow> x = resp \<and> ag w' = a' | Inl _ \<Rightarrow> ag w' \<in> {ag w, a'})) w"
    using A unfolding agent_at_def by blast
  then have "wp (http_Do (ce_H E c) ?req) (\<lambda>r w'. Q (case r of Inl e \<Rightarrow> Inl (wrapf ''agent request failed'' e) | Inr x \<Rightarrow> k x) (ag w')) w"
    by (rule wp_mono) (use wpD [OF ok run] run lost in \<open>auto split: sum.splits\<close>)
  moreover have "NewRequest (ce_H E c) c meth path body = Inr ?req"
    using A by (simp add: NewRequest_def agent_at_def)
  ultimately show ?thesis by (simp add: call_def wp_simps)
qed

text \<open>What became of a request for a lease that was answered with an error, or not at all.\<close>

definition not_obtained :: "golib \<Rightarrow> string \<Rightarrow> string \<Rightarrow> string \<Rightarrow> 'w agent \<Rightarrow> 'w agent \<Rightarrow> bool" where
  "not_obtained G i p m a a' \<longleftrightarrow> a' = a \<or> (\<exists>i' e. not_added i' e a a') \<or> (\<exists>ip. obtained G i p m ip a a')"

lemma not_obtained_refl: "not_obtained G i p m a a"
  by (simp add: not_obtained_def)

lemma obtained_not: "obtained G i p m ip a a' \<Longrightarrow> not_obtained G i p m a a'"
  by (auto simp: not_obtained_def)

lemma wp_agent_AllocateLease:
  assumes A: "agent_at E A other ag"
  shows "wp (AllocateLease (ce_G E) (ce_H E c) c i p m) (\<lambda>r w'. case r of
      Inr ip \<Rightarrow> obtained (env_G A) i p m ip (ag w) (ag w')
    | Inl _ \<Rightarrow> not_obtained (env_G A) i p m (ag w) (ag w')) w"
proof -
  let ?Q = "\<lambda>r a'. case r of Inr ip \<Rightarrow> obtained (env_G A) i p m ip (ag w) a' | Inl _ \<Rightarrow> not_obtained (env_G A) i p m (ag w) a'"
  have G: "ce_G E = env_G A" "times_roundtrip (env_G A)" using A by (simp_all add: agent_at_def)
  note served = wp_client_AllocateLease [OF G(2), of other c i p m "ag w",
      unfolded AllocateLease_def Let_def wp_call_direct]
  show ?thesis
    unfolding AllocateLease_def Let_def G(1)
    by (rule wp_call_agent [OF A, where Q = ?Q and P = "not_obtained (env_G A) i p m (ag w)"], rule wp_mono [OF served])
      (auto simp: not_obtained_def split: sum.splits)
qed

subsection \<open>Allocation\<close>

lemma agent_quiet: "agent_at E A other ag \<Longrightarrow> quiet_net ag E" "agent_at E A other ag \<Longrightarrow> quiet_api ag E"
  "agent_at E A other ag \<Longrightarrow> quiet_pool ag E"
  by (simp_all add: agent_at_def)

lemma agent_script:
  assumes A: "agent_at E A other ag"
  shows "wp (defaultRunRouterScript E c i m) (\<lambda>r s'. case r of
      Inr ip \<Rightarrow> obtained (env_G A) i (rt_WanParent (router c)) m ip (seen ag s) (seen ag s')
    | Inl _ \<Rightarrow> not_obtained (env_G A) i (rt_WanParent (router c)) m (seen ag s) (seen ag s')) s"
proof -
  note q = quiet_netD [OF agent_quiet(1) [OF A]]
  have lease: "wp (with_world (AllocateLease (ce_G E) (ce_H E t) t i p m)) R s2"
    if "\<And>r s'. (case r of Inr ip \<Rightarrow> obtained (env_G A) i p m ip (seen ag s2) (seen ag s')
       | Inl _ \<Rightarrow> not_obtained (env_G A) i p m (seen ag s2) (seen ag s')) \<Longrightarrow> R r s'" for t p R s2
    unfolding wp_world by (rule wp_mono [OF wp_agent_AllocateLease [OF A]]) (rule that, simp split: sum.splits)
  show ?thesis
    unfolding defaultRunRouterScript_def
    by (auto simp: wp_simps not_obtained_refl split: sum.split intro!: wp_frame [OF frame_misc(1) [OF q(3)]]
        wp_frame [OF frame_tunnel(1) [OF q(2)]] wp_frame [OF frame_tunnel(2) [OF q(2)]] lease, auto split: sum.splits)
qed

lemma wp_script:
  assumes C: "cluster E nm rv claims pools" and A: "agent_at E A other ag"
    and "\<And>ip s'. seen (both claims pools) s' = seen (both claims pools) s \<Longrightarrow>
      obtained (env_G A) i (rt_WanParent (router c)) m ip (seen ag s) (seen ag s') \<Longrightarrow> Q (Inr ip) s'"
    and "\<And>e s'. seen (both claims pools) s' = seen (both claims pools) s \<Longrightarrow>
      not_obtained (env_G A) i (rt_WanParent (router c)) m (seen ag s) (seen ag s') \<Longrightarrow> Q (Inl e) s'"
  shows "wp (runRouterScript E c i m) Q s"
proof -
  have "runRouterScriptFn (ce_hooks E) = None" using C by (simp add: cluster_def no_hooks_def)
  moreover have "wp (defaultRunRouterScript E c i m) (\<lambda>_ s'. seen (both claims pools) s' = seen (both claims pools) s) s"
    using frame_script [OF quiet_both [OF C]] unfolding keeps_def by blast
  from wp_conj [OF agent_script [OF A] this] have "wp (defaultRunRouterScript E c i m) Q s"
    by (rule wp_mono) (use assms(3,4) in \<open>auto split: sum.splits\<close>)
  ultimately show ?thesis by (simp add: runRouterScript_def)
qed

text \<open>The three observers together.\<close>

abbreviation trio :: "('w \<Rightarrow> claims) \<Rightarrow> ('w \<Rightarrow> pools) \<Rightarrow> ('w \<Rightarrow> 'a agent) \<Rightarrow> 'w \<Rightarrow> claims \<times> pools \<times> 'a agent" where
  "trio claims pools ag \<equiv> \<lambda>w. (claims w, pools w, ag w)"

lemma quiet_trio:
  assumes "cluster E nm rv claims pools" "agent_at E A other ag"
  shows "quiet_net (trio claims pools ag) E"
  using assms by (auto simp: cluster_def agent_at_def intro!: quiet_pair)

lemma wp_also: "frame f m \<Longrightarrow> wp m (\<lambda>x s'. seen f s' = seen f s \<longrightarrow> Q x s') s \<Longrightarrow> wp m Q s"
  by (auto simp: keeps_def wp_def split: prod.splits)

lemma frame_status_update: "agent_at E A other ag \<Longrightarrow> frame ag (with_world (k_StatusUpdate (ce_K E) c))"
  by (rule frame_with_world) (simp add: agent_at_def quiet_api_def Let_def)

lemma wp_status3:
  assumes C: "cluster E nm rv claims pools" and A: "agent_at E A other ag"
    and k: "claim_key d = k" "seen claims s k = Some old"
    and bad: "\<And>e s'. seen (trio claims pools ag) s' = seen (trio claims pools ag) s \<Longrightarrow> Q (Inl e) s'"
    and good: "\<And>d' s'. seen pools s' = seen pools s \<Longrightarrow> seen ag s' = seen ag s \<Longrightarrow> seen claims s' = (seen claims s)(k \<mapsto> d') \<Longrightarrow>
      claim_key d' = claim_key old \<Longrightarrow> pc_Spec d' = pc_Spec old \<Longrightarrow> status d' = status d \<Longrightarrow> Q (Inr d') s'"
  shows "wp (with_world (k_StatusUpdate (ce_K E) d)) Q s"
  by (rule wp_also [OF frame_status_update [OF A]], rule wp_StatusUpdate [OF C])
    (use k in \<open>auto simp: claim_defs intro!: bad good\<close>)

lemma wp_fail:
  assumes C: "cluster E nm rv claims pools" and A: "agent_at E A other ag"
    and k: "claim_key d = k" "seen claims s k = Some old"
    and bad: "\<And>e s'. seen (trio claims pools ag) s' = seen (trio claims pools ag) s \<Longrightarrow> Q (Reconciled no_requeue (Some e)) s'"
    and good: "\<And>d' s'. seen pools s' = seen pools s \<Longrightarrow> seen ag s' = seen ag s \<Longrightarrow> seen claims s' = (seen claims s)(k \<mapsto> d') \<Longrightarrow>
      pc_Spec d' = pc_Spec old \<Longrightarrow> status d' = (status d)\<lparr>cs_Phase := ClaimPhaseFailed, cs_Message := err\<rparr> \<Longrightarrow>
      Q (Reconciled no_requeue (Some err)) s'"
  shows "wp (fail E d err) Q s"
  unfolding fail_def wp_bind
  by (rule wp_status3 [OF C A, where k = k and old = old])
    (use k in \<open>auto simp: wp_simps claim_defs intro: bad good\<close>)

lemma wp_finish:
  assumes C: "cluster E nm rv claims pools" and A: "agent_at E A other ag"
    and k: "claim_key d = k" "seen claims s k = Some old"
    and bad: "\<And>e s'. seen (trio claims pools ag) s' = seen (trio claims pools ag) s \<Longrightarrow> Q (Reconciled no_requeue (Some e)) s'"
    and good: "\<And>d' s' t cs. seen pools s' = seen pools s \<Longrightarrow> seen ag s' = seen ag s \<Longrightarrow> seen claims s' = (seen claims s)(k \<mapsto> d') \<Longrightarrow>
      pc_Spec d' = pc_Spec old \<Longrightarrow> status d' = (assigned ip t (status d))\<lparr>cs_Conditions := cs\<rparr> \<Longrightarrow>
      Q (Reconciled (after (60 * minute)) None) s'"
  shows "wp (finish_allocation E d ip) Q s"
proof -
  note q = quiet_netD(3) [OF quiet_trio [OF C A]]
  show ?thesis
    unfolding finish_allocation_def wp_bind
    apply (rule wp_frame [OF frame_with_world [OF quiet_miscD(5) [OF q]]])
    apply (rule wp_set_condition [OF _ q])
    apply (rule wp_status3 [OF C A, where k = k and old = old])
       apply (use k in \<open>simp_all add: claim_defs wp_simps\<close>)
     apply (rule bad, simp)
    apply (rule wp_frame [OF frame_with_world [OF quiet_miscD(2) [OF q]]])
    apply (rule good; simp add: fun_upd_def)
    done
qed

text \<open>A claim that the reconciler starts an allocation for.\<close>

definition eligible :: "'w k8s \<Rightarrow> public_ip_claim \<Rightarrow> bool" where
  "eligible K c \<longleftrightarrow> settled K c \<and> \<not> ready c \<and> cs_WanInterface (status c) = [] \<and> cs_Phase (status c) \<noteq> ClaimPhaseFailed \<and>
     missing_field (pc_Spec c) = None"

text \<open>The allocation ended well: agent, pool and status agree on interface, MAC and address. \<open>d\<close> is the
  claim as it is stored then.\<close>

definition allocated ::
  "('f, 'w) ctl_env \<Rightarrow> golib \<Rightarrow> public_ip_claim \<Rightarrow> pools \<times> 'a agent \<Rightarrow> public_ip_claim \<Rightarrow> pools \<times> 'a agent \<Rightarrow> bool" where
  "allocated E G c = (\<lambda>(P, a) d (P', a'). pc_Spec d = pc_Spec c \<and>
     ready d \<and> ParseIP (cs_AssignedIP (status d)) \<noteq> None \<and> cs_ConfigurationVerified (status d) \<and>
     cs_WanInterface (status d) = choose_interface E c \<and>
     obtained G (cs_WanInterface (status d)) (rt_WanParent (router c)) (cs_MacAddress (status d)) (cs_AssignedIP (status d)) a a' \<and>
     P (chosen P (sp_PoolName (pc_Spec c))) \<noteq> None \<and>
     cidr_view (ce_D E) P' = spec_ensure (cidr_of (cs_AssignedIP (status d))) (chosen P (sp_PoolName (pc_Spec c))) (cidr_view (ce_D E) P))"

text \<open>It failed on the way: the claim has the interface but no new address, and is failed unless that could
  not be recorded. \<open>leak\<close> is an address that is at the agent and in the pool but not in the claim.\<close>

definition abandoned ::
  "('f, 'w) ctl_env \<Rightarrow> golib \<Rightarrow> public_ip_claim \<Rightarrow> pools \<times> 'a agent \<Rightarrow> public_ip_claim \<Rightarrow> pools \<times> 'a agent \<Rightarrow> bool" where
  "abandoned E G c = (\<lambda>(P, a) d (P', a'). pc_Spec d = pc_Spec c \<and>
     cs_Phase (status d) \<in> {ClaimPhaseFailed, cs_Phase (status c)} \<and> cs_AssignedIP (status d) = cs_AssignedIP (status c) \<and>
     cs_WanInterface (status d) = choose_interface E c \<and>
     (cidr_view (ce_D E) P' = cidr_view (ce_D E) P \<and>
        not_obtained G (choose_interface E c) (rt_WanParent (router c)) (cs_MacAddress (status d)) a a' \<or>
      (\<exists>leak. obtained G (choose_interface E c) (rt_WanParent (router c)) (cs_MacAddress (status d)) leak a a' \<and>
        cs_Phase (status d) = cs_Phase (status c) \<and>
        cidr_view (ce_D E) P' = spec_ensure (cidr_of leak) (chosen P (sp_PoolName (pc_Spec c))) (cidr_view (ce_D E) P))))"

lemma ParseIP_Nil: "ParseIP [] = None"
  by code_simp

text \<open>The postcondition \<open>Q\<close> of an allocation of claim \<open>c\<close> that begins in \<open>s\<close> admits the two outcomes, and the claim
  \<open>d\<close> as it is stored once the interface and the MAC address are recorded in it.\<close>

definition admits where
  "admits E G c k claims pools ag s Q \<longleftrightarrow>
     (\<forall>e d s'. seen claims s' = (seen claims s)(k \<mapsto> d) \<longrightarrow>
        abandoned E G c (seen pools s, seen ag s) d (seen pools s', seen ag s') \<longrightarrow> Q (Reconciled no_requeue (Some e)) s') \<and>
     (\<forall>d s'. seen claims s' = (seen claims s)(k \<mapsto> d) \<longrightarrow>
        allocated E G c (seen pools s, seen ag s) d (seen pools s', seen ag s') \<longrightarrow> Q (Reconciled (after (60 * minute)) None) s')"

definition begun where
  "begun E c k claims s m d s3 \<longleftrightarrow> claim_key d = k \<and> pc_Spec d = pc_Spec c \<and> seen claims s3 = (seen claims s)(k \<mapsto> d) \<and>
     status d = (status c)\<lparr>cs_WanInterface := choose_interface E c, cs_MacAddress := m\<rparr>"

lemma allocate_fails:
  assumes C: "cluster E nm rv claims pools" and A: "agent_at E A other ag" and Q: "admits E (env_G A) c k claims pools ag s Q"
    and "begun E c k claims s m d s3" "cidr_view (ce_D E) (seen pools s3) = cidr_view (ce_D E) (seen pools s)"
    "not_obtained (env_G A) (choose_interface E c) (rt_WanParent (router c)) m (seen ag s) (seen ag s3)"
  shows "wp (fail E d e) Q s3"
  by (rule wp_fail [OF C A, where k = k and old = d])
    (use assms(4-) in \<open>auto simp: abandoned_def begun_def intro!: Q [unfolded admits_def, THEN conjunct1, rule_format]\<close>)

lemma allocate_finishes:
  assumes C: "cluster E nm rv claims pools" and A: "agent_at E A other ag" and Q: "admits E (env_G A) c k claims pools ag s Q"
    and b: "begun E c k claims s m d s3" "ParseIP ip \<noteq> None" "seen pools s (chosen (seen pools s) (sp_PoolName (pc_Spec c))) \<noteq> None"
      "cidr_view (ce_D E) (seen pools s3) = spec_ensure (cidr_of ip) (chosen (seen pools s) (sp_PoolName (pc_Spec c))) (cidr_view (ce_D E) (seen pools s))"
      "obtained (env_G A) (choose_interface E c) (rt_WanParent (router c)) m ip (seen ag s) (seen ag s3)"
  shows "wp (finish_allocation E d ip) Q s3"
  apply (rule wp_finish [OF C A, where k = k and old = d])
  subgoal using b by (simp add: begun_def)
  subgoal using b by (simp add: begun_def)
  subgoal for e s'
    by (rule Q [unfolded admits_def, THEN conjunct1, rule_format, of s' d]) (use b in \<open>auto simp: abandoned_def begun_def\<close>)
  subgoal for d' s' t cs
    by (rule Q [unfolded admits_def, THEN conjunct2, rule_format, of s' d'])
      (use b ParseIP_Nil in \<open>auto simp: allocated_def assigned_def ready_def begun_def\<close>)
  done

lemma allocate_pool:
  fixes E :: "('f, 'w) ctl_env" and ag :: "'w \<Rightarrow> 'a agent"
  assumes C: "cluster E nm rv claims pools" and A: "agent_at E A other ag" and Q: "admits E (env_G A) c k claims pools ag s Q"
    and ok: "pools_ok (ce_D E) (seen pools s)" and b: "begun E c k claims s m d s3" "ParseIP ip \<noteq> None" "seen pools s3 = seen pools s"
      "obtained (env_G A) (choose_interface E c) (rt_WanParent (router c)) m ip (seen ag s) (seen ag s3)"
  shows "wp (do { r \<leftarrow> ensureIPInPool E (sp_PoolName (pc_Spec c)) ip;
        (case r of Panicked \<Rightarrow> ret ReconcilePanic
         | Returned (Inl e) \<Rightarrow> fail E d (wrapf ''ensure pool'' e)
         | Returned (Inr _) \<Rightarrow> finish_allocation E d ip) }) Q s3"
proof -
  have keep: "frame ag (ensureIPInPool E n' ip)" for n'
    using C A by (auto simp: ensureIPInPool_def cluster_def no_hooks_def intro: frame_with_world keeps_pool(1) agent_quiet)
  have P: "pools_ok (ce_D E) (seen pools s3)" using ok b by simp
  show ?thesis
    unfolding wp_bind
    apply (rule wp_also [OF keep], rule wp_pool_ensure [OF C P]; simp only: outcome.case sum.case; intro impI)
    subgoal by (rule allocate_fails [OF C A Q, where m = m]) (use b in \<open>simp_all add: obtained_not begun_def\<close>)
    subgoal by (rule allocate_finishes [OF C A Q, where m = m]) (use b in \<open>simp_all add: begun_def\<close>)
    done
qed

lemma wp_allocate:
  fixes E :: "('f, 'w) ctl_env" and ag :: "'w \<Rightarrow> 'a agent"
  assumes C: "cluster E nm rv claims pools" and A: "agent_at E A other ag" and ok: "pools_ok (ce_D E) (seen pools s)"
    and k: "claim_key c = k" "seen claims s k = Some c"
    and same: "\<And>e s'. seen (trio claims pools ag) s' = seen (trio claims pools ag) s \<Longrightarrow> Q (Reconciled no_requeue (Some e)) s'"
    and Q: "admits E (env_G A) c k claims pools ag s Q"
  shows "wp (reconcile_allocate E c) Q s"
proof -
  note q = quiet_netD(3) [OF quiet_trio [OF C A]]
  note steps = allocate_fails [OF C A Q] allocate_pool [OF C A Q ok]
  have script: "wp (do { ip \<leftarrow> runRouterScript E d (choose_interface E c) m;
          (case ip of
             Inl e \<Rightarrow> fail E d (wrapf ''router script'' e)
           | Inr ip \<Rightarrow>
               if ParseIP ip = None then fail E d (''invalid IP returned by router: '' @ env_quote (ce_V E) ip)
               else do {
                 r \<leftarrow> ensureIPInPool E (sp_PoolName (pc_Spec d)) ip;
                 (case r of
                    Panicked \<Rightarrow> ret ReconcilePanic
                  | Returned (Inl e) \<Rightarrow> fail E d (wrapf ''ensure pool'' e)
                  | Returned (Inr _) \<Rightarrow> finish_allocation E d ip)
               }) }) Q s2"
    if "begun E c k claims s m d s2" "seen pools s2 = seen pools s" "seen ag s2 = seen ag s"
    for d m and s2 :: "('f, 'w) ctl"
    unfolding wp_bind [of "runRouterScript E d _ _"]
    by (rule wp_script [OF C A]) (use that in \<open>auto simp: obtained_not begun_def intro!: steps [where m = m]\<close>)
  show ?thesis
    unfolding reconcile_allocate_def Let_def wp_bind [of "choose_mac E c"] wp_bind [of "with_world _"]
    apply (rule wp_frame [OF frame_misc(5) [OF q]])
    apply (rule wp_status3 [OF C A, where k = k and old = c])
    apply (use k in \<open>auto simp: claim_defs begun_def wp_return intro!: same script\<close>)
    done
qed

lemma wp_Reconcile_eligible:
  fixes E :: "('f, 'w) ctl_env" and ag :: "'w \<Rightarrow> 'a agent"
  assumes C: "cluster E nm rv claims pools" and A: "agent_at E A other ag" and "pools_ok (ce_D E) (seen pools s)"
    and "seen claims s (ns, n) = Some c" and "eligible (ce_K E) c"
  shows "wp (Reconcile E ns n) (\<lambda>r s'. case r of
      Reconciled q None \<Rightarrow> q = after (60 * minute) \<and> (\<exists>d. seen claims s' = (seen claims s)((ns, n) \<mapsto> d) \<and>
        allocated E (env_G A) c (seen pools s, seen ag s) d (seen pools s', seen ag s'))
    | Reconciled _ (Some _) \<Rightarrow> seen (trio claims pools ag) s' = seen (trio claims pools ag) s \<or>
        (\<exists>d. seen claims s' = (seen claims s)((ns, n) \<mapsto> d) \<and>
           abandoned E (env_G A) c (seen pools s, seen ag s) d (seen pools s', seen ag s'))
    | ReconcilePanic \<Rightarrow> False) s"
    (is "wp _ ?Q s")
proof -
  have get: "frame ag (with_world (k_Get (ce_K E) ns n))"
    using A by (intro frame_with_world) (simp add: agent_at_def quiet_api_def Let_def)
  have go: "wp (reconcile_claim E c) ?Q s1"
    if s1: "seen (trio claims pools ag) s1 = seen (trio claims pools ag) s" and k: "claim_key c = (ns, n)" for s1 :: "('f, 'w) ctl"
  proof -
    have "wp (reconcile_allocate E c) ?Q s1"
      by (rule wp_allocate [OF C A, where k = "(ns, n)"]) (use s1 k assms(3,4) in \<open>auto simp: admits_def\<close>)
    with assms(5) show ?thesis
      by (auto simp: reconcile_claim_def eligible_def settled_def ready_def)
  qed
  show ?thesis
    unfolding Reconcile_def wp_bind
    by (rule wp_also [OF get], rule wp_Get [OF C]) (use assms(4) in \<open>auto simp: wp_return intro!: go\<close>)
qed

lemma sim_agent_at: "agent_at sim_CE sim_E sim_other si_agent"
proof -
  have "quiet_net si_agent sim_CE" "quiet_api si_agent sim_CE" "quiet_pool si_agent sim_CE"
    by (rule sim_quiet_net sim_quiet_others)+
  moreover have "ce_G sim_CE = env_G sim_E" "times_roundtrip (env_G sim_E)"
    by (simp_all add: sim_CE_def sim_env_G sim_times)
  ultimately show ?thesis
    by (auto simp: agent_at_def) (auto simp: sim_CE_def sim_site_H_def at_agent_def wp_def split: prod.split)
qed

lemma sim_claim_fields: "claim_key sim_claim = (''default'', ''web'')" "eligible sim_k8s sim_claim"
  by (simp_all add: sim_claim_def claim_key_def eligible_def settled_def ready_def sim_CE_K sim_status_def missing_field_def sim_spec_def)

lemma sim_claim_stored: "seen sim_claims (sim_ctl sim_claim a) (''default'', ''web'') = Some sim_claim"
  by (rule sim_ctl_claim) (rule sim_claim_fields)

text \<open>The run that the witness is about, evaluated: the claim's interface is created on the router, its
  lease acquired and saved, its address announced and added to the pool.\<close>

lemma sim_allocates:
  "fst (run_state (Reconcile sim_CE ''default'' ''web'') (sim_ctl sim_claim sim_agent)) = Reconciled (after (60 * minute)) None"
  by code_simp

subsection \<open>Verification\<close>

lemma wp_verdicts:
  assumes "quiet_misc f E"
  shows "(\<And>d s'. seen f s' = seen f s \<Longrightarrow> Q (d, Inl e) s') \<Longrightarrow> wp (drifted E ev t r e c) Q s"
    and "(\<And>d s'. seen f s' = seen f s \<Longrightarrow> Q (d, Inr ()) s') \<Longrightarrow> wp (verified E r t c) Q s"
  unfolding drifted_def verified_def wp_bind wp_return
  by (rule wp_frame [OF frame_with_world [OF quiet_miscD(2) [OF assms]]], simp)
    (rule wp_set_condition [OF _ assms], simp)

text \<open>The credentials are there, the tunnel opens, and the agent answers.\<close>

definition reachable :: "('f, 'w) ctl_env \<Rightarrow> bool" where
  "reachable E \<longleftrightarrow>
     (\<forall>ns n w. wp (k_GetSecret (ce_K E) ns n) (\<lambda>r _. \<exists>d key signer. r = Inr d \<and> map_of d ''id_rsa'' = Some key \<and> key \<noteq> [] \<and>
        ce_ParsePrivateKey E key = Inr signer) w) \<and>
     (\<forall>u k a w. wp (ssh_Dial (ce_T E u k) a) (\<lambda>r _. \<not> is_err r) w) \<and>
     (\<forall>u k a w. wp (net_Listen (ce_T E u k) a) (\<lambda>r _. \<not> is_err r) w) \<and>
     (\<forall>c req w. wp (http_Do (ce_H E c) req) (\<lambda>r _. \<not> is_err r) w)"

definition healthy :: "string \<Rightarrow> 'a agent \<Rightarrow> bool" where
  "healthy i a \<longleftrightarrow> (\<exists>l. Get i (ag_store a) = Some l \<and> ls_Status l \<noteq> StatusStale \<and> ls_InterfaceExists l)"

lemma reachable_signer:
  assumes "reachable E" "frame f (signer_of E c)" "\<And>k s'. seen f s' = seen f s \<Longrightarrow> Q (Inr k) s'"
  shows "wp (signer_of E c) Q s"
proof -
  let ?k = "k_GetSecret (ce_K E) ''kube-system'' (rt_SSHSecretRef (router c))" and ?w = "rg_world (ct_reg s)"
  have "wp ?k (\<lambda>r _. \<exists>d key signer. r = Inr d \<and> map_of d ''id_rsa'' = Some key \<and> key \<noteq> [] \<and> ce_ParsePrivateKey E key = Inr signer) ?w"
    using assms(1) by (simp add: reachable_def)
  then have "wp (signer_of E c) (\<lambda>r _. \<exists>k. r = Inr k) s"
    unfolding signer_of_def wp_bind wp_world wp_return by (rule wp_mono) auto
  then have "wp (signer_of E c) (\<lambda>r s'. seen f s' = seen f s \<longrightarrow> Q r s') s"
    by (rule wp_mono) (use assms(3) in auto)
  then show ?thesis by (rule wp_also [OF assms(2)])
qed

lemma reachable_connect:
  assumes "reachable E" "frame f (connect_agent E c k)" "\<And>t s'. seen f s' = seen f s \<Longrightarrow> Q (Inr t) s'"
  shows "wp (connect_agent E c k) Q s"
proof -
  have dial: "wp (ssh_Dial (ce_T E u k) a) (\<lambda>r _. \<not> is_err r) w"
    and listen: "wp (net_Listen (ce_T E u k) a) (\<lambda>r _. \<not> is_err r) w" for u a w
    using assms(1) by (simp_all add: reachable_def)
  have "wp (connect_agent E c k) (\<lambda>r _. \<exists>t. r = Inr t) s"
    unfolding connect_agent_def wp_world NewAgentClient_def wp_bind
    by (rule wp_mono [OF dial], erule not_is_errE, simp add: wp_bind, rule wp_mono [OF listen], erule not_is_errE)
      (simp add: wp_return split_beta)
  then have "wp (connect_agent E c k) (\<lambda>r s'. seen f s' = seen f s \<longrightarrow> Q r s') s"
    by (rule wp_mono) (use assms(3) in auto)
  then show ?thesis by (rule wp_also [OF assms(2)])
qed

lemma reachable_call:
  assumes A: "agent_at E A other ag" and R: "reachable E"
    and ok: "wp (serve A other \<lparr>hq_method = meth, hq_path = path, hq_body = body\<rparr>) (\<lambda>resp a'. Q (k resp) a') (ag w)"
  shows "wp (call (ce_H E c) (NewRequest (ce_H E c) c meth path body) k) (\<lambda>r w'. Q r (ag w')) w"
proof -
  let ?req = "\<lparr>hq_method = meth, hq_path = path, hq_body = body\<rparr>"
  have "wp (http_Do (ce_H E c) ?req) (\<lambda>r w'. case run_state (serve A other ?req) (ag w) of (resp, a') \<Rightarrow>
        (case r of Inr x \<Rightarrow> x = resp \<and> ag w' = a' | Inl _ \<Rightarrow> ag w' \<in> {ag w, a'})) w"
    using A unfolding agent_at_def by blast
  moreover have "wp (http_Do (ce_H E c) ?req) (\<lambda>r w'. \<not> is_err r) w"
    using R by (simp add: reachable_def)
  ultimately have "wp (http_Do (ce_H E c) ?req) (\<lambda>r w'. (case run_state (serve A other ?req) (ag w) of (resp, a') \<Rightarrow>
        (case r of Inr x \<Rightarrow> x = resp \<and> ag w' = a' | Inl _ \<Rightarrow> ag w' \<in> {ag w, a'})) \<and> \<not> is_err r) w"
    by (rule wp_conj)
  then have "wp (http_Do (ce_H E c) ?req) (\<lambda>r w'. Q (case r of Inl e \<Rightarrow> Inl (wrapf ''agent request failed'' e) | Inr x \<Rightarrow> k x) (ag w')) w"
    by (rule wp_mono) (use ok in \<open>auto simp: wp_def split: sum.splits prod.splits\<close>)
  moreover have "NewRequest (ce_H E c) c meth path body = Inr ?req"
    using A by (simp add: NewRequest_def agent_at_def)
  ultimately show ?thesis by (simp add: call_def wp_simps)
qed

text \<open>The agent answers with the lease it holds; a lease that is active and whose interface exists passes.\<close>

lemma wp_verify_healthy:
  assumes A: "agent_at E A other ag" and R: "reachable E" and i: "plain_segment (cs_WanInterface (status c))"
    and n: "counts_ok (ag_store (seen ag s))" and h: "healthy (cs_WanInterface (status c)) (seen ag s)"
  shows "wp (verifyClaimState E c mgr) (\<lambda>(d, v) s'. \<not> is_err v \<and> seen ag s' = seen ag s) s"
proof -
  note q = quiet_netD [OF agent_quiet(1) [OF A]]
  let ?i = "cs_WanInterface (status c)"
  from h obtain l where l: "Get ?i (ag_store (seen ag s)) = Some l" "ls_Status l \<noteq> StatusStale" "ls_InterfaceExists l"
    by (auto simp: healthy_def)
  have G: "ce_G E = env_G A" "times_roundtrip (env_G A)" using A by (simp_all add: agent_at_def)
  have n': "- (2 ^ 63) \<le> ls_RenewalCount l' \<and> ls_RenewalCount l' < 2 ^ 63" if "Get ?i (ag_store (seen ag s)) = Some l'" for l'
    using n that by (auto simp: counts_ok_def Get_def dest!: map_of_SomeD)
  have lease: "wp (GetLease (ce_G E) (ce_H E t) t ?i) (\<lambda>r w'. ag w' = seen ag s \<and> r = Inr (Some (lease_status l))) w"
    if "ag w = seen ag s" for t w
  proof -
    note served = wp_client_GetLease [where a = "seen ag s", OF G(2) i n', where other = other and c = t,
        unfolded GetLease_def wp_call_direct]
    show ?thesis
      unfolding GetLease_def G(1)
      by (rule reachable_call [OF A R, where Q = "\<lambda>r a'. a' = seen ag s \<and> r = Inr (Some (lease_status l))"])
        (simp only: that, rule wp_mono [OF served], simp_all add: l(1))
  qed
  have agent: "wp (verify_agent E c t) (\<lambda>r s'. seen ag s' = seen ag s \<and> (\<exists>d. r = Some (d, Inr ()))) s2"
    if "seen ag s2 = seen ag s" for t s2
    unfolding verify_agent_def wp_bind [of "with_world _"] wp_world
    by (rule wp_mono [OF lease [OF that]])
      (use l(2,3) in \<open>auto simp: wp_simps lease_status_def StatusStale_def intro!: wp_verdicts(2) [OF q(3)]\<close>)
  have ne: "?i \<noteq> []" using i by (simp add: plain_segment_def)
  show ?thesis
    unfolding verifyClaimState_def if_not_P [OF ne] wp_bind
    by (rule reachable_signer [OF R frame_misc(1) [OF q(3)]], simp only: sum.case wp_bind,
        rule reachable_connect [OF R frame_tunnel(1) [OF q(2)]], simp only: sum.case wp_bind, rule wp_mono [OF agent])
      (auto simp: wp_simps intro!: wp_frame [OF frame_tunnel(2) [OF q(2)]])
qed

subsection \<open>Properties\<close>

text \<open>C1: Allocation end to end. When \<^verbatim>\<open>Reconcile\<close> reports success for a claim that is due, the agent holds a new
  active lease for the claim's interface, parent and MAC; the address of that lease is a valid IP, is
  what the claim's status says, and is what the chosen pool gained; the claim is ready and will be checked
  in an hour. When it reports an error, the claim has no new address: either nothing changed anywhere, or the
  claim keeps the interface name and is failed (unless recording that failed too). A panic is impossible
  on well-formed pools.\<close>

theorem allocation_end_to_end:
  fixes E :: "('f, 'w) ctl_env" and ag :: "'w \<Rightarrow> 'a agent"
  assumes C: "cluster E nm rv claims pools" and A: "agent_at E A other ag" and "pools_ok (ce_D E) (seen pools s)"
    and "seen claims s (ns, n) = Some c" and "eligible (ce_K E) c"
  shows "wp (Reconcile E ns n) (\<lambda>r s'. case r of
      Reconciled q None \<Rightarrow> q = after (60 * minute) \<and> (\<exists>d. seen claims s' = (seen claims s)((ns, n) \<mapsto> d) \<and>
        allocated E (env_G A) c (seen pools s, seen ag s) d (seen pools s', seen ag s'))
    | Reconciled _ (Some _) \<Rightarrow> seen (trio claims pools ag) s' = seen (trio claims pools ag) s \<or>
        (\<exists>d. seen claims s' = (seen claims s)((ns, n) \<mapsto> d) \<and>
           abandoned E (env_G A) c (seen pools s, seen ag s) d (seen pools s', seen ag s'))
    | ReconcilePanic \<Rightarrow> False) s"
  using assms by (rule wp_Reconcile_eligible)

theorem allocation_end_to_end_witness:
  "\<exists>s' d. run_state (Reconcile sim_CE ''default'' ''web'') (sim_ctl sim_claim sim_agent) = (Reconciled (after (60 * minute)) None, s') \<and>
     seen sim_claims s' (''default'', ''web'') = Some d \<and>
     allocated sim_CE sim_G sim_claim (sim_pool_map sim_pools1, sim_agent) d (seen sim_pools s', seen si_agent s')"
proof -
  let ?s = "sim_ctl sim_claim sim_agent"
  have el: "eligible (ce_K sim_CE) sim_claim" by (simp add: sim_CE_fields sim_claim_fields)
  obtain r s' where run: "run_state (Reconcile sim_CE ''default'' ''web'') ?s = (r, s')" by fastforce
  with sim_allocates have r: "r = Reconciled (after (60 * minute)) None" by simp
  from wpD [OF allocation_end_to_end [OF sim_cluster sim_agent_at sim_ctl_pools sim_claim_stored el] run] r
  obtain d where "seen sim_claims s' = (seen sim_claims ?s)((''default'', ''web'') \<mapsto> d)"
    "allocated sim_CE sim_G sim_claim (seen sim_pools ?s, seen si_agent ?s) d (seen sim_pools s', seen si_agent s')"
    by (auto simp: sim_env_G)
  with run r show ?thesis by (intro exI [of _ s'] exI [of _ d]) (simp add: sim_ctl_def)
qed

text \<open>C36: A claim cannot get its interface back: while the agent holds a lease for the interface of the claim,
  whatever its state, reconciling a claim that is due reports an error, adds nothing to a pool and gives
  the claim no address. This is what a claim meets after a failed check has made it start over, because starting
  over releases nothing at the agent.\<close>

theorem held_interface_not_reallocated:
  assumes "cluster E nm rv claims pools" and "agent_at E A other ag" and "pools_ok (ce_D E) (seen pools s)"
    and "seen claims s (ns, n) = Some c" and "eligible (ce_K E) c"
    and held: "Get (choose_interface E c) (ag_store (seen ag s)) \<noteq> None"
  shows "wp (Reconcile E ns n) (\<lambda>r s'. (\<exists>q e. r = Reconciled q (Some e)) \<and>
      cidr_view (ce_D E) (seen pools s') = cidr_view (ce_D E) (seen pools s) \<and>
      (\<exists>d. seen claims s' = (seen claims s)((ns, n) \<mapsto> d) \<and> cs_AssignedIP (status d) = cs_AssignedIP (status c) \<and>
         cs_Phase (status d) \<in> {ClaimPhaseFailed, cs_Phase (status c)})) s"
proof -
  have no: "\<not> obtained G (choose_interface E c) p m ip (seen ag s) a" for G p m ip a
    using held by (simp add: obtained_def)
  have same: "seen claims s = (seen claims s)((ns, n) \<mapsto> c)" using assms(4) by auto
  show ?thesis
    by (rule wp_mono [OF wp_Reconcile_eligible [OF assms(1-5)]])
      (use no same in \<open>auto simp: allocated_def abandoned_def split: reconciled.splits option.splits\<close>)
qed

definition sim_taken :: public_ip_claim where
  "sim_taken = sim_claim\<lparr>pc_Spec := sim_spec\<lparr>sp_Router := (sp_Router sim_spec)\<lparr>rt_WanInterface := ''wan0''\<rparr>\<rparr>\<rparr>"

theorem held_interface_not_reallocated_witness:
  "wp (Reconcile sim_CE ''default'' ''web'') (\<lambda>r s'. (\<exists>q e. r = Reconciled q (Some e)) \<and>
      (\<exists>d. seen sim_claims s' (''default'', ''web'') = Some d \<and> cs_AssignedIP (status d) = [])) (sim_ctl sim_taken sim_agent1)"
proof -
  let ?s = "sim_ctl sim_taken sim_agent1"
  have c: "seen sim_claims ?s (''default'', ''web'') = Some sim_taken"
    by (rule sim_ctl_claim) (simp add: sim_taken_def sim_claim_def claim_key_def)
  have el: "eligible (ce_K sim_CE) sim_taken" "cs_AssignedIP (status sim_taken) = []"
    by (simp_all add: sim_CE_fields sim_taken_def sim_claim_def eligible_def settled_def ready_def sim_CE_K sim_status_def
        missing_field_def sim_spec_def)
  have "choose_interface sim_CE sim_taken = ''wan0''"
    by (simp add: choose_interface_def sim_taken_def)
  then have "Get (choose_interface sim_CE sim_taken) (ag_store (seen si_agent ?s)) \<noteq> None"
    using sim_agent1(2) by (simp add: sim_ctl_agent)
  from held_interface_not_reallocated [OF sim_cluster sim_agent_at sim_ctl_pools c el(1) this] el(2)
  show ?thesis by (auto elim!: wp_mono)
qed

text \<open>C9: The periodic check against the agent: when the agent can be reached and holds a lease for the claim's
  interface that is not stale and whose interface exists, a ready claim is left alone: the claims, the
  pools and the agent are as before, and the claim is checked again in an hour (or an API error is
  reported).\<close>

theorem healthy_claim_left_alone:
  fixes E :: "('f, 'w) ctl_env" and ag :: "'w \<Rightarrow> 'a agent"
  assumes C: "cluster E nm rv claims pools" and A: "agent_at E A other ag" and R: "reachable E"
    and "seen claims s (ns, n) = Some c" and "settled (ce_K E) c" and "ready c"
    and i: "plain_segment (cs_WanInterface (status c))"
    and "counts_ok (ag_store (seen ag s))" and "healthy (cs_WanInterface (status c)) (seen ag s)"
  shows "wp (Reconcile E ns n) (\<lambda>r s'. seen (trio claims pools ag) s' = seen (trio claims pools ag) s \<and>
      (r = Reconciled (after (60 * minute)) None \<or> (\<exists>e. r = Reconciled no_requeue (Some e)))) s"
    (is "wp _ ?Q s")
proof -
  note q = quiet_trio [OF C A]
  have get: "frame ag (with_world (k_Get (ce_K E) ns n))"
    using A by (intro frame_with_world) (simp add: agent_at_def quiet_api_def Let_def)
  have verify: "wp (verifyClaimState E d mgr) (\<lambda>(d, v) s'. \<not> is_err v \<and> seen (trio claims pools ag) s' = seen (trio claims pools ag) s) s2"
    if "seen (trio claims pools ag) s2 = seen (trio claims pools ag) s" "sticky c d" for d mgr and s2 :: "('f, 'w) ctl"
  proof -
    have "wp (verifyClaimState E d mgr) (\<lambda>_ s'. seen (both claims pools) s' = seen (both claims pools) s2) s2"
      using frame_verify [OF quiet_both [OF C]] unfolding keeps_def by blast
    moreover have "wp (verifyClaimState E d mgr) (\<lambda>(d, v) s'. \<not> is_err v \<and> seen ag s' = seen ag s2) s2"
      by (rule wp_verify_healthy [OF A R]) (use that assms(7-9) in \<open>simp_all add: sticky_def\<close>)
    ultimately show ?thesis
      by (rule wp_mono [OF wp_conj]) (use that in auto)
  qed
  have manager: "wp (getSSHManager E c) (\<lambda>(d, _) s'. sticky c d \<and> seen (trio claims pools ag) s' = seen (trio claims pools ag) s2) s2"
    for s2 :: "('f, 'w) ctl"
    by (rule wp_also [OF frame_getSSHManager [OF q]], rule wp_mono [OF sticky_getSSHManager]) auto
  have event: "wp (with_world (k_Event (ce_K E) d a b t)) P s2"
    if "\<And>s'. seen (trio claims pools ag) s' = seen (trio claims pools ag) s2 \<Longrightarrow> P () s'" for d a b t P and s2 :: "('f, 'w) ctl"
    by (rule wp_frame [OF frame_with_world [OF quiet_miscD(2) [OF quiet_netD(3) [OF q]]]]) (use that in auto)
  have go: "wp (reconcile_claim E c) ?Q s1"
    if s1: "seen (trio claims pools ag) s1 = seen (trio claims pools ag) s" for s1 :: "('f, 'w) ctl"
  proof -
    have "wp (reconcile_ready E c) ?Q s1"
      unfolding reconcile_ready_def wp_bind [of "getSSHManager E c"]
      by (rule wp_mono [OF manager])
        (use s1 in \<open>auto simp: wp_simps split: sum.split intro!: event wp_mono [OF verify] elim!: not_is_errE\<close>)
    with assms(5,6) show ?thesis by (simp add: reconcile_claim_def settled_def ready_def)
  qed
  show ?thesis
    unfolding Reconcile_def wp_bind
    by (rule wp_also [OF get], rule wp_Get [OF C]) (use assms(4) in \<open>auto simp: wp_return intro!: wp_mono [OF go]\<close>)
qed

definition sim_leased :: public_ip_claim where
  "sim_leased = upd_status (\<lambda>s. s\<lparr>cs_WanInterface := ''wan0''\<rparr>) sim_bound"

lemma sim_reachable: "reachable sim_CE"
  by (auto simp: reachable_def sim_CE_def sim_k8s_def sim_site_T_def sim_site_H_def sim_T_def sim_open_def at_socks_def at_agent_def
      wp_simps)

lemma sim_agent1_lease: "counts_ok (ag_store sim_agent1)" "healthy ''wan0'' sim_agent1"
  unfolding sim_agent1_def
  by (simp_all add: agent_run sim_mac sim_addrs counts_ok_def healthy_def status_defs)

theorem healthy_claim_left_alone_witness:
  "wp (Reconcile sim_CE ''default'' ''web'') (\<lambda>_ s'. seen sim_claims s' (''default'', ''web'') = Some sim_leased \<and>
      seen si_agent s' = sim_agent1) (sim_ctl sim_leased sim_agent1)"
proof -
  have c: "seen sim_claims (sim_ctl sim_leased sim_agent1) (''default'', ''web'') = Some sim_leased"
    by (rule sim_ctl_claim) (simp add: sim_leased_def sim_bound_def sim_claim_def claim_key_def)
  have f: "settled (ce_K sim_CE) sim_leased" "ready sim_leased" "cs_WanInterface (status sim_leased) = ''wan0''"
    by (simp_all add: sim_CE_fields settled_def ready_def sim_leased_def sim_bound_def sim_claim_def sim_CE_K)
  show ?thesis
    by (rule wp_mono [OF healthy_claim_left_alone [OF sim_cluster sim_agent_at sim_reachable c f(1,2)]])
      (use c f(3) sim_agent1_lease sim_segment in \<open>auto simp: sim_ctl_agent\<close>)
qed

end
