(* ===== verification/ControllerState.thy ===== *)
theory ControllerState
  imports SimCluster
begin

text \<open>
  The reconciler's own state and the values it makes up. \<open>tracked\<close> is the invariant of its three maps:
  they have the same claims as keys, and every manager they name exists. The last part is about the names, the MAC addresses and
  the fallback of the periodic check.
\<close>

lemma pres_outcomes [pres_intros]:
  "pres I n \<Longrightarrow> (\<And>x. pres I (l x)) \<Longrightarrow> pres I (case u of Returned x \<Rightarrow> l x | Panicked \<Rightarrow> n)"
  "(\<And>e. pres I (f e)) \<Longrightarrow> (\<And>e. pres I (g e)) \<Longrightarrow> pres I (case a of NotFound e \<Rightarrow> f e | OtherError e \<Rightarrow> g e)"
  by (simp_all split: outcome.split api_error.split)

subsection \<open>The three maps\<close>

definition consistent_at :: "('f, 'w) ctl \<Rightarrow> string \<Rightarrow> bool" where
  "consistent_at s k \<longleftrightarrow> (map_of (ct_sshHandlers s) k = None \<longleftrightarrow> map_of (ct_claimManagers s) k = None) \<and>
     (map_of (ct_routerAssignments s) k = None \<longleftrightarrow> map_of (ct_claimManagers s) k = None)"

definition managers_exist :: "('f, 'w) ctl \<Rightarrow> bool" where
  "managers_exist s \<longleftrightarrow> reg_inv (ct_reg s) \<and>
     (\<forall>k i. map_of (ct_claimManagers s) k = Some i \<longrightarrow> i < length (rg_heap (ct_reg s)))"

definition tracked :: "('f, 'w) ctl \<Rightarrow> bool" where
  "tracked s \<longleftrightarrow> managers_exist s \<and> (\<forall>k. consistent_at s k)"

text \<open>While the claim of key \<open>k\<close> is being moved or forgotten, the others are consistent; \<open>b\<close> bounds the
  managers from below.\<close>

definition moving :: "string \<Rightarrow> nat \<Rightarrow> ('f, 'w) ctl \<Rightarrow> bool" where
  "moving k b s \<longleftrightarrow> managers_exist s \<and> b \<le> length (rg_heap (ct_reg s)) \<and> (\<forall>k'. k' \<noteq> k \<longrightarrow> consistent_at s k')"

lemmas track_defs = tracked_def moving_def managers_exist_def consistent_at_def

text \<open>The invariant of the registry depends on its entries and on how many managers there are.\<close>

lemma reg_inv_cong: "rg_managers s' = rg_managers s \<Longrightarrow> length (rg_heap s') = length (rg_heap s) \<Longrightarrow> reg_inv s' = reg_inv s"
  by (simp add: reg_inv_def find_mgr_def)

lemma reg_inv_Remove: "reg_inv s \<Longrightarrow> reg_inv (s\<lparr>rg_managers := AList.delete a (rg_managers s)\<rparr>)"
proof -
  let ?s = "s\<lparr>rg_managers := AList.delete a (rg_managers s)\<rparr>"
  have "set (registered ?s) \<subseteq> set (registered s)"
    unfolding reg_ids_def by (auto simp: AList.delete_eq)
  moreover have "find_mgr ?s b k = (if b = a then None else find_mgr s b k)" for b k
    by (auto simp: find_mgr_def entries_at_def)
  ultimately show "reg_inv s \<Longrightarrow> reg_inv ?s"
    unfolding reg_inv_def by auto
qed

lemma pres_with_world [pres_intros]: "pres tracked (with_world m)" "pres (moving k b) (with_world m)"
  unfolding with_world_def with_reg_def
  by (simp_all add: pres_def wp_zoom track_defs reg_inv_cong [of "_\<lparr>rg_world := _\<rparr>"])

lemma pres_on_manager [pres_intros]: "pres tracked (on_manager i m)" "pres (moving k b) (on_manager i m)"
  unfolding on_manager_def with_reg_def with_mgr_def
  by (simp_all add: pres_def wp_zoom track_defs reg_inv_cong [of "_\<lparr>rg_heap := _, rg_world := _\<rparr>"])

lemma pres_Remove [pres_intros]: "pres tracked (with_reg (Remove a))" "pres (moving k b) (with_reg (Remove a))"
  unfolding with_reg_def Remove_def by (auto simp: pres_def wp_simps track_defs reg_inv_Remove)

lemma wp_manager_for:
  assumes "tracked s" "\<And>e s'. tracked s' \<Longrightarrow> Q (Inl e) s'" "\<And>i s'. tracked s' \<Longrightarrow> moving k (Suc i) s' \<Longrightarrow> Q (Inr i) s'"
  shows "wp (with_reg (GetOrCreate V cfg)) Q s"
proof -
  have inv: "reg_inv (ct_reg s)" using assms(1) by (simp add: track_defs)
  have bound: "i < length (rg_heap (ct_reg s))" if "find_mgr (ct_reg s) a k' = Some i" for a k' i
    using find_registered [OF that] inv by (simp add: reg_inv_def)
  show ?thesis
    unfolding with_reg_def wp_zoom
    by (rule wp_mono [OF wp_GetOrCreate [OF inv]])
      (use assms(1) bound in \<open>fastforce simp: created_mgr_def track_defs less_Suc_eq Suc_le_eq split: sum.splits
        intro!: assms(2,3)\<close>)
qed

lemma tracked_moving: "tracked s \<Longrightarrow> b \<le> length (rg_heap (ct_reg s)) \<Longrightarrow> moving k b s"
  by (simp add: track_defs)

lemma pres_delete [pres_intros]:
  "pres (moving k b) (modify (\<lambda>s. s\<lparr>ct_sshHandlers := AList.delete k (ct_sshHandlers s)\<rparr>))"
  "pres (moving k b) (modify (\<lambda>s. s\<lparr>ct_claimManagers := AList.delete k (ct_claimManagers s)\<rparr>))"
  "pres (moving k b) (modify (\<lambda>s. s\<lparr>ct_routerAssignments := AList.delete k (ct_routerAssignments s)\<rparr>))"
  "pres (moving k b) (modify (\<lambda>s. s\<lparr>ct_sshHandlers := AList.update k h (ct_sshHandlers s)\<rparr>))"
  by (auto simp: track_defs intro!: pres_modify)

lemma pres_move: "pres (moving k b) (move_claim E k a)"
  unfolding move_claim_def by (intro pres_intros)

lemma pres_start: "pres tracked (start_manager E i)" "pres (moving k b) (start_manager E i)"
  unfolding start_manager_def by (intro pres_intros)+

lemma pres_signer: "pres tracked (signer_of E c)"
  unfolding signer_of_def by (intro pres_intros)

lemma pres_register: "pres (moving (handler_key c) b) (register_claim c i)"
  unfolding register_claim_def by (intro pres_intros)

lemma registered_handler: "wp (register_claim c i) (\<lambda>_ s'. map_of (ct_sshHandlers s') (handler_key c) \<noteq> None) s"
  unfolding register_claim_def on_manager_def with_reg_def with_mgr_def
  by (auto simp: wp_simps split: option.split prod.split)

text \<open>The last part of \<^verbatim>\<open>getSSHManager\<close>: the claim is moved, registered and recorded.\<close>

lemma wp_track_claim:
  assumes "moving (handler_key c) (Suc i) s" "\<And>s'. tracked s' \<Longrightarrow> Q s'"
  shows "wp (do {
      _ \<leftarrow> move_claim E (handler_key c) a;
      _ \<leftarrow> register_claim c i;
      _ \<leftarrow> modify (\<lambda>s. s\<lparr>ct_claimManagers := AList.update (handler_key c) i (ct_claimManagers s)\<rparr>);
      _ \<leftarrow> modify (\<lambda>s. s\<lparr>ct_routerAssignments := AList.update (handler_key c) a (ct_routerAssignments s)\<rparr>);
      ret x }) (\<lambda>_. Q) s"
proof -
  have reg: "wp (register_claim c i) (\<lambda>_ s'. moving (handler_key c) (Suc i) s' \<and> map_of (ct_sshHandlers s') (handler_key c) \<noteq> None) s1"
    if "moving (handler_key c) (Suc i) s1" for s1
    by (rule wp_mono [OF wp_conj [OF registered_handler [of c i s1] presD [OF pres_register that]]]) auto
  show ?thesis
    unfolding wp_bind wp_modify wp_return
    by (rule wp_pres [OF pres_move assms(1)], rule wp_mono [OF reg]) (auto simp: track_defs intro!: assms(2))
qed

lemma pres_getSSHManager: "pres tracked (getSSHManager E c)"
  unfolding pres_def
proof (intro allI impI)
  fix s :: "('a, 'b) ctl"
  assume s: "tracked s"
  let ?c = "\<lambda>conn. upd_status (\<lambda>st. st\<lparr>cs_ConnectionState := conn\<rparr>) c"
  have k: "handler_key (?c conn) = handler_key c" "router_addr (?c conn) = router_addr c" for conn
    by (simp_all add: handler_key_def router_addr_def)
  have cr: "register_claim (?c conn) i = register_claim c i" for conn i
    unfolding register_claim_def k by simp
  note track = wp_track_claim [where c = c and Q = tracked]
  show "wp (getSSHManager E c) (\<lambda>_. tracked) s"
    unfolding getSSHManager_def Let_def k cr
    by (auto simp: wp_simps(1,2,3) s split: sum.split
        intro!: wp_pres [OF pres_signer s] wp_manager_for [where k = "handler_key c"] wp_pres [OF pres_start(2)]
          track [unfolded wp_bind wp_return])
qed

lemma pres_forget: "pres tracked (forget_claim E c)"
  unfolding pres_def
proof (intro allI impI)
  fix s :: "('a, 'b) ctl"
  assume s: "tracked s"
  let ?k = "handler_key c"
  have finish: "wp (do {
      _ \<leftarrow> modify (\<lambda>s. s\<lparr>ct_routerAssignments := AList.delete ?k (ct_routerAssignments s)\<rparr>);
      _ \<leftarrow> modify (\<lambda>s. s\<lparr>ct_claimManagers := AList.delete ?k (ct_claimManagers s)\<rparr>);
      m }) (\<lambda>_. tracked) s1"
    if "moving ?k 0 s1" "map_of (ct_sshHandlers s1) ?k = None" "pres tracked m" for s1 m
    unfolding wp_bind wp_modify by (rule wp_pres [OF that(3)]) (use that(1,2) in \<open>auto simp: track_defs\<close>)
  have unregister: "wp (case map_of (ct_sshHandlers s) ?k of None \<Rightarrow> ret () | Some hid \<Rightarrow> do {
        _ \<leftarrow> (case mgr of None \<Rightarrow> ret () | Some i \<Rightarrow> on_manager i (on_mgr (UnregisterHandler hid)));
        modify (\<lambda>s. s\<lparr>ct_sshHandlers := AList.delete ?k (ct_sshHandlers s)\<rparr>) })
      (\<lambda>_ s1. moving ?k 0 s1 \<and> map_of (ct_sshHandlers s1) ?k = None) s" for mgr
  proof (cases "map_of (ct_sshHandlers s) ?k")
    case None
    with s show ?thesis by (simp add: wp_simps tracked_moving)
  next
    case (Some hid)
    have "pres (moving ?k 0) (case mgr of None \<Rightarrow> ret () | Some i \<Rightarrow> on_manager i (on_mgr (UnregisterHandler hid)))"
      by (intro pres_intros)
    from wp_pres [OF this tracked_moving [OF s]] show ?thesis
      unfolding Some option.case wp_bind wp_modify
      by (auto simp: track_defs)
  qed
  show "wp (forget_claim E c) (\<lambda>_. tracked) s"
    unfolding forget_claim_def Let_def wp_bind [of "gets _"] wp_gets
    apply (subst wp_bind, rule wp_mono [OF unregister])
    apply (rule finish; (elim conjE; assumption)?)
    apply (intro pres_intros)
    done
qed

lemma pres_agent: "pres tracked (connect_agent E c k)" "pres tracked (close_agent E c k t)"
  unfolding connect_agent_def close_agent_def by (intro pres_intros)+

lemma pres_reports: "pres tracked (drifted E ev t r e c)" "pres tracked (verified E r t c)" "pres tracked (set_condition E ty st r t c)"
  unfolding drifted_def verified_def set_condition_def by (intro pres_intros)+

lemma pres_ask: "pres tracked q \<Longrightarrow> (\<And>c. pres tracked (no c)) \<Longrightarrow> (\<And>c. pres tracked (yes c)) \<Longrightarrow> pres tracked (ask E q what no yes c)"
  unfolding ask_def by (intro pres_intros)

lemma pres_verify: "pres tracked (verifyClaimState E c i)"
  unfolding verifyClaimState_def verify_agent_def verify_ssh_def
  by (intro pres_intros pres_signer pres_agent pres_ask pres_reports)

lemma pres_hooks:
  "pres tracked (runRouterScript E c i m)" "pres tracked (ensureIPInPool E n ip)" "pres tracked (removeIPFromPool E n ip)"
  "pres tracked (cleanupRouterInterface E c)" "pres tracked (choose_mac E c)"
  unfolding runRouterScript_def defaultRunRouterScript_def ensureIPInPool_def removeIPFromPool_def cleanupRouterInterface_def
    defaultCleanupRouterInterface_def choose_mac_def
  by (intro pres_intros pres_signer pres_agent pres_forget)+

lemma pres_updates: "pres tracked (fail E c e)" "pres tracked (remove_finalizer E c)" "pres tracked (add_finalizer E c)"
  "pres tracked (clear_annotations E c)" "pres tracked (finish_allocation E c ip)" "pres tracked (reprovision E c e)"
  unfolding fail_def remove_finalizer_def add_finalizer_def clear_annotations_def finish_allocation_def reprovision_def
  by (intro pres_intros pres_reports pres_hooks)+

lemma pres_Reconcile: "pres tracked (Reconcile E ns n)"
  unfolding Reconcile_def reconcile_claim_def reconcile_deletion_def reconcile_event_def reconcile_ready_def reconcile_allocate_def
  by (intro pres_intros pres_updates pres_hooks pres_verify pres_getSSHManager)

lemma pres_handle_event: "pres tracked (handle_event E h ev)"
  unfolding handle_event_def by (intro pres_intros)

subsection \<open>Runs\<close>

text \<open>A run of the reconciler: calls of \<^verbatim>\<open>Reconcile\<close> and of its event handlers in any order, and between
  them anything the managers' goroutines and the rest of the world do.\<close>

inductive cstep :: "('f, 'w) ctl_env \<Rightarrow> ('f, 'w) ctl \<Rightarrow> ('f, 'w) ctl \<Rightarrow> bool" for E where
  reconcile: "run_state (Reconcile E ns n) s = (r, s') \<Longrightarrow> cstep E s s'"
| event: "run_state (handle_event E h ev) s = (u, s') \<Longrightarrow> cstep E s s'"
| goroutine: "run_state (on_manager i m) s = ((), s') \<Longrightarrow> cstep E s s'"
| elsewhere: "run_state (with_world m) s = ((), s') \<Longrightarrow> cstep E s s'"

inductive_cases cstepE: "cstep E s s'"

definition fresh_ctl :: "('f, 'w) ctl \<Rightarrow> bool" where
  "fresh_ctl s \<longleftrightarrow> ct_sshHandlers s = [] \<and> ct_claimManagers s = [] \<and> ct_routerAssignments s = [] \<and> rg_managers (ct_reg s) = []"

lemma fresh_tracked: "fresh_ctl s \<Longrightarrow> tracked s"
  by (simp add: fresh_ctl_def track_defs reg_inv_def reg_ids_def find_mgr_def entries_at_def)

lemma cstep_tracked: "cstep E s s' \<Longrightarrow> tracked s \<Longrightarrow> tracked s'"
  by (elim cstepE) (auto elim: pres_step [OF pres_Reconcile] pres_step [OF pres_handle_event]
      pres_step [OF pres_on_manager(1)] pres_step [OF pres_with_world(1)])

text \<open>C16: The reconciler's bookkeeping is consistent in every run: the three maps always track the same claims,
  every manager they or the registry name exists, and the registry holds no manager twice, whatever
  reconciliations, events and goroutines come in whatever order and whichever calls fail.\<close>

theorem bookkeeping_consistent:
  assumes "(cstep E)\<^sup>*\<^sup>* s0 s" and "fresh_ctl s0"
  shows "tracked s"
  using assms(1)
proof (induction rule: rtranclp_induct)
  case base
  show ?case using assms(2) by (rule fresh_tracked)
next
  case (step s1 s2)
  then show ?case by (blast intro: cstep_tracked)
qed

theorem bookkeeping_consistent_witness:
  "tracked (snd (run_state (Reconcile sim_CE ''default'' ''web'') (sim_ctl sim_bound sim_agent)))"
proof -
  let ?s = "sim_ctl sim_bound sim_agent"
  have "(cstep sim_CE)\<^sup>*\<^sup>* ?s (snd (run_state (Reconcile sim_CE ''default'' ''web'') ?s))"
    by (intro r_into_rtranclp cstep.reconcile [where r = "fst (run_state (Reconcile sim_CE ''default'' ''web'') ?s)"]) simp
  moreover have "fresh_ctl ?s" by (simp add: fresh_ctl_def sim_ctl_def)
  ultimately show ?thesis by (rule bookkeeping_consistent)
qed

subsection \<open>Names and addresses\<close>

lemma sane_char: "sane_rune r \<Longrightarrow> r < 256"
  by (auto simp: sane_rune_def)

lemma char_45: "char_of (45 :: nat) = CHR ''-''"
  by code_simp

lemma sanitizeName_chars:
  assumes "ch \<in> set (sanitizeName u name)"
  shows "iface_char ch \<and> plain_char ch"
proof -
  let ?f = "\<lambda>r. if sane_rune r then char_of r else CHR ''-''"
  from assms have "ch \<in> set (map ?f (ToLower u (runes name)))"
    by (auto simp: sanitizeName_def Let_def split: if_splits dest: in_set_takeD)
  then obtain r where "ch = ?f r" unfolding set_map by (elim imageE)
  then consider "ch = CHR ''-''" | "ch = char_of r" "sane_rune r" by (auto split: if_splits)
  then show ?thesis
  proof cases
    case 2
    then have "of_char ch = r" using sane_char by (simp add: of_char_of)
    moreover have "r = 45 \<Longrightarrow> ch = CHR ''-''" using 2(1) by (simp add: char_45)
    ultimately show ?thesis using 2(2) by (auto simp: iface_char_def plain_char_def sane_rune_def)
  qed (simp add: iface_char_def plain_char_def)
qed

lemma list5E:
  assumes "length p = 5"
  obtains a b c d e where "p = [a, b, c, d, e]"
  using assms by (auto simp: numeral_eq_Suc length_Suc_conv)

lemma fmt_two: "fmt_02x 2 = ''02''"
  by code_simp

lemma generateUniqueMAC_String: "length buf = 5 \<Longrightarrow> generateUniqueMAC buf = HardwareAddr_String (2 # buf)"
  by (elim list5E) (simp add: generateUniqueMAC_def HardwareAddr_String_def upt_rec fmt_two)

text \<open>C21: What the reconciler makes up is acceptable everywhere: for every claim name the default interface name
  fits the kernel's 15 characters, passes the validation of the SSH commands and is a path element of
  the agent's routes; every five random bytes give a MAC address that parses, is locally administered, is
  not a multicast address, and has the random bytes as its last five.\<close>

theorem generated_names_valid:
  assumes "length buf = 5"
  shows "length (''wan-'' @ sanitizeName u name) \<le> 15 \<and> ifaceNamePattern (''wan-'' @ sanitizeName u name) \<and>
     plain_segment (''wan-'' @ sanitizeName u name) \<and>
     (\<exists>m. ParseMAC (generateUniqueMAC buf) = Some m \<and> length m = 6 \<and> bit (hd m) 1 \<and> \<not> bit (hd m) 0 \<and> tl m = buf)"
proof -
  have "length (sanitizeName u name) \<le> 10"
    by (simp add: sanitizeName_def Let_def)
  moreover have "list_all iface_char (sanitizeName u name)" "list_all plain_char (sanitizeName u name)"
    using sanitizeName_chars by (auto simp: list_all_iff)
  moreover have "ParseMAC (generateUniqueMAC buf) = Some (2 # buf)"
    using assms unfolding generateUniqueMAC_String [OF assms] by (elim list5E) (simp add: ParseMAC_String6)
  moreover have "bit (2 :: byte) 1" "\<not> bit (2 :: byte) 0"
    by simp_all
  ultimately show ?thesis
    using assms by (simp add: ifaceNamePattern_def plain_segment_def iface_char_def plain_char_def)
qed

theorem generated_names_valid_witness:
  "ifaceNamePattern (''wan-'' @ sanitizeName id ''My_Claim.example'') \<and>
   (\<exists>m. ParseMAC (generateUniqueMAC [222, 173, 190, 239, 0]) = Some m \<and> bit (hd m) 1)"
  using generated_names_valid [of "[222, 173, 190, 239, 0]" id "''My_Claim.example''"] by auto

text \<open>Only ten characters of the claim's name are used, and the namespace is not: claims whose names begin alike
  want the same interface.\<close>

lemma default_names_collide: "sanitizeName id ''customer-alpha'' = sanitizeName id ''customer-acme''"
  by code_simp

subsection \<open>The fallback of the periodic check\<close>

text \<open>C38: The fallback cannot pass on a router whose leases the agent holds: the agent is its own DHCP client, so
  no process \<^verbatim>\<open>udhcpc\<close> runs there, and when the question for it is not answered yes the check over SSH
  always fails, however healthy interface and lease are.\<close>

theorem fallback_needs_udhcpc:
  fixes E :: "('f, 'w) ctl_env"
  assumes "\<And>s :: ('f, 'w) ctl. wp (on_manager i (IsUdhcpcRunning (env_L (ce_V E)))) (\<lambda>r _. r \<noteq> Inr True) s"
  shows "wp (verify_ssh E c i) (\<lambda>(_, v) _. is_err v) s"
proof -
  have bad: "wp (drifted E ev t r e c) (\<lambda>(_, v) _. is_err v) s" for ev t r e c and s :: "('f, 'w) ctl"
    unfolding drifted_def wp_bind by (rule wp_any) (simp add: wp_simps)
  have stop: "wp (ask E (on_manager i (IsUdhcpcRunning (env_L (ce_V E)))) what no yes c) (\<lambda>(_, v) _. is_err v) s"
    if "\<And>c s. wp (no c) (\<lambda>(_, v) _. is_err v) s" for what no yes c and s :: "('f, 'w) ctl"
    unfolding ask_def wp_bind by (rule wp_mono [OF assms]) (auto simp: wp_return that split: sum.split)
  have skip: "wp (ask E q what no yes c) (\<lambda>(_, v) _. is_err v) s"
    if "\<And>c s. wp (no c) (\<lambda>(_, v) _. is_err v) s" "\<And>c s. wp (yes c) (\<lambda>(_, v) _. is_err v) s" for q what no yes c and s :: "('f, 'w) ctl"
    unfolding ask_def wp_bind by (rule wp_any) (auto simp: wp_return that split: sum.split)
  show ?thesis
    unfolding verify_ssh_def Let_def wp_bind
    by (rule wp_any) (auto simp: wp_return split: sum.split intro!: bad skip stop)
qed

theorem fallback_needs_udhcpc_witness:
  "wp (verify_ssh sim_CE sim_bound 0) (\<lambda>(_, v) _. is_err v) (sim_ctl sim_bound sim_agent)"
proof (rule fallback_needs_udhcpc)
  fix s :: "(int, sim_site) ctl"
  have "\<not> Contains ''42 17'' ''true''" by code_simp
  then show "wp (on_manager 0 (IsUdhcpcRunning (env_L (ce_V sim_CE)))) (\<lambda>r _. r \<noteq> Inr True) s"
    by (auto simp: on_manager_def with_reg_def with_mgr_def IsUdhcpcRunning_def RunCommand_def sim_CE_def sim_site_L_def in_world_def
        wp_simps split: sum.splits option.splits)
qed

end
