(* ===== verification/AgentThreads.thy ===== *)
theory AgentThreads
  imports Agent
begin

text \<open>
  The agent's handlers and renewal goroutines interleaved. They share the lease store, the map
  \<^verbatim>\<open>renewalCancels\<close> and the kernel; \<open>astep\<close> is one atomic action of any of them, as the locks \<^verbatim>\<open>mu\<close> and
  \<^verbatim>\<open>renewalMu\<close> delimit them: a method of the store, a call to the outside, starting and stopping a
  goroutine, the end of a goroutine's turn, its exit. Every execution of handlers and goroutines is a
  sequence of such steps. The invariant holds in all of them; the two theorems after it show what
  the interleaving of a release with a renewal does to the lease.
\<close>

subsection \<open>Steps\<close>

inductive astep :: "'w agent \<Rightarrow> 'w agent \<Rightarrow> bool" where
  memory: "run_state (on_store m) a = ((), a') \<Longrightarrow> astep a a'"
| outside: "run_state (on_world m) a = ((), a') \<Longrightarrow> astep a a'"
| start: "run_state (startRenewalLoop l) a = ((), a') \<Longrightarrow> astep a a'"
| stop: "run_state (stopRenewalLoop i) a = ((), a') \<Longrightarrow> astep a a'"
| turn: "map_of (ag_loops a) g = Some rl \<Longrightarrow> same_identity (rl_lease rl) (rl_lease rl') \<Longrightarrow> rl_cancelled rl' = rl_cancelled rl \<Longrightarrow>
    astep a (a\<lparr>ag_loops := AList.map_entry g (\<lambda>_. rl') (ag_loops a)\<rparr>)"
| exit: "map_of (ag_loops a) g = Some rl \<Longrightarrow> rl_cancelled rl \<or> ag_shutdown a \<Longrightarrow> run_state (renewal_exit g) a = ((), a') \<Longrightarrow> astep a a'"
| shutdown: "run_state Shutdown a = (r, a') \<Longrightarrow> astep a a'"

inductive_cases astepE: "astep a a'"

definition ids_ok :: "(nat \<times> renewal_loop) list \<Rightarrow> nat \<Rightarrow> bool" where
  "ids_ok loops n \<longleftrightarrow> distinct (map fst loops) \<and> (\<forall>g \<in> fst ` set loops. g < n)"

definition cancels_ok :: "(string \<rightharpoonup> nat) \<Rightarrow> (nat \<rightharpoonup> renewal_loop) \<Rightarrow> bool" where
  "cancels_ok cancels loops \<longleftrightarrow> (\<forall>i g. cancels i = Some g \<longrightarrow>
     (\<exists>rl. loops g = Some rl \<and> ls_Interface (rl_lease rl) = i \<and> \<not> rl_cancelled rl))"

definition goroutines_ok :: "'w agent \<Rightarrow> bool" where
  "goroutines_ok a \<longleftrightarrow> ids_ok (ag_loops a) (ag_next a) \<and> cancels_ok (map_of (ag_cancels a)) (map_of (ag_loops a))"

lemma map_of_map_entry [simp]: "map_of (AList.map_entry k f m) = (map_of m)(k := map_option f (map_of m k))"
  by (induction m) (auto simp: fun_eq_iff)

lemma cancels_ok_mono:
  assumes "cancels_ok c l"
    and "\<And>i g rl. c' i = Some g \<Longrightarrow> c i \<noteq> Some g \<Longrightarrow> \<exists>rl. l' g = Some rl \<and> ls_Interface (rl_lease rl) = i \<and> \<not> rl_cancelled rl"
    and "\<And>i g rl. c' i = Some g \<Longrightarrow> c i = Some g \<Longrightarrow> l g = Some rl \<Longrightarrow> ls_Interface (rl_lease rl) = i \<Longrightarrow> \<not> rl_cancelled rl \<Longrightarrow>
      \<exists>rl'. l' g = Some rl' \<and> ls_Interface (rl_lease rl') = i \<and> \<not> rl_cancelled rl'"
  shows "cancels_ok c' l'"
  using assms unfolding cancels_ok_def by meson

lemma cancels_ok_inj: "cancels_ok c l \<Longrightarrow> c i = Some g \<Longrightarrow> c j = Some g \<Longrightarrow> i = j"
  unfolding cancels_ok_def by (metis option.inject)

lemma ids_ok_simps:
  "ids_ok ((n, rl) # loops) (Suc n) = ids_ok loops n" if "map_of loops n = None" for loops
  using that by (auto simp: ids_ok_def map_of_eq_None_iff less_Suc_eq) 

lemma ids_ok_updates: "ids_ok loops n \<Longrightarrow> ids_ok (AList.map_entry g f loops) n" "ids_ok loops n \<Longrightarrow> ids_ok (AList.delete g loops) n"
proof -
  have "map fst (AList.map_entry g f loops) = map fst loops" by (induction loops) auto
  then show "ids_ok loops n \<Longrightarrow> ids_ok (AList.map_entry g f loops) n"
    unfolding ids_ok_def by (metis list.set_map)
qed (auto simp: ids_ok_def fst_set_delete distinct_delete)

lemma ids_ok_fresh: "ids_ok loops n \<Longrightarrow> map_of loops n = None"
  unfolding ids_ok_def map_of_eq_None_iff by blast

lemma ok_start: "goroutines_ok a \<Longrightarrow> run_state (startRenewalLoop l) a = ((), a') \<Longrightarrow> goroutines_ok a'"
  using ids_ok_fresh [of "ag_loops a" "ag_next a"]
  by (auto simp: startRenewalLoop_def goroutines_ok_def ids_ok_simps split: if_splits elim!: cancels_ok_mono)

lemma ok_stop:
  assumes "goroutines_ok a" "run_state (stopRenewalLoop i) a = ((), a')"
  shows "goroutines_ok a'"
proof (cases "map_of (ag_cancels a) i")
  case (Some g)
  have c: "cancels_ok (map_of (ag_cancels a)) (map_of (ag_loops a))" "ids_ok (ag_loops a) (ag_next a)"
    using assms(1) by (simp_all add: goroutines_ok_def)
  have other: "h \<noteq> g" if "map_of (ag_cancels a) j = Some h" "j \<noteq> i" for j h
    using cancels_ok_inj [OF c(1) Some] that by blast
  have "cancels_ok ((map_of (ag_cancels a))(i := None)) ((map_of (ag_loops a))(g := map_option (\<lambda>rl. rl\<lparr>rl_cancelled := True\<rparr>) (map_of (ag_loops a) g)))"
    by (rule cancels_ok_mono [OF c(1)]) (auto split: if_splits dest: other)
  with Some c(2) assms(2) show ?thesis
    by (auto simp: stopRenewalLoop_def goroutines_ok_def ids_ok_updates)
qed (use assms in \<open>simp add: stopRenewalLoop_def\<close>)

lemma ok_exit: "goroutines_ok a \<Longrightarrow> run_state (renewal_exit g) a = ((), a') \<Longrightarrow> goroutines_ok a'"
  unfolding goroutines_ok_def renewal_exit_def
  by (cases "map_of (ag_loops a) g")
    (auto simp: ids_ok_updates split: if_splits elim!: cancels_ok_mono)

lemma ok_turn: "goroutines_ok a \<Longrightarrow> map_of (ag_loops a) g = Some rl \<Longrightarrow> same_identity (rl_lease rl) (rl_lease rl') \<Longrightarrow>
    rl_cancelled rl' = rl_cancelled rl \<Longrightarrow> goroutines_ok (a\<lparr>ag_loops := AList.map_entry g (\<lambda>_. rl') (ag_loops a)\<rparr>)"
  by (auto simp: goroutines_ok_def ids_ok_updates same_identity_def split: if_splits elim!: cancels_ok_mono)

lemma ok_elsewhere: "goroutines_ok (a\<lparr>ag_store := s\<rparr>) = goroutines_ok a" "goroutines_ok (a\<lparr>ag_world := w\<rparr>) = goroutines_ok a"
  "goroutines_ok (a\<lparr>ag_shutdown := b\<rparr>) = goroutines_ok a"
  by (simp_all add: goroutines_ok_def)

lemma astep_ok: "astep a a' \<Longrightarrow> goroutines_ok a \<Longrightarrow> goroutines_ok a'"
  by (erule astepE) (auto simp: on_store_def on_world_def Shutdown_def ok_elsewhere
      intro: ok_start ok_stop ok_exit ok_turn split: prod.splits)

subsection \<open>Properties\<close>



text \<open>C39: A renewal that is under way when its lease is released brings the lease back: the release cancels the
  goroutine's context, so both exchanges of the renewal fail, and what the goroutine does then is to store
  the lease again, as stale. The interface is gone, but every later allocation of it is answered 409.\<close>

theorem renewal_revives_released_lease:
  assumes "rl_lease rl = l" and "ls_Interface l = i" and "i \<notin> set (st_inflight (ag_store a))"
    and "LeaseRequest_decode body = Some req" and "rq_Interface req = i" and "i \<noteq> []" and "rq_WanParent req \<noteq> []"
    and "ParseMAC (rq_MACAddress req) = Some m"
  shows "wp (do { _ \<leftarrow> handleReleaseLease E i; _ \<leftarrow> renewal_finish E rl (Inl e, l); handleAllocateLease E body })
     (\<lambda>r a'. resp_status r = StatusConflict \<and> Get i (ag_store a') = Some (l\<lparr>ls_Status := StatusStale\<rparr>)) a"
proof -
  have mac: "rq_MACAddress req \<noteq> []" using assms(8) by (auto simp: ParseMAC_def)
  have alloc: "wp (handleAllocateLease E body) (\<lambda>r a'. resp_status r = StatusConflict \<and> Get i (ag_store a') = Some l') b"
    if "i \<notin> set (st_inflight (ag_store b))" "Get i (ag_store b) = Some l'" for b l'
    using that assms(4-8) mac
    by (simp add: handleAllocateLease_def on_store_def AcquireInflight_def ReleaseInflight_def allocate_locked_def wp_simps
        sendError_def Get_def)
  have store: "wp (renewal_finish E rl (Inl e, l)) (\<lambda>_ a'. set (st_inflight (ag_store a')) = set (st_inflight (ag_store b)) \<and>
      Get i (ag_store a') = Some (l\<lparr>ls_Status := StatusStale\<rparr>)) b" for b
    unfolding renewal_finish_def prod.case sum.case Let_def wp_bind wp_return
    by (rule wp_on_store_Set) (use assms(2) in \<open>auto simp: saved_as_def Get_def\<close>)
  show ?thesis
    unfolding wp_bind
    by (rule wp_mono [OF release_restores_locks], rule wp_mono [OF store], rule alloc) (use assms(3) in auto)
qed

theorem renewal_revives_released_lease_witness:
  "wp (do { _ \<leftarrow> handleReleaseLease sim_E ''wan0''; _ \<leftarrow> renewal_finish sim_E (loop_of sim_lease) (Inl ''context canceled'', sim_lease);
        handleAllocateLease sim_E sim_request })
     (\<lambda>r a'. resp_status r = StatusConflict) sim_agent1"
proof -
  have "ls_Interface sim_lease = ''wan0''" by (simp add: sim_lease_def)
  from wp_mono [OF renewal_revives_released_lease [OF _ this, of "loop_of sim_lease" sim_agent1 sim_request
      "\<lparr>rq_Interface = ''wan0'', rq_WanParent = ''eth8'', rq_MACAddress = ''02:00:00:00:00:01''\<rparr>" _ sim_E "''context canceled''"]]
  show ?thesis
    using sim_mac sim_agent1(3) by (simp add: loop_of_def sim_request_def LeaseRequest_roundtrip)
qed

text \<open>C40: A goroutine that exits late orphans its successor: after a release and a new allocation of the same
  interface, the deferred call of the old goroutine deletes the new goroutine's entry of \<^verbatim>\<open>renewalCancels\<close>. The
  next release then removes the lease and leaves the new goroutine running and uncancelled.\<close>

theorem late_exit_orphans_goroutine:
  assumes "map_of (ag_loops a) g = Some old" and "ls_Interface (rl_lease old) = i"
    and "map_of (ag_loops a) h = Some rl" and "g \<noteq> h" and "\<not> rl_cancelled rl"
    and "store_wf (ag_store a)" and "Get i (ag_store a) \<noteq> None" and "i \<notin> set (st_inflight (ag_store a))"
  shows "wp (do { _ \<leftarrow> renewal_exit g; handleReleaseLease E i })
     (\<lambda>r a'. Get i (ag_store a') = None \<and> map_of (ag_loops a') h = Some rl \<and> \<not> rl_cancelled rl) a"
proof -
  let ?b = "a\<lparr>ag_cancels := AList.delete i (ag_cancels a), ag_loops := AList.delete g (ag_loops a)\<rparr>"
  have exit: "run_state (renewal_exit g) a = ((), ?b)"
    using assms(1,2) by (simp add: renewal_exit_def)
  have "wp (handleReleaseLease E i) (\<lambda>r a'. Get i (ag_store a') = None \<and> map_of (ag_loops a') h = Some rl \<and> \<not> rl_cancelled rl) ?b"
    by (rule wp_mono [OF wp_handleReleaseLease]) (use assms(3-8) in \<open>auto simp: removed_def cancelled_loops_def\<close>)
  with exit show ?thesis by (simp add: wp_def)
qed

text \<open>Allocated, released and allocated again, with the first goroutine not yet gone.\<close>

definition sim_agent2 :: "sim_world agent" where
  "sim_agent2 = snd (run_state (do { _ \<leftarrow> handleReleaseLease sim_E ''wan0''; handleAllocateLease sim_E sim_request }) sim_agent1)"

lemma sim_agent2:
  "\<exists>old. map_of (ag_loops sim_agent2) 0 = Some old \<and> ls_Interface (rl_lease old) = ''wan0''"
  "\<exists>rl. map_of (ag_loops sim_agent2) 1 = Some rl \<and> \<not> rl_cancelled rl"
  "store_wf (ag_store sim_agent2)" "Get ''wan0'' (ag_store sim_agent2) \<noteq> None" "''wan0'' \<notin> set (st_inflight (ag_store sim_agent2))"
  unfolding sim_agent2_def sim_agent1_def
  by (simp_all add: agent_run sim_mac sim_addrs store_wf_def)

theorem late_exit_orphans_goroutine_witness:
  "wp (do { _ \<leftarrow> renewal_exit 0; handleReleaseLease sim_E ''wan0'' })
     (\<lambda>_ a'. Get ''wan0'' (ag_store a') = None \<and> (\<exists>rl. map_of (ag_loops a') 1 = Some rl \<and> \<not> rl_cancelled rl)) sim_agent2"
proof -
  obtain old rl where "map_of (ag_loops sim_agent2) 0 = Some old" "ls_Interface (rl_lease old) = ''wan0''"
    "map_of (ag_loops sim_agent2) 1 = Some rl" "\<not> rl_cancelled rl"
    using sim_agent2(1,2) by blast
  from late_exit_orphans_goroutine [OF this(1,2,3) _ this(4) sim_agent2(3-5), of sim_E] show ?thesis
    by (auto elim!: wp_mono)
qed

end
