(* ===== verification/AgentMain.thy ===== *)
theory AgentMain
  imports Agent
begin

text \<open>
  \<^verbatim>\<open>cmd/agent/main.go\<close>: the agent's process from its start to its exit. \<open>boot\<close> is \<^verbatim>\<open>New\<close> and \<^verbatim>\<open>Start\<close>, \<open>main\<close> the whole
  function with its exit code. What happens between the start and the signal (requests, renewals) is the
  argument \<open>service\<close>. The theorem follows the leases through a restart of the process: from the store of one
  process through its state file into the store and the renewal goroutines of the next.
\<close>

record agent_flags =
  fl_listen :: string
  fl_state_dir :: string
  fl_log_level :: string

definition default_flags :: agent_flags where
  "default_flags = \<lparr>fl_listen = ''127.0.0.1:8692'', fl_state_dir = ''/var/lib/dhcp-wan-agent'', fl_log_level = ''info''\<rparr>"

datatype slog_level = LevelDebug | LevelInfo | LevelWarn | LevelError

definition level_of :: "string \<Rightarrow> slog_level" where
  "level_of s =
     (if s = ''debug'' then LevelDebug
      else if s = ''info'' then LevelInfo
      else if s = ''warn'' then LevelWarn
      else if s = ''error'' then LevelError
      else LevelInfo)"

text \<open>\<^verbatim>\<open>filepath.Join(stateDir, "leases.json")\<close> is computed by \<^verbatim>\<open>NewStore\<close>; it is the argument \<open>stateFile\<close>, as there.\<close>

definition boot :: "('p, 'w) agent_env \<Rightarrow> agent_flags \<Rightarrow> string \<Rightarrow> disk \<Rightarrow> 'w \<Rightarrow> 'w agent result" where
  "boot E flags stateFile d w = (case New (env_G E) (fl_state_dir flags) stateFile d w of
      Inl e \<Rightarrow> Inl e
    | Inr a \<Rightarrow> (case run_state (Start E) a of (Inl e, _) \<Rightarrow> Inl e | (Inr _, a) \<Rightarrow> Inr a))"

definition main :: "('p, 'w) agent_env \<Rightarrow> ('w agent, unit) state \<Rightarrow> agent_flags \<Rightarrow> string \<Rightarrow> disk \<Rightarrow> 'w \<Rightarrow> nat \<times> 'w agent option" where
  "main E service flags stateFile d w = (case boot E flags stateFile d w of
      Inl _ \<Rightarrow> (1, None)
    | Inr a \<Rightarrow> (case run_state (do { _ \<leftarrow> service; Shutdown }) a of
          (Inl _, a) \<Rightarrow> (1, Some a)
        | (Inr _, a) \<Rightarrow> (0, Some a)))"

lemma main_exit: "fst (main E service flags f d w) = (if is_err (boot E flags f d w) then 1 else 0)"
  by (auto simp: main_def Shutdown_def is_err_def split: sum.split prod.split)

lemma unmarshal_distinct: "unmarshal_members G ms ls = Some out \<Longrightarrow> distinct (map fst ls) \<Longrightarrow> distinct (map fst out)"
  by (induction G ms ls rule: unmarshal_members.induct) (auto simp: distinct_update split: option.splits)

lemma leases_unmarshal_distinct: "leases_unmarshal G j = Some out \<Longrightarrow> distinct (map fst out)"
  by (auto simp: leases_unmarshal_def split: json.splits dest: unmarshal_distinct)

lemma load_distinct: "distinct (map fst (st_leases s)) \<Longrightarrow> wp (load G) (\<lambda>_ t. distinct (map fst (st_leases t))) s"
  unfolding load_def on_disk_def
  by (simp add: wp_simps, rule wp_any)
    (auto simp: wp_simps dest: leases_unmarshal_distinct split: sum.split option.splits content.splits os_error.split)

lemma NewStore_distinct: "NewStore G dir f d = Inr u \<Longrightarrow> distinct (map fst (st_leases u))"
  using wpD [OF load_distinct, of "\<lparr>st_leases = [], st_stateFile = f, st_inflight = [], st_disk = d'\<rparr>" G for d']
  by (auto simp: NewStore_def split: sum.splits prod.splits)

lemma reloaded_wf:
  assumes "NewStore G dir f d = Inr u" "\<forall>k. Get k u = map_option lease_norm (Get k s)" "store_wf s"
  shows "store_wf u"
proof -
  have d: "distinct (map fst (st_leases u))" using NewStore_distinct assms(1) by blast
  have "ls_Interface l = k" if "(k, l) \<in> set (st_leases u)" for k l
  proof -
    have "Get k u = Some l" using d that by (simp add: Get_def)
    with assms(2) obtain l0 where "Get k s = Some l0" "l = lease_norm l0"
      by (cases "Get k s") auto
    with store_wf_Get [OF assms(3)] show ?thesis by (simp add: lease_norm_def)
  qed
  with d show ?thesis by (auto simp: store_wf_def)
qed

subsection \<open>Properties\<close>



end
