(* ===== verification/CopyConn.thy ===== *)
theory CopyConn
  imports GoStrings
begin

text \<open>
  \<^verbatim>\<open>copyConn\<close> of \<^verbatim>\<open>internal/router/agent_client.go\<close>: two goroutines copy the two directions of a tunnelled
  connection, a wait group joins them, and the deferred calls close both ends. A direction is a \<open>half\<close>:
  the bytes its source will still deliver, whether the source then ends or stays open and silent (that
  is up to the peer), the bytes written to its destination, whether the goroutine still copies, whether it
  ended by an error, and whether it shut down the destination's sending side (only a TCP connection has
  one, as the type assertion decides). \<^verbatim>\<open>io.Copy\<close> moves chunks of any size until its source ends or a read
  or write fails. The first argument of the step relations marks the failures.
\<close>

type_synonym octets = "8 word list"

datatype copier = Copying | Copied

record half =
  hf_in :: octets
  hf_ends :: bool
  hf_out :: octets
  hf_state :: copier
  hf_broken :: bool
  hf_tcp :: bool
  hf_fin :: bool

definition finish_half :: "bool \<Rightarrow> half \<Rightarrow> half" where
  "finish_half err h = h\<lparr>hf_state := Copied, hf_broken := err, hf_fin := hf_tcp h\<rparr>"

inductive half_step :: "bool \<Rightarrow> half \<Rightarrow> half \<Rightarrow> bool" where
  chunk: "hf_state h = Copying \<Longrightarrow> c \<noteq> [] \<Longrightarrow> hf_in h = c @ rest \<Longrightarrow> half_step False h (h\<lparr>hf_in := rest, hf_out := hf_out h @ c\<rparr>)"
| eof: "hf_state h = Copying \<Longrightarrow> hf_in h = [] \<Longrightarrow> hf_ends h \<Longrightarrow> half_step False h (finish_half False h)"
| error: "hf_state h = Copying \<Longrightarrow> half_step True h (finish_half True h)"

inductive_cases half_stepE: "half_step e h h'"

text \<open>Blocked in \<^verbatim>\<open>Read\<close>: everything was copied and the source neither ends nor sends.\<close>

definition waiting :: "half \<Rightarrow> bool" where
  "waiting h \<longleftrightarrow> hf_state h = Copying \<and> hf_in h = [] \<and> \<not> hf_ends h"

record duplex =
  dx_up :: half
  dx_down :: half
  dx_closed :: bool

text \<open>\<^verbatim>\<open>wg.Wait()\<close> returns when both goroutines are done; then the deferred calls close both connections.\<close>

inductive copy_step :: "bool \<Rightarrow> duplex \<Rightarrow> duplex \<Rightarrow> bool" where
  up: "half_step e (dx_up d) h \<Longrightarrow> copy_step e d (d\<lparr>dx_up := h\<rparr>)"
| down: "half_step e (dx_down d) h \<Longrightarrow> copy_step e d (d\<lparr>dx_down := h\<rparr>)"
| close: "hf_state (dx_up d) = Copied \<Longrightarrow> hf_state (dx_down d) = Copied \<Longrightarrow> \<not> dx_closed d \<Longrightarrow> copy_step False d (d\<lparr>dx_closed := True\<rparr>)"

inductive_cases copy_stepE: "copy_step e d d'"

text \<open>The state in which \<^verbatim>\<open>copyConn\<close> begins: the accepted connection is TCP, the one through the tunnel is not.\<close>

definition new_half :: "octets \<times> bool \<Rightarrow> bool \<Rightarrow> half" where
  "new_half src tcp = \<lparr>hf_in = fst src, hf_ends = snd src, hf_out = [], hf_state = Copying, hf_broken = False, hf_tcp = tcp,
     hf_fin = False\<rparr>"

definition copyConn :: "octets \<times> bool \<Rightarrow> octets \<times> bool \<Rightarrow> duplex" where
  "copyConn local remote = \<lparr>dx_up = new_half local False, dx_down = new_half remote True, dx_closed = False\<rparr>"

definition copies :: "duplex \<Rightarrow> duplex \<Rightarrow> bool" where
  "copies d d' \<longleftrightarrow> (\<exists>e. copy_step e d d')"

lemma copies_step: "copy_step e d d' \<Longrightarrow> copies d d'"
  by (auto simp: copies_def)

subsection \<open>Termination\<close>

definition half_work :: "half \<Rightarrow> nat" where
  "half_work h = length (hf_in h) + (case hf_state h of Copying \<Rightarrow> 1 | Copied \<Rightarrow> 0)"

definition copy_work :: "duplex \<Rightarrow> nat" where
  "copy_work d = half_work (dx_up d) + half_work (dx_down d) + (if dx_closed d then 0 else 1)"

lemma half_step_work: "half_step e h h' \<Longrightarrow> half_work h' < half_work h"
  by (erule half_stepE) (auto simp: half_work_def finish_half_def)

lemma copy_step_work: "copy_step e d d' \<Longrightarrow> copy_work d' < copy_work d"
  by (erule copy_stepE) (auto simp: copy_work_def dest: half_step_work)

lemma half_progress: "hf_state h = Copying \<Longrightarrow> waiting h \<or> (\<exists>h'. half_step False h h')"
proof (cases "hf_in h")
  case (Cons b bs)
  assume "hf_state h = Copying"
  then have "half_step False h (h\<lparr>hf_in := bs, hf_out := hf_out h @ [b]\<rparr>)"
    using half_step.chunk [of h "[b]" bs] Cons by simp
  then show ?thesis by blast
qed (auto simp: waiting_def intro: half_step.eof)

lemma copy_progress: "dx_closed d \<or> (\<exists>d'. copy_step False d d') \<or> waiting (dx_up d) \<or> waiting (dx_down d)"
  using half_progress [of "dx_up d"] half_progress [of "dx_down d"]
  by (cases "hf_state (dx_up d)"; cases "hf_state (dx_down d)") (blast intro: copy_step.intros)+

subsection \<open>What is copied\<close>

definition half_ok :: "octets \<times> bool \<Rightarrow> half \<Rightarrow> bool" where
  "half_ok src h \<longleftrightarrow> hf_out h @ hf_in h = fst src \<and> hf_ends h = snd src \<and>
     (hf_state h = Copied \<longrightarrow> hf_broken h \<or> hf_in h = [] \<and> hf_ends h) \<and> (hf_fin h \<longleftrightarrow> hf_tcp h \<and> hf_state h = Copied)"

definition copy_ok :: "octets \<times> bool \<Rightarrow> octets \<times> bool \<Rightarrow> duplex \<Rightarrow> bool" where
  "copy_ok local remote d \<longleftrightarrow> half_ok local (dx_up d) \<and> half_ok remote (dx_down d) \<and> \<not> hf_tcp (dx_up d) \<and> hf_tcp (dx_down d) \<and>
     (dx_closed d \<longrightarrow> hf_state (dx_up d) = Copied \<and> hf_state (dx_down d) = Copied)"

lemma half_step_ok: "half_step e h h' \<Longrightarrow> half_ok src h \<Longrightarrow> half_ok src h' \<and> hf_state h = Copying \<and> hf_tcp h' = hf_tcp h"
  by (erule half_stepE) (auto simp: half_ok_def finish_half_def)

lemma copy_step_ok: "copy_step e d d' \<Longrightarrow> copy_ok l r d \<Longrightarrow> copy_ok l r d'"
  by (erule copy_stepE) (auto simp: copy_ok_def dest: half_step_ok)

lemma copies_ok: "copies\<^sup>*\<^sup>* (copyConn l r) d \<Longrightarrow> copy_ok l r d"
proof (induction rule: rtranclp_induct)
  case base
  show ?case by (simp add: copy_ok_def copyConn_def new_half_def half_ok_def)
next
  case (step d1 d2)
  then show ?case by (auto simp: copies_def intro: copy_step_ok)
qed

text \<open>C23: A forwarded connection: however the two directions interleave, no run of the copying is infinite, and it comes
  to rest only with both connections closed or while a direction waits for a peer that keeps its end open and
  silent; when both peers end their streams it always ends, also without any failure. The connections are
  closed only after both directions are done. What has been written is at every moment a prefix of
  what was sent, and all of it when a direction ended without an error. The end of the agent's stream
  is passed on to the local connection; the end of the local stream is never passed on to the agent.\<close>

theorem copyConn_terminates:
  "wfp (\<lambda>d' d. copies d d') \<and>
   (\<forall>d. copies\<^sup>*\<^sup>* (copyConn local remote) d \<longrightarrow>
      (dx_closed d \<or> (\<exists>d'. copy_step False d d') \<or> waiting (dx_up d) \<and> \<not> snd local \<or> waiting (dx_down d) \<and> \<not> snd remote) \<and>
      (dx_closed d \<longrightarrow> hf_state (dx_up d) = Copied \<and> hf_state (dx_down d) = Copied \<and> \<not> (\<exists>d'. copies d d')) \<and>
      hf_out (dx_up d) @ hf_in (dx_up d) = fst local \<and> hf_out (dx_down d) @ hf_in (dx_down d) = fst remote \<and>
      (dx_closed d \<longrightarrow> \<not> hf_broken (dx_up d) \<longrightarrow> hf_out (dx_up d) = fst local) \<and>
      (dx_closed d \<longrightarrow> \<not> hf_broken (dx_down d) \<longrightarrow> hf_out (dx_down d) = fst remote) \<and>
      hf_fin (dx_down d) = (hf_state (dx_down d) = Copied) \<and> \<not> hf_fin (dx_up d))"
proof (intro conjI allI impI)
  show "wfp (\<lambda>d' d. copies d d')"
    by (rule wfp_if_convertible_to_nat [where f = copy_work]) (auto simp: copies_def dest: copy_step_work)
next
  fix d
  assume d: "copies\<^sup>*\<^sup>* (copyConn local remote) d"
  note ok = copies_ok [OF d]
  show "dx_closed d \<or> (\<exists>d'. copy_step False d d') \<or> waiting (dx_up d) \<and> \<not> snd local \<or> waiting (dx_down d) \<and> \<not> snd remote"
    using copy_progress [of d] ok by (auto simp: copy_ok_def half_ok_def waiting_def)
  show "hf_out (dx_up d) @ hf_in (dx_up d) = fst local" "hf_out (dx_down d) @ hf_in (dx_down d) = fst remote"
    "hf_fin (dx_down d) = (hf_state (dx_down d) = Copied)" "\<not> hf_fin (dx_up d)"
    using ok by (simp_all add: copy_ok_def half_ok_def)
  assume c: "dx_closed d"
  then show s: "hf_state (dx_up d) = Copied" "hf_state (dx_down d) = Copied"
    using ok by (simp_all add: copy_ok_def)
  show "\<not> (\<exists>d'. copies d d')"
    using s c by (auto simp: copies_def elim!: copy_stepE half_stepE)
  show "hf_out (dx_up d) = fst local" if "\<not> hf_broken (dx_up d)"
    using ok s that by (auto simp: copy_ok_def half_ok_def)
  show "hf_out (dx_down d) = fst remote" if "\<not> hf_broken (dx_down d)"
    using ok s that by (auto simp: copy_ok_def half_ok_def)
qed

theorem copyConn_terminates_witness:
  "\<exists>d. copies\<^sup>*\<^sup>* (copyConn ([71], True) ([], True)) d \<and> dx_closed d \<and> hf_out (dx_up d) = [71]"
proof -
  let ?start = "new_half ([71], True) False"
  let ?h = "?start\<lparr>hf_in := [], hf_out := [71]\<rparr>"
  let ?init = "copyConn ([71], True) ([], True)"
  let ?d1 = "?init\<lparr>dx_up := ?h\<rparr>"
  let ?d2 = "?d1\<lparr>dx_up := finish_half False ?h\<rparr>"
  let ?d3 = "?d2\<lparr>dx_down := finish_half False (new_half ([], True) True)\<rparr>"
  let ?d4 = "?d3\<lparr>dx_closed := True\<rparr>"
  have "half_step False ?start ?h"
    using half_step.chunk [of ?start "[71]" "[]"] by (simp add: new_half_def)
  then have "copy_step False ?init ?d1"
    by (intro copy_step.up) (simp add: copyConn_def)
  moreover have "copy_step False ?d1 ?d2"
    using half_step.eof [of ?h] copy_step.up [of False ?d1 "finish_half False ?h"] by (simp add: new_half_def)
  moreover have "copy_step False ?d2 ?d3"
    using half_step.eof [of "new_half ([], True) True"] copy_step.down [of False ?d2 "finish_half False (new_half ([], True) True)"]
    by (simp add: copyConn_def new_half_def)
  moreover have "copy_step False ?d3 ?d4"
    by (rule copy_step.close) (simp_all add: finish_half_def copyConn_def)
  ultimately have run: "copies\<^sup>*\<^sup>* ?init ?d4"
    by (meson copies_step converse_rtranclp_into_rtranclp rtranclp.rtrancl_refl)
  have "dx_closed ?d4" "\<not> hf_broken (dx_up ?d4)" by (simp_all add: finish_half_def)
  with run obtain d where d: "copies\<^sup>*\<^sup>* ?init d" "dx_closed d" "\<not> hf_broken (dx_up d)" by blast
  with copyConn_terminates [of "([71], True)" "([], True)"] have "hf_out (dx_up d) = fst ([71], True)" by blast
  with d show ?thesis by (intro exI [of _ d]) simp
qed

end
