(* ===== verification/SshRunner.thy ===== *)
theory SshRunner
  imports SshManager AgentClient
begin

text \<open>
  \<^verbatim>\<open>sshCommandRunner.Run\<close> of \<^verbatim>\<open>internal/ssh/manager.go\<close>, the runner a manager uses by default: one SSH session
  per command. The session's methods are parameters. \<open>ctx\<close> decides the \<^verbatim>\<open>select\<close>: \<open>None\<close> when the command ends
  first, \<open>Some e\<close> when the context ends first with the error \<open>e\<close>. The goroutine that waits for the
  command is joined on both arms: its \<^verbatim>\<open>Wait\<close> is the step \<open>se_Wait\<close>, after the kill and the close when the
  context ended.
\<close>

record 'w session_lib =
  se_New :: "nat \<Rightarrow> ('w, nat result) state"
  se_Start :: "nat \<Rightarrow> string \<Rightarrow> ('w, unit result) state"
  se_Wait :: "nat \<Rightarrow> ('w, unit result) state"
  se_Stdout :: "nat \<Rightarrow> ('w, string) state"
  se_Stderr :: "nat \<Rightarrow> ('w, string) state"
  se_Kill :: "nat \<Rightarrow> ('w, unit) state"
  se_Close :: "nat \<Rightarrow> ('w, unit) state"

text \<open>The arms of the \<^verbatim>\<open>select\<close>.\<close>

definition run_wait :: "'w session_lib \<Rightarrow> string option \<Rightarrow> nat \<Rightarrow> ('w, string result) state" where
  "run_wait S ctx session = (case ctx of
      None \<Rightarrow> do {
        err \<leftarrow> se_Wait S session;
        (case err of
           Inl e \<Rightarrow> do {
             msg \<leftarrow> se_Stderr S session;
             ret (Inl (if msg \<noteq> [] then wrapf e msg else e))
           }
         | Inr _ \<Rightarrow> do { out \<leftarrow> se_Stdout S session; ret (Inr out) })
      }
    | Some e \<Rightarrow> do {
        _ \<leftarrow> se_Kill S session;
        _ \<leftarrow> se_Close S session;
        _ \<leftarrow> se_Wait S session;
        ret (Inl e)
      })"

definition Run :: "'w session_lib \<Rightarrow> string option \<Rightarrow> nat option \<Rightarrow> string \<Rightarrow> ('w, string result) state" where
  "Run S ctx client command = (case client of
      None \<Rightarrow> ret (Inl ''ssh client is nil'')
    | Some client \<Rightarrow> do {
        session \<leftarrow> se_New S client;
        (case session of
           Inl e \<Rightarrow> ret (Inl e)
         | Inr session \<Rightarrow> do {
             started \<leftarrow> se_Start S session command;
             r \<leftarrow> (case started of Inl e \<Rightarrow> ret (Inl e) | Inr _ \<Rightarrow> run_wait S ctx session);
             _ \<leftarrow> se_Close S session;
             ret r
           })
      })"

text \<open>What the runner relies on: opening adds a session, closing removes it (twice is as good as once), the other
  calls open and close none; a session that was started and not yet waited for has a command under way,
  and \<^verbatim>\<open>Wait\<close> returns when it is over.\<close>

definition sessions_spec :: "'w session_lib \<Rightarrow> ('w \<Rightarrow> nat set) \<Rightarrow> ('w \<Rightarrow> nat set) \<Rightarrow> bool" where
  "sessions_spec S sess running \<longleftrightarrow>
     (\<forall>c. opens sess of_result (se_New S c) \<and> keeps running (se_New S c)) \<and>
     (\<forall>h cmd w. wp (se_Start S h cmd) (\<lambda>r w'. sess w' = sess w \<and>
        running w' = (if is_err r then running w else insert h (running w))) w) \<and>
     (\<forall>h w. wp (se_Wait S h) (\<lambda>_ w'. sess w' = sess w \<and> running w' = running w - {h}) w) \<and>
     (\<forall>h. keeps sess (se_Stdout S h) \<and> keeps running (se_Stdout S h)) \<and>
     (\<forall>h. keeps sess (se_Stderr S h) \<and> keeps running (se_Stderr S h)) \<and>
     (\<forall>h. keeps sess (se_Kill S h) \<and> keeps running (se_Kill S h)) \<and>
     (\<forall>h w. wp (se_Close S h) (\<lambda>_ w'. sess w' = sess w - {h} \<and> running w' = running w) w)"

lemma sessions_rules:
  assumes "sessions_spec S sess running"
  shows "(\<And>r w'. sess w' = sess w \<Longrightarrow> running w' = (if is_err r then running w else insert h (running w)) \<Longrightarrow> Q r w') \<Longrightarrow> wp (se_Start S h cmd) Q w"
    and "(\<And>r w'. sess w' = sess w \<Longrightarrow> running w' = running w - {h} \<Longrightarrow> Q r w') \<Longrightarrow> wp (se_Wait S h) Q w"
    and "(\<And>x w'. sess w' = sess w - {h} \<Longrightarrow> running w' = running w \<Longrightarrow> R x w') \<Longrightarrow> wp (se_Close S h) R w"
proof -
  have "wp (se_Start S h cmd) (\<lambda>r w'. sess w' = sess w \<and> running w' = (if is_err r then running w else insert h (running w))) w"
    "wp (se_Wait S h) (\<lambda>_ w'. sess w' = sess w \<and> running w' = running w - {h}) w"
    "wp (se_Close S h) (\<lambda>_ w'. sess w' = sess w - {h} \<and> running w' = running w) w"
    using assms by (simp_all add: sessions_spec_def)
  then show "(\<And>r w'. sess w' = sess w \<Longrightarrow> running w' = (if is_err r then running w else insert h (running w)) \<Longrightarrow> Q r w') \<Longrightarrow> wp (se_Start S h cmd) Q w"
    and "(\<And>r w'. sess w' = sess w \<Longrightarrow> running w' = running w - {h} \<Longrightarrow> Q r w') \<Longrightarrow> wp (se_Wait S h) Q w"
    and "(\<And>x w'. sess w' = sess w - {h} \<Longrightarrow> running w' = running w \<Longrightarrow> R x w') \<Longrightarrow> wp (se_Close S h) R w"
    by (auto elim!: wp_mono)
qed

lemma sessions_reads:
  assumes "sessions_spec S sess running" "m \<in> {se_Stdout S h, se_Stderr S h}"
    "\<And>x w'. sess w' = sess w \<Longrightarrow> running w' = running w \<Longrightarrow> Q x w'"
  shows "wp m Q w"
proof -
  have "wp m (\<lambda>_ w'. sess w' = sess w) w" "wp m (\<lambda>_ w'. running w' = running w) w"
    using assms(1,2) by (auto simp: sessions_spec_def keeps_def)
  from wp_conj [OF this] show ?thesis by (rule wp_mono) (use assms(3) in auto)
qed

lemma sessions_kill:
  assumes "sessions_spec S sess running" "\<And>x w'. sess w' = sess w \<Longrightarrow> running w' = running w \<Longrightarrow> Q x w'"
  shows "wp (se_Kill S h) Q w"
proof -
  have "wp (se_Kill S h) (\<lambda>_ w'. sess w' = sess w) w" "wp (se_Kill S h) (\<lambda>_ w'. running w' = running w) w"
    using assms(1) by (auto simp: sessions_spec_def keeps_def)
  from wp_conj [OF this] show ?thesis by (rule wp_mono) (use assms(2) in auto)
qed

lemma wp_run_wait:
  assumes "sessions_spec S sess running"
  shows "wp (run_wait S ctx h) (\<lambda>r w'. sess w' - {h} = sess w - {h} \<and> running w' = running w - {h} \<and> (ctx \<noteq> None \<longrightarrow> is_err r)) w"
  unfolding run_wait_def
  by (auto simp: wp_simps split: option.split sum.split intro!: sessions_rules(2,3) [OF assms] sessions_kill [OF assms]
      sessions_reads [OF assms, of "se_Stderr S h"] sessions_reads [OF assms, of "se_Stdout S h"])

subsection \<open>Properties\<close>

text \<open>C24: Running a command leaves nothing behind: whichever of its steps fails and whether or not the context ends
  first, afterwards exactly the sessions are open that were open before and no command of its own is
  under way; a command cut off by the context reports an error.\<close>

theorem run_leaves_no_session:
  assumes S: "sessions_spec S sess running" and "running w \<subseteq> sess w"
  shows "wp (Run S ctx client command) (\<lambda>r w'. sess w' = sess w \<and> running w' = running w \<and> (ctx \<noteq> None \<longrightarrow> is_err r)) w"
proof (cases client)
  case (Some c)
  have new: "opens sess of_result (se_New S c)" "keeps running (se_New S c)"
    using S by (simp_all add: sessions_spec_def)
  have body: "wp (do { started \<leftarrow> se_Start S h command;
        r \<leftarrow> (case started of Inl e \<Rightarrow> ret (Inl e) | Inr _ \<Rightarrow> run_wait S ctx h);
        _ \<leftarrow> se_Close S h; ret r })
      (\<lambda>r w'. sess w' = sess w \<and> running w' = running w \<and> (ctx \<noteq> None \<longrightarrow> is_err r)) w1"
    if "h \<notin> sess w" "sess w1 = insert h (sess w)" "running w1 = running w" for h w1
  proof -
    have "h \<notin> running w" using that(1) assms(2) by blast
    with that show ?thesis
      by (auto simp: wp_simps split: sum.split intro!: sessions_rules(1,3) [OF S] wp_mono [OF wp_run_wait [OF S]])
  qed
  have "wp (se_New S c) (\<lambda>r w1. (case of_result r of None \<Rightarrow> sess w1 = sess w
      | Some h \<Rightarrow> h \<notin> sess w \<and> sess w1 = insert h (sess w)) \<and> running w1 = running w) w"
    using new by (intro wp_conj) (simp_all add: opens_def keeps_def)
  then show ?thesis
    unfolding Run_def Some option.case wp_bind [of "se_New S c"]
    by (rule wp_mono) (auto simp del: not_None_eq simp: of_result_def wp_return split: sum.splits intro: body)
qed (simp add: Run_def wp_simps)

text \<open>A client whose commands hang until they are killed.\<close>

definition sim_S :: "(nat list \<times> nat list) session_lib" where
  "sim_S = \<lparr>se_New = (\<lambda>_. State (\<lambda>(s, r). (Inr (Suc (sum_list s)), (Suc (sum_list s) # s, r)))),
     se_Start = (\<lambda>h _. State (\<lambda>(s, r). (Inr (), (s, h # r)))),
     se_Wait = (\<lambda>h. State (\<lambda>(s, r). (Inl ''killed'', (s, removeAll h r)))),
     se_Stdout = (\<lambda>_. ret []), se_Stderr = (\<lambda>_. ret []), se_Kill = (\<lambda>_. ret ()),
     se_Close = (\<lambda>h. State (\<lambda>(s, r). ((), (removeAll h s, r))))\<rparr>"

lemma sim_sessions: "sessions_spec sim_S (\<lambda>w. set (fst w)) (\<lambda>w. set (snd w))"
  using fresh_handle
  by (auto simp: sessions_spec_def sim_S_def opens_def of_result_def keeps_def wp_def)

theorem run_leaves_no_session_witness:
  "wp (Run sim_S (Some ''context deadline exceeded'') (Some 1) ''cat /proc/uptime'')
     (\<lambda>r w'. set (fst w') = {7} \<and> set (snd w') = {} \<and> is_err r) ([7], [])"
  using run_leaves_no_session [OF sim_sessions, of "([7], [])" "Some ''context deadline exceeded''" "Some 1" "''cat /proc/uptime''"]
  by simp

end
