(* ===== verification/Spec2Isabelle.thy ===== *)
theory Spec2Isabelle
  imports EndToEnd ControllerState AgentThreads AgentMain CopyConn SshRunner
begin

text \<open>
  A verification of the \<^verbatim>\<open>cilium-dhcp-wanip-operator\<close>. File names below are relative to \<^verbatim>\<open>src/\<close>.

  \<^bold>\<open>The program.\<close> Two programs work together. The \<^emph>\<open>operator\<close> (\<^verbatim>\<open>cmd/main.go\<close>) runs in a Kubernetes cluster and
  reconciles \<^verbatim>\<open>PublicIPClaim\<close> resources: for each claim it obtains a public address from a router and lists
  it as a \<^verbatim>\<open>/32\<close> block of a Cilium load-balancer pool. The \<^emph>\<open>agent\<close> (\<^verbatim>\<open>cmd/agent/main.go\<close>) runs on the router:
  it creates a macvlan interface per claim, holds a DHCP lease on it, renews the lease, announces the
  address by gratuitous ARP and keeps its leases in a state file. The operator reaches the agent by HTTP
  through an SSH tunnel; a pool of persistent SSH connections, one manager per router, watches for
  reboots and connection losses and reports them to the claims.

  \<^bold>\<open>How the code is modelled.\<close> A Go function that changes state or calls the outside is a program of the state
  monad; \<^verbatim>\<open>(T, error)\<close> is the sum \<open>string + 'a\<close>; a function that can panic returns a value that says so; a
  struct is a record, a map an association list, a pointer that is shared a number into a heap. A
  goroutine is a value in the state with the point at which it stands, and interleavings are
  sequences of steps. The collection \<open>wp_simps\<close> computes weakest preconditions along the code's own control flow,
  and the contracts of handlers are stated with \<open>wp\<close>. Third-party code (netlink, the DHCP library,
  \<^verbatim>\<open>x/crypto/ssh\<close>, the Kubernetes clients) and the kernel are parameters: records of functions over an
  abstract world, with the documented behaviour that a theorem relies on as a named predicate
  (\<open>netlink_spec\<close>, \<open>handles_spec\<close>, \<open>tunnel_spec\<close>, \<open>sessions_spec\<close>, \<open>agent_at\<close>, the \<open>quiet\<close> predicates). \<open>SimWorld\<close> and
  \<open>SimCluster\<close> are concrete instances of all of them, on which the operations run.

  \<^bold>\<open>The theories.\<close>

  \<^item> Shared: \<open>Prelude\<close> (results, \<open>wp\<close>, \<open>zoom\<close>), \<open>GoStrings\<close>, \<open>GoNet\<close>, \<open>GoTime\<close>, \<open>Json\<close> (the parts of the Go library the
    program uses, with round trips of addresses), \<open>KernelOps\<close> and \<open>SimWorld\<close> (the kernel as a parameter, and an instance).
  \<^item> \<open>Garp\<close> (\<^verbatim>\<open>internal/agent/network/garp.go\<close>): the frame, byte by byte, is the RFC 5227 announcement; how many
    frames reach the wire.
  \<^item> \<open>NetConfig\<close> (\<^verbatim>\<open>internal/agent/network/config.go\<close>): the links each function leaves behind on every path.
  \<^item> \<open>Dhcp\<close> (\<^verbatim>\<open>internal/agent/dhcp/client.go\<close>): which leases are accepted; every opened client is closed.
  \<^item> \<open>Lease\<close> (\<^verbatim>\<open>internal/agent/lease/types.go\<close>): the store. Locales \<open>lease_map\<close> and \<open>keyed_lock\<close> state what the agent
    relies on; both are interpreted on the store and, in \<open>Agent\<close>, on the agent's state. Saving is atomic under
    torn writes, a restart restores the leases, the mutexes are given back (with one exception).
  \<^item> \<open>AgentApi\<close> (\<^verbatim>\<open>internal/agent/api/types.go\<close>): the messages and their encodings.
  \<^item> \<open>Agent\<close> (\<^verbatim>\<open>internal/agent/agent.go\<close>): every handler on every branch, allocation and release with their clean-up,
    renewal and its backoff, start and the judgement of loaded leases. \<open>AgentThreads\<close>: handlers and renewal
    goroutines interleaved; the invariant of \<^verbatim>\<open>renewalCancels\<close> and two races. \<open>AgentMain\<close> (\<^verbatim>\<open>cmd/agent/main.go\<close>): the
    process from start to exit, and the leases through a restart.
  \<^item> \<open>AgentClient\<close> (\<^verbatim>\<open>internal/router/agent_client.go\<close>): the calls composed with the agent's handlers, the sockets of
    the tunnel. \<open>CopyConn\<close>: the two copying directions of one forwarded connection.
  \<^item> \<open>SshManager\<close> (\<^verbatim>\<open>internal/ssh/manager.go\<close>): the manager's methods and goroutines as a step relation; its state is
    consistent and it is always watched. \<open>SshRunner\<close>: the default command runner. \<open>SshCommands\<close>
    (\<^verbatim>\<open>internal/ssh/commands.go\<close>): validation and quoting. \<open>SshRegistry\<close> (\<^verbatim>\<open>internal/ssh/registry.go\<close>): sharing, closing.
    The locale \<open>capped_doubling\<close> (\<open>GoTime\<close>) states the waiting discipline that the manager's reconnect
    loop and the agent's renewal loop share; it is interpreted on both.
  \<^item> \<open>Claim\<close> (\<^verbatim>\<open>api/v1alpha1/publicipclaim_types.go\<close>) and \<open>Pool\<close> (the two pool functions of
    \<^verbatim>\<open>internal/controller/publicipclaim_controller.go\<close>): they refine insertion and deletion on the set of CIDRs (locale
    \<open>ip_pool\<close>, interpretation \<open>cilium\<close>), and no concurrent update of a pool is lost.
  \<^item> \<open>Controller\<close> (\<^verbatim>\<open>internal/controller/publicipclaim_controller.go\<close>): \<^verbatim>\<open>Reconcile\<close> and everything it calls.
    \<open>ControllerLaws\<close>: frame rules. \<open>ControllerProps\<close>: deletion, the periodic check, events, failed claims.
    \<open>ControllerState\<close>: the tracking maps in every run, generated names and MAC addresses, the fallback check.
  \<^item> \<open>EndToEnd\<close>: reconciler, API server, pools and agent together: a successful allocation makes the lease of the
    agent, the status of the claim and the pool agree; a healthy claim is left alone.

  \<^bold>\<open>Bounds and fuel.\<close> Durations are kept in the range of \<^verbatim>\<open>int64\<close> by \<open>wrap64\<close> where the code's arithmetic can leave
  it; bytes are \<open>8 word\<close>. Ranging over a string decodes UTF-8 with the length of the string as fuel: every step consumes
  at least one byte. All other loops are structural recursions or step relations; the keep-alive, reconnect and
  renewal loops, which do not end by themselves, are steps. Copying is shown to end by a measure.

  \<^bold>\<open>Not modelled.\<close> \<^verbatim>\<open>cmd/main.go\<close> (flags, TLS options, wiring of the controller runtime), \<^verbatim>\<open>SetupWithManager\<close>
  (registration with the controller runtime: it creates the empty maps with which runs begin),
  \<^verbatim>\<open>zz_generated.deepcopy.go\<close> and \<^verbatim>\<open>groupversion_info.go\<close> (generated or declarative: claims are values here),
  \<^verbatim>\<open>test/utils\<close>. Log lines are left out. A context's deadline is not a clock of the model: an operation that
  times out is one that returns an error at that point. A state file holding \<^verbatim>\<open>null\<close> is read as the empty map, an
  entry that is \<^verbatim>\<open>null\<close> as an empty lease (the agent writes neither).
\<close>

end
